(* ===== verification/Py_Prelude.thy ===== *)
theory Py_Prelude
  imports Complex_Main "HOL-Library.Word" "HOL-Library.AList" "HOL-Library.List_Lexorder"
begin

text \<open>
  Shared ground of the development: Python's exceptions as values, byte strings, the
  big-endian integer codec of the \<^verbatim>\<open>struct\<close> module, slices, insertion-ordered
  dictionaries (association lists of \<^verbatim>\<open>HOL-Library.AList\<close>, whose \<open>update\<close> keeps the place of
  an existing key and appends a new one, as a Python \<^verbatim>\<open>dict\<close> does), decimal printing, and
  the automation collections that the component theories add to.
\<close>

named_theorems pydefs \<open>definitions unfolded when a concrete run is evaluated\<close>

section \<open>Exceptions and results\<close>

datatype exn =
    ValueError
  | StructError
  | KeyError
  | IndexError
  | TypeError
  | AttributeError
  | UnicodeDecodeError
  | InvalidTag
  | OSError
  | RuntimeError
  | CalledProcessError
  | TLSChannelError
  | NotImplementedError
  | SystemExit

type_synonym 'a res = "exn + 'a"

definition res_bind :: "'a res \<Rightarrow> ('a \<Rightarrow> 'b res) \<Rightarrow> 'b res" where
  "res_bind m f = (case m of Inl e \<Rightarrow> Inl e | Inr x \<Rightarrow> f x)"

lemma res_bind_simps [simp]:
  "res_bind (Inl e) f = Inl e"
  "res_bind (Inr x) f = f x"
  by (simp_all add: res_bind_def)

lemma res_bind_Inr_iff:
  "res_bind m f = Inr y \<longleftrightarrow> (\<exists>x. m = Inr x \<and> f x = Inr y)"
  by (cases m) simp_all

definition is_ok :: "'a res \<Rightarrow> bool" where
  "is_ok m = (case m of Inl _ \<Rightarrow> False | Inr _ \<Rightarrow> True)"

lemma is_ok_simps [simp]: "is_ok (Inl e) = False" "is_ok (Inr x) = True"
  by (simp_all add: is_ok_def)

lemma is_ok_iff: "is_ok m \<longleftrightarrow> (\<exists>x. m = Inr x)"
  by (cases m) simp_all

definition of_opt :: "exn \<Rightarrow> 'a option \<Rightarrow> 'a res" where
  "of_opt e m = (case m of None \<Rightarrow> Inl e | Some x \<Rightarrow> Inr x)"

lemma of_opt_simps [simp]: "of_opt e None = Inl e" "of_opt e (Some x) = Inr x"
  by (simp_all add: of_opt_def)

lemma of_opt_Inr_iff: "of_opt e m = Inr x \<longleftrightarrow> m = Some x"
  by (cases m) simp_all

text \<open>
  A method that mutates an object and may raise: the new state is returned in both cases,
  since what was assigned before the exception stays assigned.
\<close>

type_synonym ('s, 'a) meth = "'s \<Rightarrow> 'a res \<times> 's"

definition m_return :: "'a \<Rightarrow> ('s, 'a) meth" where
  "m_return x s = (Inr x, s)"

definition m_raise :: "exn \<Rightarrow> ('s, 'a) meth" where
  "m_raise e s = (Inl e, s)"

definition m_bind :: "('s, 'a) meth \<Rightarrow> ('a \<Rightarrow> ('s, 'b) meth) \<Rightarrow> ('s, 'b) meth" where
  "m_bind m f s = (case m s of (Inl e, t) \<Rightarrow> (Inl e, t) | (Inr x, t) \<Rightarrow> f x t)"

definition m_seq :: "('s, 'a) meth \<Rightarrow> ('s, 'b) meth \<Rightarrow> ('s, 'b) meth" where
  "m_seq m n = m_bind m (\<lambda>_. n)"

definition m_lift :: "'a res \<Rightarrow> ('s, 'a) meth" where
  "m_lift r s = (r, s)"

definition m_upd :: "('s \<Rightarrow> 's) \<Rightarrow> ('s, unit) meth" where
  "m_upd f s = (Inr (), f s)"

definition m_ask :: "('s \<Rightarrow> 'a res) \<Rightarrow> ('s, 'a) meth" where
  "m_ask f s = (f s, s)"

fun m_for :: "('b \<Rightarrow> ('s, unit) meth) \<Rightarrow> 'b list \<Rightarrow> ('s, unit) meth" where
  "m_for f [] s = (Inr (), s)"
| "m_for f (x # xs) s =
     (case f x s of (Inl e, t) \<Rightarrow> (Inl e, t) | (Inr _, t) \<Rightarrow> m_for f xs t)"

text \<open>
  Calling an \<^verbatim>\<open>async def\<close> only makes a coroutine object, a suspended call; its body runs when the
  object is awaited, and never if it is dropped.
\<close>

datatype ('s, 'a) coroutine = Coroutine "('s, 'a) meth"

fun await :: "('s, 'a) coroutine \<Rightarrow> ('s, 'a) meth" where
  "await (Coroutine m) = m"

lemmas meth_defs = m_return_def m_raise_def m_bind_def m_seq_def m_lift_def m_upd_def m_ask_def

text \<open>When a method returns normally: the rules that take a body apart in a proof.\<close>

lemma meth_Inr_iff:
  "m_bind m f s = (Inr y, t) \<longleftrightarrow> (\<exists>x u. m s = (Inr x, u) \<and> f x u = (Inr y, t))"
  "m_seq m n s = (Inr z, t) \<longleftrightarrow> (\<exists>x u. m s = (Inr x, u) \<and> n u = (Inr z, t))"
  "m_lift r s = (Inr y, t) \<longleftrightarrow> r = Inr y \<and> t = s"
  "m_ask g s = (Inr y, t) \<longleftrightarrow> g s = Inr y \<and> t = s"
  "m_return v s = (Inr y, t) \<longleftrightarrow> v = y \<and> t = s"
  by (auto simp: m_bind_def m_seq_def m_lift_def m_ask_def m_return_def
      split: prod.splits sum.splits)

lemma m_upd_Inr_iff: "m_upd h s = (Inr (), t) \<longleftrightarrow> t = h s"
  by (auto simp: m_upd_def)

lemma m_for_append:
  "m_for f (xs @ ys) s =
     (case m_for f xs s of (Inl e, t) \<Rightarrow> (Inl e, t) | (Inr _, t) \<Rightarrow> m_for f ys t)"
  by (induction xs arbitrary: s) (auto split: prod.splits sum.splits)

lemma m_for_keeps:
  assumes "\<And>x s. x \<in> set xs \<Longrightarrow> I s \<Longrightarrow> I (snd (f x s))" and "I s"
  shows "I (snd (m_for f xs s))"
  using assms
proof (induction xs arbitrary: s)
  case (Cons x xs)
  then have "I (snd (f x s))" by simp
  moreover obtain r t where "f x s = (r, t)" by fastforce
  ultimately show ?case using Cons by (cases r) auto
qed simp

lemma snd_seq_return [simp]: "snd (m_seq m (m_return x) s) = snd (m s)"
  by (auto simp: m_seq_def m_bind_def m_return_def split: prod.split sum.split)

text \<open>A method keeps a condition on its object, whether it returns or raises.\<close>

definition keeps :: "('s \<Rightarrow> bool) \<Rightarrow> ('s, 'a) meth \<Rightarrow> bool" where
  "keeps I m \<longleftrightarrow> (\<forall>s. I s \<longrightarrow> I (snd (m s)))"

named_theorems keeps_intro \<open>a method keeps a condition when its parts do\<close>

lemma keepsI: "(\<And>s. I s \<Longrightarrow> I (snd (m s))) \<Longrightarrow> keeps I m"
  by (simp add: keeps_def)

lemma keepsD: "keeps I m \<Longrightarrow> I s \<Longrightarrow> I (snd (m s))"
  by (simp add: keeps_def)

lemma keeps_step: "keeps I m \<Longrightarrow> I s \<Longrightarrow> m s = (r, t) \<Longrightarrow> I t"
  using keepsD [of I m s] by simp

lemma keeps_m [keeps_intro]:
  "keeps I (m_return x)" "keeps I (m_raise e)" "keeps I (m_lift r)" "keeps I (m_ask f)"
  by (simp_all add: keeps_def meth_defs)

lemma keeps_bind [keeps_intro]: "keeps I m \<Longrightarrow> (\<And>x. keeps I (f x)) \<Longrightarrow> keeps I (m_bind m f)"
  unfolding keeps_def m_bind_def
  by (auto split: prod.splits sum.splits)

lemma keeps_seq [keeps_intro]: "keeps I m \<Longrightarrow> keeps I n \<Longrightarrow> keeps I (m_seq m n)"
  unfolding m_seq_def by (rule keeps_bind)

lemma keeps_upd [keeps_intro]: "(\<And>s. I s \<Longrightarrow> I (f s)) \<Longrightarrow> keeps I (m_upd f)"
  by (simp add: keeps_def m_upd_def)

lemma keeps_if [keeps_intro]:
  "keeps I m \<Longrightarrow> keeps I n \<Longrightarrow> keeps I (if b then m else n)"
  by simp

lemma keeps_for [keeps_intro]: "(\<And>x. keeps I (f x)) \<Longrightarrow> keeps I (m_for f xs)"
  by (rule keepsI, rule m_for_keeps) (auto simp: keeps_def)

text \<open>Truth value of an optional path: \<open>None\<close> and the empty string are false.\<close>

fun truthy :: "'a list option \<Rightarrow> bool" where
  "truthy None = False"
| "truthy (Some xs) = (xs \<noteq> [])"

fun or_empty :: "'a list option \<Rightarrow> 'a list" where
  "or_empty None = []"
| "or_empty (Some xs) = xs"

section \<open>Byte strings and the struct module\<close>

type_synonym byte = "8 word"
type_synonym bytes = "byte list"

fun be_bytes :: "nat \<Rightarrow> nat \<Rightarrow> bytes" where
  "be_bytes 0 v = []"
| "be_bytes (Suc n) v = be_bytes n (v div 256) @ [word_of_nat v]"

definition of_be :: "bytes \<Rightarrow> nat" where
  "of_be bs = foldl (\<lambda>acc b. acc * 256 + unat b) 0 bs"

lemma be_bytes_numeral [pydefs]:
  "be_bytes (numeral k) v = be_bytes (pred_numeral k) (v div 256) @ [word_of_nat v]"
  by (simp only: numeral_eq_Suc [of k] be_bytes.simps)

lemma be_bytes_1 [simp]: "be_bytes (Suc 0) v = [word_of_nat v]"
  by simp

lemma length_be_bytes [simp]: "length (be_bytes n v) = n"
  by (induction n arbitrary: v) auto

lemma be_bytes_eq_Nil [simp]: "be_bytes n v = [] \<longleftrightarrow> n = 0"
  by (cases n) auto

lemma of_be_Nil [simp]: "of_be [] = 0"
  by (simp add: of_be_def)

lemma of_be_snoc [simp]: "of_be (bs @ [b]) = of_be bs * 256 + unat b"
  by (simp add: of_be_def)

lemma of_be_single [simp]: "of_be [b] = unat b"
  by (simp add: of_be_def)

lemma unat_byte_less [simp]: "unat (b :: byte) < 256"
  using unsigned_less [of b, where ?'a = nat] by simp

lemma word_of_nat_unat_byte [simp]: "word_of_nat (unat (b :: byte)) = b"
  by (simp add: word_unat_eq_iff unat_of_nat)

lemma of_be_bound: "of_be bs < 256 ^ length bs"
proof (induction bs rule: rev_induct)
  case (snoc b bs)
  have "of_be bs * 256 + unat b < (of_be bs + 1) * 256" by simp
  also have "\<dots> \<le> 256 ^ length bs * 256"
    using snoc.IH by (intro mult_right_mono) auto
  finally show ?case by (simp add: mult.commute)
qed simp

lemma of_be_be_bytes: "of_be (be_bytes n v) = v mod 256 ^ n"
proof (induction n arbitrary: v)
  case (Suc n)
  have "v mod 256 ^ Suc n = (v div 256) mod 256 ^ n * 256 + v mod 256"
    by (simp add: mod_mult2_eq)
  then show ?case by (simp add: Suc unat_of_nat)
qed simp

lemma of_be_be_bytes_id [simp]: "v < 256 ^ n \<Longrightarrow> of_be (be_bytes n v) = v"
  by (simp add: of_be_be_bytes)

lemma be_bytes_of_be: "be_bytes (length bs) (of_be bs) = bs"
proof (induction bs rule: rev_induct)
  case (snoc b bs)
  have "(of_be bs * 256 + unat b) div 256 = of_be bs" by simp
  moreover have "word_of_nat (of_be bs * 256 + unat b) = b"
    by (simp only: word_unat_eq_iff unat_of_nat) simp
  ultimately show ?case by (simp add: snoc.IH)
qed simp

lemma be_bytes_of_be_length: "length bs = n \<Longrightarrow> be_bytes n (of_be bs) = bs"
  using be_bytes_of_be [of bs] by simp

lemma be_bytes_inj: "v < 256 ^ n \<Longrightarrow> w < 256 ^ n \<Longrightarrow> be_bytes n v = be_bytes n w \<Longrightarrow> v = w"
  by (metis of_be_be_bytes_id)

text \<open>\<^verbatim>\<open>struct.pack\<close> of one unsigned field of \<open>n\<close> bytes in network order, and the inverse.\<close>

definition pack :: "nat \<Rightarrow> nat \<Rightarrow> bytes res" where
  "pack n v = (if v < 256 ^ n then Inr (be_bytes n v) else Inl StructError)"

definition unpack :: "nat \<Rightarrow> bytes \<Rightarrow> nat res" where
  "unpack n bs = (if length bs = n then Inr (of_be bs) else Inl StructError)"

lemma pack_Inr_iff: "pack n v = Inr bs \<longleftrightarrow> v < 256 ^ n \<and> bs = be_bytes n v"
  by (auto simp: pack_def)

lemma unpack_Inr_iff: "unpack n bs = Inr v \<longleftrightarrow> length bs = n \<and> v = of_be bs"
  by (auto simp: unpack_def)

lemma unpack_be_bytes [simp]: "v < 256 ^ n \<Longrightarrow> unpack n (be_bytes n v) = Inr v"
  by (simp add: unpack_def)

text \<open>\<open>xs[a:b]\<close> for non-negative bounds: Python clips, as \<open>take\<close> and \<open>drop\<close> do.\<close>

definition slice :: "'a list \<Rightarrow> nat \<Rightarrow> nat \<Rightarrow> 'a list" where
  "slice xs a b = take (b - a) (drop a xs)"

lemma slice_mid:
  "length pre = a \<Longrightarrow> a + length xs = b \<Longrightarrow> slice (pre @ xs @ suf) a b = xs"
  by (auto simp: slice_def)

lemma length_slice: "length (slice xs a b) = min (b - a) (length xs - a)"
  by (simp add: slice_def)

definition py_index :: "'a list \<Rightarrow> nat \<Rightarrow> 'a res" where
  "py_index xs i = (if i < length xs then Inr (xs ! i) else Inl IndexError)"

section \<open>Dictionaries\<close>

lemma map_of_delete: "map_of (AList.delete k d) = (map_of d)(k := None)"
  by (rule delete_conv')

lemma map_of_update: "map_of (AList.update k v d) = (map_of d)(k \<mapsto> v)"
  by (rule update_conv')

lemma map_of_filter_distinct:
  "distinct (map fst d) \<Longrightarrow>
     map_of (filter P d) k = (case map_of d k of Some v \<Rightarrow> if P (k, v) then Some v else None
                              | None \<Rightarrow> None)"
  by (induction d) (auto split: option.splits simp: dom_map_of_conv_image_fst image_iff
      dest: map_of_SomeD)

lemma distinct_filter_keys: "distinct (map fst d) \<Longrightarrow> distinct (map fst (filter P d))"
  by (simp add: distinct_map_filter)

section \<open>Decimal numbers\<close>

definition digit_char :: "nat \<Rightarrow> char" where
  "digit_char d = char_of (48 + d)"

fun str_nat :: "nat \<Rightarrow> string" where
  "str_nat n = (if n < 10 then [digit_char n] else str_nat (n div 10) @ [digit_char (n mod 10)])"

declare str_nat.simps [simp del]

definition str_int :: "int \<Rightarrow> string" where
  "str_int i = (if i < 0 then ''-'' @ str_nat (nat (- i)) else str_nat (nat i))"

definition is_digit :: "char \<Rightarrow> bool" where
  "is_digit c \<longleftrightarrow> 48 \<le> (of_char c :: nat) \<and> (of_char c :: nat) \<le> 57"

definition digits_value :: "string \<Rightarrow> nat" where
  "digits_value s = foldl (\<lambda>n c. n * 10 + (of_char c - 48)) 0 s"

lemma of_digit_char: "d < 10 \<Longrightarrow> (of_char (digit_char d) :: nat) = 48 + d"
  by (simp add: digit_char_def)

lemma is_digit_digit_char [simp]: "d < 10 \<Longrightarrow> is_digit (digit_char d)"
  by (simp add: is_digit_def of_digit_char)

lemma digits_value_snoc [simp]: "digits_value (s @ [c]) = digits_value s * 10 + (of_char c - 48)"
  by (simp add: digits_value_def)

lemma digits_value_Nil [simp]: "digits_value [] = 0"
  by (simp add: digits_value_def)

lemma digits_value_single: "digits_value [c] = of_char c - 48"
  by (simp add: digits_value_def)

lemma str_nat_nonempty [simp]: "str_nat n \<noteq> []"
  by (subst str_nat.simps) simp

lemma str_nat_digits: "\<forall>c \<in> set (str_nat n). is_digit c"
proof (induction n rule: str_nat.induct)
  case (1 n)
  then show ?case by (subst str_nat.simps) auto
qed

lemma digits_value_str_nat [simp]: "digits_value (str_nat n) = n"
proof (induction n rule: str_nat.induct)
  case (1 n)
  then show ?case
    by (subst str_nat.simps) (auto simp: of_digit_char digits_value_single)
qed

lemma str_nat_inj: "str_nat m = str_nat n \<longleftrightarrow> m = n"
  by (metis digits_value_str_nat)

end
