(* ===== verification/Packet.thy ===== *)
theory Packet
  imports Py_Prelude
begin

text \<open>
  The wire protocol's vocabulary and packet codec: \<^verbatim>\<open>src/protocol/messages.py\<close> (opcodes, control
  message types, constants) and \<^verbatim>\<open>src/protocol/packet.py\<close> (the 9-byte header
  \<^verbatim>\<open>!B Q\<close>, encoding, decoding, ACK and handshake messages).
\<close>

section \<open>Messages\<close>

datatype Opcode = HARD_RESET_CLIENT | HARD_RESET_SERVER | CONTROL | ACK | DATA

fun opcode_val :: "Opcode \<Rightarrow> nat" where
  "opcode_val HARD_RESET_CLIENT = 1"
| "opcode_val HARD_RESET_SERVER = 2"
| "opcode_val CONTROL = 3"
| "opcode_val ACK = 4"
| "opcode_val DATA = 5"

definition opcode_of :: "nat \<Rightarrow> Opcode res" where
  "opcode_of v =
     (if v = 1 then Inr HARD_RESET_CLIENT
      else if v = 2 then Inr HARD_RESET_SERVER
      else if v = 3 then Inr CONTROL
      else if v = 4 then Inr ACK
      else if v = 5 then Inr DATA
      else Inl ValueError)"

datatype MessageType =
  CLIENT_HELLO | SERVER_HELLO | CLIENT_FINISHED | KEEPALIVE | SHUTDOWN | IP_ASSIGN

fun msg_val :: "MessageType \<Rightarrow> nat" where
  "msg_val CLIENT_HELLO = 1"
| "msg_val SERVER_HELLO = 2"
| "msg_val CLIENT_FINISHED = 3"
| "msg_val KEEPALIVE = 4"
| "msg_val SHUTDOWN = 5"
| "msg_val IP_ASSIGN = 6"

definition msg_of :: "nat \<Rightarrow> MessageType res" where
  "msg_of v =
     (if v = 1 then Inr CLIENT_HELLO
      else if v = 2 then Inr SERVER_HELLO
      else if v = 3 then Inr CLIENT_FINISHED
      else if v = 4 then Inr KEEPALIVE
      else if v = 5 then Inr SHUTDOWN
      else if v = 6 then Inr IP_ASSIGN
      else Inl ValueError)"

definition HANDSHAKE_TIMEOUT :: real where
  "HANDSHAKE_TIMEOUT = 30"

lemma opcode_val_bounds: "1 \<le> opcode_val op \<and> opcode_val op \<le> 5"
  by (cases op) simp_all

lemma opcode_val_less [simp]: "opcode_val op < 256"
  using opcode_val_bounds [of op] by linarith

lemma msg_val_less [simp]: "msg_val m < 256"
  by (cases m) simp_all

lemma opcode_of_val [simp]: "opcode_of (opcode_val op) = Inr op"
  by (cases op) (simp_all add: opcode_of_def)

lemma opcode_of_Inr_iff: "opcode_of v = Inr op \<longleftrightarrow> v = opcode_val op"
  by (cases op) (auto simp: opcode_of_def)

lemma opcode_of_Inl_iff: "opcode_of v = Inl e \<longleftrightarrow> e = ValueError \<and> (v = 0 \<or> 5 < v)"
  by (auto simp: opcode_of_def)

lemma msg_of_val [simp]: "msg_of (msg_val m) = Inr m"
  by (cases m) (simp_all add: msg_of_def)

lemma msg_of_Inr_iff: "msg_of v = Inr m \<longleftrightarrow> v = msg_val m"
  by (cases m) (auto simp: msg_of_def)

section \<open>The packet codec\<close>

definition HEADER_SIZE :: nat where
  "HEADER_SIZE = 9"

definition encode_packet :: "Opcode \<Rightarrow> nat \<Rightarrow> bytes \<Rightarrow> bytes res" where
  "encode_packet op session_id payload =
     res_bind (pack 1 (opcode_val op)) (\<lambda>h1.
     res_bind (pack 8 session_id) (\<lambda>h2.
     Inr (h1 @ h2 @ payload)))"

definition decode_packet :: "bytes \<Rightarrow> (Opcode \<times> nat \<times> bytes) res" where
  "decode_packet data =
     (if length data < HEADER_SIZE then Inl ValueError
      else
        let opcode_v = of_be (slice data 0 1);
            session_id = of_be (slice data 1 HEADER_SIZE)
        in res_bind (opcode_of opcode_v) (\<lambda>op. Inr (op, session_id, drop HEADER_SIZE data)))"

fun pack_all :: "nat \<Rightarrow> nat list \<Rightarrow> bytes res" where
  "pack_all n [] = Inr []"
| "pack_all n (v # vs) =
     res_bind (pack n v) (\<lambda>b. res_bind (pack_all n vs) (\<lambda>bs. Inr (b @ bs)))"

definition encode_ack :: "nat \<Rightarrow> nat list \<Rightarrow> bytes res" where
  "encode_ack session_id packet_ids =
     res_bind (pack 2 (length packet_ids)) (\<lambda>n.
     res_bind (pack_all 4 packet_ids) (\<lambda>ids.
     encode_packet ACK session_id (n @ ids)))"

definition encode_handshake_message :: "nat \<Rightarrow> nat \<Rightarrow> bytes \<Rightarrow> bytes res" where
  "encode_handshake_message msg_type session_id payload =
     res_bind (pack 1 msg_type) (\<lambda>t. encode_packet CONTROL session_id (t @ payload))"

lemmas packet_defs [pydefs] =
  encode_packet_def decode_packet_def encode_handshake_message_def HEADER_SIZE_def
  pack_def unpack_def slice_def opcode_of_def msg_of_def

section \<open>Codec lemmas\<close>

lemma encode_packet_eq:
  "encode_packet op sid p =
     (if sid < 256 ^ 8 then Inr (word_of_nat (opcode_val op) # be_bytes 8 sid @ p)
      else Inl StructError)"
  by (simp add: encode_packet_def pack_def)

lemma encode_packet_Inr_iff:
  "encode_packet op sid p = Inr w \<longleftrightarrow>
     sid < 256 ^ 8 \<and> w = word_of_nat (opcode_val op) # be_bytes 8 sid @ p"
  by (auto simp: encode_packet_eq)

lemma decode_packet_Cons:
  "length h = 8 \<Longrightarrow> decode_packet (b # h @ p) =
     res_bind (opcode_of (unat b)) (\<lambda>op. Inr (op, of_be h, p))"
  by (simp add: decode_packet_def HEADER_SIZE_def slice_def Let_def)

lemma split_header:
  assumes "9 \<le> length w"
  obtains b h p where "w = b # h @ p" and "length h = 8"
proof
  show "w = hd w # take 8 (tl w) @ drop 8 (tl w)"
    using assms by (cases w) auto
  show "length (take 8 (tl w)) = 8" using assms by simp
qed

lemma decode_encode:
  assumes "encode_packet op sid p = Inr w"
  shows "decode_packet w = Inr (op, sid, p)"
  using assms
  by (simp add: encode_packet_Inr_iff decode_packet_Cons unat_of_nat)

lemma encode_decode:
  assumes "decode_packet w = Inr (op, sid, p)"
  shows "encode_packet op sid p = Inr w"
proof -
  from assms have "9 \<le> length w"
    by (simp add: decode_packet_def HEADER_SIZE_def split: if_splits)
  then obtain b h q where w: "w = b # h @ q" and h: "length h = 8"
    by (rule split_header)
  from assms w h have op: "unat b = opcode_val op" and "sid = of_be h" and "p = q"
    by (auto simp: decode_packet_Cons res_bind_Inr_iff opcode_of_Inr_iff)
  moreover have "of_be h < 256 ^ 8" using of_be_bound [of h] h by simp
  moreover have "be_bytes 8 (of_be h) = h" using h by (rule be_bytes_of_be_length)
  moreover have "word_of_nat (opcode_val op) = b" using op by (metis word_of_nat_unat_byte)
  ultimately show ?thesis using w by (simp add: encode_packet_Inr_iff)
qed

lemma encode_handshake_message_eq:
  "encode_handshake_message (msg_val m) sid p =
     encode_packet CONTROL sid (word_of_nat (msg_val m) # p)"
  by (simp add: encode_handshake_message_def pack_def)

lemma decode_packet_errors:
  "decode_packet w = Inl e \<longleftrightarrow>
     e = ValueError \<and> (length w < 9 \<or> unat (hd w) = 0 \<or> 5 < unat (hd w))"
proof (cases "9 \<le> length w")
  case True
  then obtain b h q where w: "w = b # h @ q" and "length h = 8"
    by (rule split_header)
  then have "decode_packet w = Inl e \<longleftrightarrow> opcode_of (unat b) = Inl e"
    by (cases "opcode_of (unat b)") (simp_all add: decode_packet_Cons)
  with True w show ?thesis by (auto simp: opcode_of_Inl_iff)
next
  case False
  then show ?thesis by (auto simp: decode_packet_def HEADER_SIZE_def)
qed

lemma pack_all_Inr_iff:
  "pack_all n vs = Inr bs \<longleftrightarrow> (\<forall>v \<in> set vs. v < 256 ^ n) \<and> bs = concat (map (be_bytes n) vs)"
  by (induction vs arbitrary: bs) (auto simp: res_bind_Inr_iff pack_Inr_iff)

end
