(* ===== verification/Framing.thy ===== *)
theory Framing
  imports Py_Prelude
begin

text \<open>
  Length-prefixed framing of a byte stream. First the interface both stream transports of
  the program share, as a locale over a stream type: a frame written by one end is what the
  next read of the other end returns. Then \<^verbatim>\<open>src/protocol/framing.py\<close>, the 2-byte framing
  of the TCP transport, and its interpretation.
\<close>

section \<open>Draining a stream\<close>

text \<open>
  The read loops of the program (\<^verbatim>\<open>while True: data = read(); if data is None: break; ...\<close>)
  as the list of what they read, with fuel for the loop.
\<close>

fun drain :: "('s \<Rightarrow> bytes option \<times> 's) \<Rightarrow> nat \<Rightarrow> 's \<Rightarrow> bytes list option" where
  "drain rd 0 s = None"
| "drain rd (Suc fuel) s =
     (case rd s of
        (None, _) \<Rightarrow> Some []
      | (Some d, t) \<Rightarrow> map_option ((#) d) (drain rd fuel t))"

fun frame_all :: "(bytes \<Rightarrow> bytes res) \<Rightarrow> bytes list \<Rightarrow> bytes res" where
  "frame_all fr [] = Inr []"
| "frame_all fr (d # ds) =
     res_bind (fr d) (\<lambda>w. res_bind (frame_all fr ds) (\<lambda>ws. Inr (w @ ws)))"

locale framed_stream =
  fixes frame :: "bytes \<Rightarrow> bytes res"
    and read :: "'s \<Rightarrow> bytes option \<times> 's"
    and content :: "'s \<Rightarrow> bytes"
    and live :: "'s \<Rightarrow> bool"
  assumes read_framed: "frame d = Inr w \<Longrightarrow> live s \<Longrightarrow> content s = w @ rest \<Longrightarrow>
      \<exists>t. read s = (Some d, t) \<and> content t = rest \<and> live t"
    and read_empty: "live s \<Longrightarrow> content s = [] \<Longrightarrow> fst (read s) = None"
    and read_sound: "live s \<Longrightarrow> read s = (Some d, t) \<Longrightarrow>
      \<exists>w. frame d = Inr w \<and> content s = w @ content t \<and> live t"
    and frame_nonempty: "frame d = Inr w \<Longrightarrow> w \<noteq> []"
begin

lemma read_shrinks:
  assumes "live s" and "read s = (Some d, t)"
  shows "length (content t) < length (content s)"
proof -
  from read_sound [OF assms] obtain w
    where w: "frame d = Inr w" and c: "content s = w @ content t"
    by blast
  from w have "w \<noteq> []" by (rule frame_nonempty)
  with c show ?thesis by simp
qed

lemma drain_enough:
  "live s \<Longrightarrow> length (content s) < fuel \<Longrightarrow> \<exists>ds. drain read fuel s = Some ds"
proof (induction fuel arbitrary: s)
  case (Suc fuel)
  show ?case
  proof (cases "fst (read s)")
    case None
    then show ?thesis by (cases "read s") simp
  next
    case (Some d)
    then obtain t where t: "read s = (Some d, t)" by (cases "read s") simp
    with Suc.prems read_shrinks [of s d t] have "length (content t) < fuel" by simp
    moreover have "live t" using read_sound [OF Suc.prems(1) t] by blast
    ultimately obtain ds where "drain read fuel t = Some ds" using Suc.IH by blast
    with t show ?thesis by simp
  qed
qed simp

lemma drain_frames:
  assumes stop: "\<And>t. live t \<Longrightarrow> content t = rest \<Longrightarrow> fst (read t) = None"
  shows "frame_all frame ds = Inr w \<Longrightarrow> live s \<Longrightarrow> content s = w @ rest \<Longrightarrow> length ds < fuel \<Longrightarrow>
     drain read fuel s = Some ds"
proof (induction ds arbitrary: s w fuel)
  case Nil
  then obtain f where f: "fuel = Suc f" by (cases fuel) auto
  from Nil have "fst (read s) = None" by (intro stop) auto
  with f show ?case by (cases "read s") simp
next
  case (Cons d ds)
  then obtain f where f: "fuel = Suc f" by (cases fuel) auto
  from Cons.prems(1) obtain v ws
    where v: "frame d = Inr v" and ws: "frame_all frame ds = Inr ws" and w: "w = v @ ws"
    by (auto simp: res_bind_Inr_iff)
  from read_framed [OF v Cons.prems(2), of "ws @ rest"] Cons.prems(3) w obtain t
    where "read s = (Some d, t)" and "content t = ws @ rest" and "live t" by auto
  with f ws Cons.IH [of ws t f] Cons.prems(4) show ?case by simp
qed

lemma drain_sound:
  "live s \<Longrightarrow> drain read fuel s = Some ds \<Longrightarrow>
     \<exists>w t. frame_all frame ds = Inr w \<and> content s = w @ content t \<and> live t \<and> fst (read t) = None"
proof (induction fuel arbitrary: s ds)
  case (Suc fuel)
  show ?case
  proof (cases "fst (read s)")
    case None
    with Suc.prems show ?thesis by (cases "read s") auto
  next
    case (Some d)
    then obtain t where t: "read s = (Some d, t)" by (cases "read s") simp
    with Suc.prems obtain es where es: "drain read fuel t = Some es" and ds: "ds = d # es"
      by auto
    from read_sound [OF Suc.prems(1) t] obtain w
      where w: "frame d = Inr w" "content s = w @ content t" and lt: "live t" by blast
    from Suc.IH [OF lt es] obtain v u where "frame_all frame es = Inr v" and "content t = v @ content u"
      and "live u" and "fst (read u) = None" by blast
    with w show ?thesis unfolding ds by (intro exI [of _ "w @ v"] exI [of _ u]) simp
  qed
qed simp

end

section \<open>TCP framing\<close>

text \<open>
  An \<^verbatim>\<open>asyncio.StreamReader\<close> is modelled by the bytes it will deliver before end of file.
  \<open>readexactly\<close> raises \<^verbatim>\<open>IncompleteReadError\<close> (here \<open>None\<close>) when fewer are left,
  which also clears the buffer.
\<close>

definition FRAME_SIZE :: nat where
  "FRAME_SIZE = 2"

definition frame_packet :: "bytes \<Rightarrow> bytes res" where
  "frame_packet data = res_bind (pack FRAME_SIZE (length data)) (\<lambda>h. Inr (h @ data))"

definition readexactly :: "nat \<Rightarrow> bytes \<Rightarrow> bytes option \<times> bytes" where
  "readexactly n s = (if length s < n then (None, []) else (Some (take n s), drop n s))"

definition read_frame :: "bytes \<Rightarrow> bytes option \<times> bytes" where
  "read_frame s =
     (case readexactly FRAME_SIZE s of
        (None, t) \<Rightarrow> (None, t)
      | (Some raw, t) \<Rightarrow> readexactly (of_be raw) t)"

lemma frame_packet_Inr_iff:
  "frame_packet d = Inr w \<longleftrightarrow> length d < 65536 \<and> w = be_bytes 2 (length d) @ d"
  by (auto simp: frame_packet_def res_bind_Inr_iff pack_Inr_iff FRAME_SIZE_def
     )

lemma read_frame_framed:
  "length d < 65536 \<Longrightarrow> read_frame (be_bytes 2 (length d) @ d @ rest) = (Some d, rest)"
  by (simp add: read_frame_def readexactly_def FRAME_SIZE_def of_be_be_bytes
     )

lemma read_frame_sound:
  assumes "read_frame s = (Some d, t)"
  shows "length d < 65536 \<and> s = be_bytes 2 (length d) @ d @ t"
proof -
  let ?h = "take 2 s"
  from assms have len: "2 \<le> length s"
    by (auto simp: read_frame_def readexactly_def FRAME_SIZE_def split: if_splits)
  with assms have d: "d = take (of_be ?h) (drop 2 s)" and t: "t = drop (of_be ?h) (drop 2 s)"
    and n: "of_be ?h \<le> length s - 2"
    by (auto simp: read_frame_def readexactly_def FRAME_SIZE_def split: if_splits)
  have "of_be ?h < 65536" using of_be_bound [of ?h] len by (simp add: min_def split: if_splits)
  moreover have "length d = of_be ?h" using d n by simp
  moreover have "be_bytes 2 (of_be ?h) = ?h" using len by (intro be_bytes_of_be_length) simp
  moreover have "d @ t = drop 2 s" unfolding d t by (rule append_take_drop_id)
  ultimately show ?thesis by simp
qed

interpretation tcp: framed_stream frame_packet read_frame "\<lambda>s. s" "\<lambda>_. True"
proof unfold_locales
  fix d w s rest
  assume "frame_packet d = Inr w" and "s = w @ rest"
  then show "\<exists>t. read_frame s = (Some d, t) \<and> t = rest \<and> True"
    by (simp add: frame_packet_Inr_iff read_frame_framed)
next
  fix s :: bytes assume "s = []"
  then show "fst (read_frame s) = None"
    by (simp add: read_frame_def readexactly_def FRAME_SIZE_def)
next
  fix s d t assume "read_frame s = (Some d, t)"
  then show "\<exists>w. frame_packet d = Inr w \<and> s = w @ t \<and> True"
    using read_frame_sound by (simp add: frame_packet_Inr_iff)
next
  fix d w assume "frame_packet d = Inr w"
  then show "w \<noteq> []" by (auto simp: frame_packet_Inr_iff)
qed

lemma read_frame_none: "fst (read_frame s) = None \<Longrightarrow> length s < 2 \<or> length s < 2 + of_be (take 2 s)"
  by (auto simp: read_frame_def readexactly_def FRAME_SIZE_def split: if_splits)

lemma read_frame_partial:
  assumes "length s < 2 \<or> length s < 2 + of_be (take 2 s)"
  shows "fst (read_frame s) = None"
  using assms by (auto simp: read_frame_def readexactly_def FRAME_SIZE_def)

end
