(* ===== verification/Tls_Channel.thy ===== *)
theory Tls_Channel
  imports Framing
begin

text \<open>
  The experimental TLS control channel, \<^verbatim>\<open>src/protocol/tls_channel.py\<close>: 4-byte framing over
  a socket whose \<open>recv\<close> may return any non-empty part of what is available, the exact-read
  loop, and the data-key exchange. The TLS handshake itself (\<^verbatim>\<open>ssl\<close>) is not modelled: the
  socket delivers what the peer sent.
\<close>

section \<open>The socket\<close>

text \<open>
  What \<^verbatim>\<open>sock.recv\<close> will see: chunks as they arrive, or an \<^verbatim>\<open>OSError\<close>; the empty list is
  an orderly close. \<open>recv n\<close> returns at most \<open>n\<close> bytes of the first chunk and leaves the rest.
\<close>

datatype sock_event = Chunk bytes | Fail

type_synonym sock = "sock_event list"

definition sock_recv :: "nat \<Rightarrow> sock \<Rightarrow> bytes res \<times> sock" where
  "sock_recv n s =
     (case s of
        [] \<Rightarrow> (Inr [], [])
      | Fail # t \<Rightarrow> (Inl OSError, t)
      | Chunk c # t \<Rightarrow>
          (Inr (take n c), if length c \<le> n then t else Chunk (drop n c) # t))"

fun sock_content :: "sock \<Rightarrow> bytes" where
  "sock_content [] = []"
| "sock_content (Chunk c # t) = c @ sock_content t"
| "sock_content (Fail # t) = []"

fun sock_live :: "sock \<Rightarrow> bool" where
  "sock_live [] = True"
| "sock_live (Chunk c # t) = (c \<noteq> [] \<and> sock_live t)"
| "sock_live (Fail # t) = False"

section \<open>Reading and writing frames\<close>

function recv_loop :: "nat \<Rightarrow> bytes \<Rightarrow> sock \<Rightarrow> bytes res \<times> sock" where
  "recv_loop n buf s =
     (if length buf < n then
        (case sock_recv (n - length buf) s of
           (Inl e, t) \<Rightarrow> (Inl TLSChannelError, t)
         | (Inr chunk, t) \<Rightarrow>
             if chunk = [] then (Inl TLSChannelError, t) else recv_loop n (buf @ chunk) t)
      else (Inr buf, s))"
  by pat_completeness auto
termination
  by (relation "measure (\<lambda>(n, buf, s). n - length buf)") (auto intro: diff_less_mono2)

declare recv_loop.simps [simp del]

definition recv_exact :: "nat \<Rightarrow> sock \<Rightarrow> bytes res \<times> sock" where
  "recv_exact n s = recv_loop n [] s"

definition tls_frame :: "bytes \<Rightarrow> bytes res" where
  "tls_frame data = res_bind (pack 4 (length data)) (\<lambda>h. Inr (h @ data))"

definition tls_recv :: "sock \<Rightarrow> bytes res \<times> sock" where
  "tls_recv s =
     (case recv_exact 4 s of
        (Inl e, t) \<Rightarrow> (Inl e, t)
      | (Inr header, t) \<Rightarrow> recv_exact (of_be header) t)"

text \<open>One end of the channel: what it has still to read, and what it has written.\<close>

record tls_end =
  t_in :: sock
  t_out :: bytes

definition tls_send :: "bytes \<Rightarrow> (tls_end, unit) meth" where
  "tls_send data ch =
     (case tls_frame data of
        Inl e \<Rightarrow> (Inl e, ch)
      | Inr w \<Rightarrow> (Inr (), ch\<lparr>t_out := t_out ch @ w\<rparr>))"

definition tls_receive :: "(tls_end, bytes) meth" where
  "tls_receive ch = (case tls_recv (t_in ch) of (r, t) \<Rightarrow> (r, ch\<lparr>t_in := t\<rparr>))"

definition exchange_data_key :: "bytes \<Rightarrow> bool \<Rightarrow> (tls_end, bytes) meth" where
  "exchange_data_key fresh_key initiator =
     (if initiator
      then m_seq (tls_send fresh_key) (m_return fresh_key)
      else m_bind tls_receive (\<lambda>key. m_seq (tls_send key) (m_return key)))"

section \<open>The exact-read loop does not see the chunking\<close>

lemma recv_loop_done: "n \<le> length buf \<Longrightarrow> recv_loop n buf s = (Inr buf, s)"
  by (subst recv_loop.simps) simp

lemma recv_loop_Chunk:
  "length buf < n \<Longrightarrow> c \<noteq> [] \<Longrightarrow> recv_loop n buf (Chunk c # t) =
     recv_loop n (buf @ take (n - length buf) c)
       (if length c \<le> n - length buf then t else Chunk (drop (n - length buf) c) # t)"
  by (subst recv_loop.simps) (simp add: sock_recv_def)

lemma recv_loop_ok:
  "sock_live s \<Longrightarrow> length buf \<le> n \<Longrightarrow> n - length buf \<le> length (sock_content s) \<Longrightarrow>
     \<exists>t. recv_loop n buf s = (Inr (buf @ take (n - length buf) (sock_content s)), t) \<and>
         sock_live t \<and> sock_content t = drop (n - length buf) (sock_content s)"
proof (induction s arbitrary: buf rule: sock_live.induct)
  case 1
  then show ?case by (auto simp: recv_loop_done)
next
  case (2 c t)
  show ?case
  proof (cases "length buf < n")
    case False
    with 2 show ?thesis by (auto simp: recv_loop_done)
  next
    case True
    let ?k = "n - length buf"
    show ?thesis
    proof (cases "length c \<le> ?k")
      case fits: True
      with 2 True have "recv_loop n buf (Chunk c # t) = recv_loop n (buf @ c) t"
        by (simp add: recv_loop_Chunk)
      with 2 fits show ?thesis using "2.IH" [of "buf @ c"] by (simp add: diff_diff_eq)
    next
      case False
      with 2 True have "recv_loop n buf (Chunk c # t) =
          recv_loop n (buf @ take ?k c) (Chunk (drop ?k c) # t)"
        by (simp add: recv_loop_Chunk)
      with 2 False True show ?thesis by (simp add: recv_loop_done)
    qed
  qed
next
  case (3 t)
  then show ?case by simp
qed

lemma recv_loop_short:
  "length (sock_content s) < n - length buf \<Longrightarrow> \<exists>t. recv_loop n buf s = (Inl TLSChannelError, t)"
proof (induction s arbitrary: buf rule: sock_live.induct)
  case 1
  then show ?case by (subst recv_loop.simps) (simp add: sock_recv_def)
next
  case (2 c t)
  then show ?case
  proof (cases "c = []")
    case True
    with 2 show ?thesis by (subst recv_loop.simps) (simp add: sock_recv_def)
  next
    case False
    with 2 have "recv_loop n buf (Chunk c # t) = recv_loop n (buf @ c) t"
      by (simp add: recv_loop_Chunk)
    with 2 show ?thesis using "2.IH" [of "buf @ c"] by (simp add: diff_diff_eq)
  qed
next
  case (3 t)
  then show ?case by (subst recv_loop.simps) (simp add: sock_recv_def)
qed

lemma recv_exact_ok:
  "sock_live s \<Longrightarrow> n \<le> length (sock_content s) \<Longrightarrow>
     \<exists>t. recv_exact n s = (Inr (take n (sock_content s)), t) \<and> sock_live t \<and>
         sock_content t = drop n (sock_content s)"
  using recv_loop_ok [of s "[]" n] by (simp add: recv_exact_def)

lemma recv_exact_short:
  "length (sock_content s) < n \<Longrightarrow> \<exists>t. recv_exact n s = (Inl TLSChannelError, t)"
  using recv_loop_short [of s n "[]"] by (simp add: recv_exact_def)

lemma recv_exact_Inr:
  assumes "sock_live s" and "recv_exact n s = (Inr d, t)"
  shows "n \<le> length (sock_content s) \<and> d = take n (sock_content s) \<and> sock_live t \<and>
         sock_content t = drop n (sock_content s)"
proof -
  have "n \<le> length (sock_content s)"
    using recv_exact_short [of s n] assms(2) by (metis Pair_inject linorder_not_less old.sum.distinct(1))
  with recv_exact_ok [OF assms(1) this] assms(2) show ?thesis by auto
qed

lemma tls_frame_Inr_iff:
  "tls_frame d = Inr w \<longleftrightarrow> length d < 256 ^ 4 \<and> w = be_bytes 4 (length d) @ d"
  by (auto simp: tls_frame_def res_bind_Inr_iff pack_Inr_iff)

lemma tls_recv_framed:
  assumes "length d < 256 ^ 4" and "sock_live s"
    and "sock_content s = be_bytes 4 (length d) @ d @ rest"
  shows "\<exists>t. tls_recv s = (Inr d, t) \<and> sock_content t = rest \<and> sock_live t"
proof -
  from assms recv_exact_ok [of s 4] obtain t
    where t: "recv_exact 4 s = (Inr (be_bytes 4 (length d)), t)"
      and lt: "sock_live t" and ct: "sock_content t = d @ rest"
    by (auto)
  from ct recv_exact_ok [OF lt, of "length d"] obtain u
    where "recv_exact (length d) t = (Inr d, u)" and "sock_live u" and "sock_content u = rest"
    by auto
  with t assms(1) show ?thesis by (simp add: tls_recv_def)
qed

lemma tls_recv_sound:
  assumes "sock_live s" and "tls_recv s = (Inr d, t)"
  shows "length d < 256 ^ 4 \<and> sock_content s = be_bytes 4 (length d) @ d @ sock_content t \<and>
         sock_live t"
proof -
  from assms(2) obtain h u where h: "recv_exact 4 s = (Inr h, u)"
    and d: "recv_exact (of_be h) u = (Inr d, t)"
    by (auto simp: tls_recv_def split: prod.splits sum.splits)
  from recv_exact_Inr [OF assms(1) h] have lh: "length h = 4"
    and s: "sock_content s = h @ sock_content u" and lu: "sock_live u"
    by auto
  from recv_exact_Inr [OF lu d] have ld: "length d = of_be h"
    and u: "sock_content u = d @ sock_content t" and lt: "sock_live t"
    by auto
  have "be_bytes 4 (of_be h) = h" using lh by (rule be_bytes_of_be_length)
  moreover have "of_be h < 256 ^ 4" using of_be_bound [of h] lh by simp
  ultimately show ?thesis using s u ld lt by simp
qed

definition tls_read :: "sock \<Rightarrow> bytes option \<times> sock" where
  "tls_read s = (case tls_recv s of (Inl e, t) \<Rightarrow> (None, t) | (Inr d, t) \<Rightarrow> (Some d, t))"

interpretation tls: framed_stream tls_frame tls_read sock_content sock_live
proof unfold_locales
  fix d w s rest
  assume "tls_frame d = Inr w" and "sock_live s" and "sock_content s = w @ rest"
  then show "\<exists>t. tls_read s = (Some d, t) \<and> sock_content t = rest \<and> sock_live t"
    using tls_recv_framed [of d s rest] by (auto simp: tls_frame_Inr_iff tls_read_def)
next
  fix s assume "sock_live s" and "sock_content s = []"
  then show "fst (tls_read s) = None"
    using recv_exact_short [of s 4] by (auto simp: tls_read_def tls_recv_def)
next
  fix s d t assume "sock_live s" and "tls_read s = (Some d, t)"
  then have "tls_recv s = (Inr d, t)"
    by (auto simp: tls_read_def split: prod.splits sum.splits)
  with \<open>sock_live s\<close> show "\<exists>w. tls_frame d = Inr w \<and> sock_content s = w @ sock_content t \<and> sock_live t"
    using tls_recv_sound by (auto simp: tls_frame_Inr_iff)
next
  fix d w assume "tls_frame d = Inr w"
  then show "w \<noteq> []" by (auto simp: tls_frame_Inr_iff)
qed

end
