(* ===== verification/Wire_Props.thy ===== *)
theory Wire_Props
  imports Packet Tls_Channel
begin

text \<open>
  The properties of the wire formats: the packet codec, and the two framed streams (the TCP
  transport and the TLS control channel), whose lemmas come from the shared interface
  \<open>framed_stream\<close>.
\<close>

section \<open>Packets\<close>

text \<open>
  Claim C31. The packet codec is a bijection between packets and wire bytes:
  \<^verbatim>\<open>decode_packet\<close> returns an opcode, session id and payload exactly for the bytes that
  \<^verbatim>\<open>encode_packet\<close> makes of them.
\<close>

theorem packet_codec:
  "decode_packet w = Inr (op, sid, p) \<longleftrightarrow> encode_packet op sid p = Inr w"
  using decode_encode encode_decode by blast

text \<open>
  Decoding raises nothing but \<^verbatim>\<open>ValueError\<close>, exactly for packets shorter than the
  9-byte header and for first bytes that are no opcode; this is what the
  \<^verbatim>\<open>except (ValueError, IndexError)\<close> clauses of both dispatchers rely on.
\<close>

theorem decode_errors:
  "decode_packet w = Inl e \<longleftrightarrow>
     e = ValueError \<and> (length w < 9 \<or> unat (hd w) \<notin> {1..5})"
  by (auto simp: decode_packet_errors)

section \<open>Streams\<close>

text \<open>
  TCP framing is transparent: packets written one after the other are read back
  one by one, in order and unchanged, and the loop then stops, also when the stream ends in
  the middle of a further frame (\<open>part\<close>). One more read than there are packets is enough fuel.
\<close>

theorem tcp_stream_roundtrip:
  assumes "frame_all frame_packet ds = Inr w"
    and "length part < 2 \<or> length part < 2 + of_be (take 2 part)" and "length ds < fuel"
  shows "drain read_frame fuel (w @ part) = Some ds"
  using assms by (intro tcp.drain_frames [where rest = part]) (auto intro: read_frame_partial)

theorem tcp_stream_roundtrip_witness:
  "frame_all frame_packet [[1, 2], [], [3]] = Inr [0, 2, 1, 2, 0, 0, 0, 1, 3] \<and>
   drain read_frame 4 ([0, 2, 1, 2, 0, 0, 0, 1, 3] @ [0, 5, 9]) = Some [[1, 2], [], [3]]"
proof -
  have f: "frame_all frame_packet [[1, 2], [], [3]] = Inr [0, 2, 1, 2, 0, 0, 0, 1, 3]"
    by (simp add: frame_packet_def pack_def FRAME_SIZE_def pydefs)
  have "length [0, 5, 9] < 2 + of_be (take 2 [0, 5, 9])" by (simp add: of_be_def)
  with tcp_stream_roundtrip [OF f, of "[0, 5, 9]" 4] f show ?thesis by simp
qed

text \<open>
  Claim C33. The TCP read loop ends: on every finite stream it stops after at most one turn more
  than the stream has bytes; what it has delivered are the payloads of the frames the stream
  starts with, and what is left is too short to hold another frame.
\<close>

theorem tcp_reader_ends:
  "\<exists>ds w rest. drain read_frame (Suc (length s)) s = Some ds \<and>
     frame_all frame_packet ds = Inr w \<and> s = w @ rest \<and>
     (length rest < 2 \<or> length rest < 2 + of_be (take 2 rest))"
proof -
  from tcp.drain_enough [of s "Suc (length s)"] obtain ds where d: "drain read_frame (Suc (length s)) s = Some ds"
    by auto
  with tcp.drain_sound [OF _ d] read_frame_none show ?thesis by blast
qed

text \<open>
  Claim C32. The TLS control channel does not see how its bytes are split: messages framed
  by \<^verbatim>\<open>send\<close> are received one by one, in order and unchanged, for every way the socket may
  cut the stream into non-empty chunks.
\<close>

theorem tls_stream_roundtrip:
  assumes "frame_all tls_frame ds = Inr w" and "sock_live s" and "sock_content s = w"
    and "length ds < fuel"
  shows "drain tls_read fuel s = Some ds"
  using assms by (intro tls.drain_frames [where rest = "[]"]) (auto intro: tls.read_empty)

theorem tls_stream_roundtrip_witness:
  "drain tls_read 3 [Chunk [0, 0], Chunk [0, 2, 7], Chunk [8, 0, 0, 0], Chunk [0]] =
     Some [[7, 8], []]"
  by (rule tls_stream_roundtrip [where w = "[0, 0, 0, 2, 7, 8, 0, 0, 0, 0]"])
    (simp_all add: tls_frame_def pack_def pydefs)

text \<open>
  \<^verbatim>\<open>exchange_data_key\<close> agrees: the initiator writes its fresh key; a responder
  whose socket delivers these bytes in any chunks, before anything else, returns the same key
  and writes it back unchanged, so that the initiator reads its own key as the confirmation.
\<close>

theorem data_key_agreement:
  assumes "exchange_data_key key True a = (Inr k, a')" and "t_out a = []"
    and "sock_live (t_in b)" and "sock_content (t_in b) = t_out a' @ rest"
  shows "\<exists>b'. exchange_data_key other False b = (Inr k, b') \<and> k = key \<and>
    t_out b' = t_out b @ t_out a' \<and> sock_content (t_in b') = rest \<and> sock_live (t_in b')"
proof -
  from assms(1,2) have k: "k = key" and w: "tls_frame key = Inr (t_out a')"
    by (auto simp: exchange_data_key_def meth_defs tls_send_def split: sum.splits)
  then have len: "length key < 256 ^ 4" and out: "t_out a' = be_bytes 4 (length key) @ key"
    by (simp_all add: tls_frame_Inr_iff)
  from tls_recv_framed [OF len assms(3)] assms(4) out obtain t
    where "tls_recv (t_in b) = (Inr key, t)" and "sock_content t = rest" and "sock_live t"
    by auto
  with w k show ?thesis
    by (simp add: exchange_data_key_def meth_defs tls_receive_def tls_send_def)
qed

theorem data_key_agreement_witness:
  "\<exists>b'. exchange_data_key [9] False \<lparr>t_in = [Chunk [0, 0, 0], Chunk [1, 5]], t_out = []\<rparr> =
     (Inr [5], b') \<and> [5] = [5 :: byte] \<and>
     t_out b' = [] @ [0, 0, 0, 1, 5] \<and> sock_content (t_in b') = [] \<and> sock_live (t_in b')"
proof -
  have "exchange_data_key [5] True \<lparr>t_in = [], t_out = []\<rparr> =
      (Inr [5], \<lparr>t_in = [], t_out = [0, 0, 0, 1, 5]\<rparr>)"
    by (simp add: exchange_data_key_def meth_defs tls_send_def tls_frame_def pack_def pydefs)
  from data_key_agreement [OF this, of "\<lparr>t_in = [Chunk [0, 0, 0], Chunk [1, 5]], t_out = []\<rparr>"
      "[]" "[9]"]
  show ?thesis by simp
qed

end
