(* ===== verification/Crypto.thy ===== *)
theory Crypto
  imports Py_Prelude
begin

text \<open>
  The cryptographic wrappers of \<^verbatim>\<open>src/crypto/\<close>: \<^verbatim>\<open>cipher.py\<close>, \<^verbatim>\<open>key_exchange.py\<close> and
  \<^verbatim>\<open>certificates.py\<close>. The third-party packages they call (\<^verbatim>\<open>cryptography\<close>, \<^verbatim>\<open>lz4\<close>) are the
  fields of two parameter records; what the program relies on is stated as the named
  hypotheses \<open>aead_ok\<close>, \<open>lz4_ok\<close> and \<open>dh_ok\<close>. Random draws (\<^verbatim>\<open>os.urandom\<close>, key
  generation) are arguments.
\<close>

section \<open>Symmetric primitives and the cipher\<close>

text \<open>
  \<open>aes_encrypt key nonce plaintext aad\<close> is \<^verbatim>\<open>AESGCM(key).encrypt\<close>; \<open>aes_decrypt\<close> returns
  \<open>None\<close> where the package raises \<^verbatim>\<open>InvalidTag\<close>, \<open>lz4_decompress\<close> where it raises.
\<close>

record prims =
  aes_encrypt :: "bytes \<Rightarrow> bytes \<Rightarrow> bytes \<Rightarrow> bytes \<Rightarrow> bytes"
  aes_decrypt :: "bytes \<Rightarrow> bytes \<Rightarrow> bytes \<Rightarrow> bytes \<Rightarrow> bytes option"
  has_lz4 :: bool
  lz4_compress :: "bytes \<Rightarrow> bytes"
  lz4_decompress :: "bytes \<Rightarrow> bytes option"

definition aead_ok :: "prims \<Rightarrow> bool" where
  "aead_ok E \<longleftrightarrow>
     (\<forall>k n p a. length k = 32 \<longrightarrow> length n = 12 \<longrightarrow>
        aes_decrypt E k n (aes_encrypt E k n p a) a = Some p \<and>
        length (aes_encrypt E k n p a) = length p + 16)"

definition lz4_ok :: "prims \<Rightarrow> bool" where
  "lz4_ok E \<longleftrightarrow> (\<forall>p. lz4_decompress E (lz4_compress E p) = Some p)"

datatype cipher = Cipher (cipher_key: bytes)

definition new_cipher :: "bytes \<Rightarrow> cipher res" where
  "new_cipher key = (if length key \<noteq> 32 then Inl ValueError else Inr (Cipher key))"

definition aad_bytes :: "bytes option \<Rightarrow> bytes" where
  "aad_bytes aad = (case aad of None \<Rightarrow> [] | Some a \<Rightarrow> a)"

definition cipher_encrypt :: "prims \<Rightarrow> bytes \<Rightarrow> cipher \<Rightarrow> bytes \<Rightarrow> bytes option \<Rightarrow> bytes" where
  "cipher_encrypt E nonce c plaintext aad =
     nonce @ aes_encrypt E (cipher_key c) nonce plaintext (aad_bytes aad)"

definition cipher_decrypt :: "prims \<Rightarrow> cipher \<Rightarrow> bytes \<Rightarrow> bytes option \<Rightarrow> bytes res" where
  "cipher_decrypt E c data aad =
     (if length data < 12 then Inl ValueError
      else
        let nonce = take 12 data; ciphertext = drop 12 data
        in of_opt InvalidTag (aes_decrypt E (cipher_key c) nonce ciphertext (aad_bytes aad)))"

text \<open>A cipher built by the constructor has a 32-byte key.\<close>

definition cipher_wf :: "cipher \<Rightarrow> bool" where
  "cipher_wf c \<longleftrightarrow> length (cipher_key c) = 32"

lemma new_cipher_Inr_iff: "new_cipher k = Inr c \<longleftrightarrow> length k = 32 \<and> c = Cipher k"
  by (auto simp: new_cipher_def)

lemma new_cipher_wf: "new_cipher k = Inr c \<Longrightarrow> cipher_wf c"
  by (auto simp: new_cipher_def cipher_wf_def split: if_splits)

lemma length_cipher_encrypt:
  "aead_ok E \<Longrightarrow> cipher_wf c \<Longrightarrow> length n = 12 \<Longrightarrow>
     length (cipher_encrypt E n c p a) = length p + 28"
  by (simp add: cipher_encrypt_def aead_ok_def cipher_wf_def)

lemma cipher_decrypt_encrypt:
  "aead_ok E \<Longrightarrow> cipher_wf c \<Longrightarrow> length n = 12 \<Longrightarrow>
     cipher_decrypt E c (cipher_encrypt E n c p a) a = Inr p"
  by (simp add: cipher_encrypt_def cipher_decrypt_def aead_ok_def cipher_wf_def)

section \<open>Certificates, signatures and key agreement\<close>

text \<open>
  The public-key side of \<^verbatim>\<open>cryptography\<close> and the files it reads, over abstract types of
  certificates \<open>'c\<close>, private keys \<open>'k\<close>, X25519 private keys \<open>'s\<close> and X25519 public keys
  \<open>'p\<close>. An operation that raises returns \<open>None\<close> (\<open>False\<close> for the verifications). The
  fields \<open>ec_sign\<close> and \<open>ec_verify\<close> are signing and verification under ECDSA, \<open>rsa_sign\<close> and
  \<open>rsa_verify\<close> under PKCS1v15; each takes the hash algorithm it is called with (a certificate
  may name none).
\<close>

datatype hash_alg = SHA256 | OtherHash string
datatype key_kind = EC | RSA | OtherKey

record ('c, 'k, 's, 'p) pki =
  file_bytes :: "string \<Rightarrow> bytes option"
  pem_cert :: "bytes \<Rightarrow> 'c option"
  pem_key :: "bytes \<Rightarrow> 'k option"
  priv_kind :: "'k \<Rightarrow> key_kind"
  ec_sign :: "'k \<Rightarrow> hash_alg \<Rightarrow> bytes \<Rightarrow> bytes"
  rsa_sign :: "'k \<Rightarrow> hash_alg \<Rightarrow> bytes \<Rightarrow> bytes"
  cert_kind :: "'c \<Rightarrow> key_kind"
  ec_verify :: "'c \<Rightarrow> hash_alg option \<Rightarrow> bytes \<Rightarrow> bytes \<Rightarrow> bool"
  rsa_verify :: "'c \<Rightarrow> hash_alg option \<Rightarrow> bytes \<Rightarrow> bytes \<Rightarrow> bool"
  cert_signature :: "'c \<Rightarrow> bytes"
  cert_hash :: "'c \<Rightarrow> hash_alg option"
  tbs_bytes :: "'c \<Rightarrow> bytes"
  common_names :: "'c \<Rightarrow> string list"
  cert_point_bytes :: "'c \<Rightarrow> bytes"
  cert_spki_bytes :: "'c \<Rightarrow> bytes"
  cert_sha256 :: "'c \<Rightarrow> bytes"
  x25519_public :: "'s \<Rightarrow> 'p"
  x25519_raw :: "'p \<Rightarrow> bytes"
  x25519_private_raw :: "'s \<Rightarrow> bytes"
  x25519_from_raw :: "bytes \<Rightarrow> 'p option"
  x25519_exchange :: "'s \<Rightarrow> 'p \<Rightarrow> bytes option"
  hkdf :: "bytes \<Rightarrow> bytes \<Rightarrow> nat \<Rightarrow> bytes \<Rightarrow> bytes"

definition read_file :: "('c, 'k, 's, 'p) pki \<Rightarrow> string \<Rightarrow> bytes res" where
  "read_file P path = of_opt OSError (file_bytes P path)"

definition load_certificate :: "('c, 'k, 's, 'p) pki \<Rightarrow> string \<Rightarrow> 'c res" where
  "load_certificate P path =
     res_bind (read_file P path) (\<lambda>data. of_opt ValueError (pem_cert P data))"

definition load_private_key :: "('c, 'k, 's, 'p) pki \<Rightarrow> string \<Rightarrow> 'k res" where
  "load_private_key P path =
     res_bind (read_file P path) (\<lambda>data. of_opt ValueError (pem_key P data))"

text \<open>
  The issuer's key verifies the certificate's signature over its to-be-signed part. Any
  exception, and any other kind of key, is \<^verbatim>\<open>False\<close>.
\<close>

definition verify_certificate :: "('c, 'k, 's, 'p) pki \<Rightarrow> 'c \<Rightarrow> 'c \<Rightarrow> bool" where
  "verify_certificate P cert ca_cert =
     (case cert_kind P ca_cert of
        RSA \<Rightarrow> rsa_verify P ca_cert (cert_hash P cert) (cert_signature P cert) (tbs_bytes P cert)
      | EC \<Rightarrow> ec_verify P ca_cert (cert_hash P cert) (cert_signature P cert) (tbs_bytes P cert)
      | OtherKey \<Rightarrow> False)"

definition get_cert_common_name :: "('c, 'k, 's, 'p) pki \<Rightarrow> 'c \<Rightarrow> string" where
  "get_cert_common_name P cert =
     (case py_index (common_names P cert) 0 of Inl e \<Rightarrow> [] | Inr v \<Rightarrow> v)"

definition get_peer_public_key_bytes :: "('c, 'k, 's, 'p) pki \<Rightarrow> 'c \<Rightarrow> bytes" where
  "get_peer_public_key_bytes P cert =
     (if cert_kind P cert = EC then cert_point_bytes P cert else cert_spki_bytes P cert)"

definition hex_digit :: "nat \<Rightarrow> char" where
  "hex_digit n = ''0123456789abcdef'' ! n"

definition hex :: "bytes \<Rightarrow> string" where
  "hex bs = concat (map (\<lambda>b. [hex_digit (unat b div 16), hex_digit (unat b mod 16)]) bs)"

definition get_cert_fingerprint :: "('c, 'k, 's, 'p) pki \<Rightarrow> 'c \<Rightarrow> string" where
  "get_cert_fingerprint P cert = hex (cert_sha256 P cert)"

definition generate_ephemeral_keypair :: "('c, 'k, 's, 'p) pki \<Rightarrow> 's \<Rightarrow> 's \<times> 'p" where
  "generate_ephemeral_keypair P private = (private, x25519_public P private)"

definition private_key_to_bytes :: "('c, 'k, 's, 'p) pki \<Rightarrow> 's \<Rightarrow> bytes" where
  "private_key_to_bytes P key = x25519_private_raw P key"

definition public_key_to_bytes :: "('c, 'k, 's, 'p) pki \<Rightarrow> 'p \<Rightarrow> bytes" where
  "public_key_to_bytes P key = x25519_raw P key"

definition public_key_from_bytes :: "('c, 'k, 's, 'p) pki \<Rightarrow> bytes \<Rightarrow> 'p res" where
  "public_key_from_bytes P data = of_opt ValueError (x25519_from_raw P data)"

definition DATA_CHANNEL_INFO :: bytes where
  "DATA_CHANNEL_INFO = map of_char ''pyvpn-data-channel''"

definition derive_shared_key ::
  "('c, 'k, 's, 'p) pki \<Rightarrow> 's \<Rightarrow> 'p \<Rightarrow> bytes \<Rightarrow> bytes \<Rightarrow> nat \<Rightarrow> bytes res" where
  "derive_shared_key P private peer_public salt info len =
     res_bind (of_opt ValueError (x25519_exchange P private peer_public)) (\<lambda>shared.
     Inr (hkdf P salt info len shared))"

text \<open>
  Documented behaviour of X25519 and HKDF: raw public keys are 32 bytes and round-trip, the
  two sides of an exchange agree (and do not raise for generated keys, \<open>honest\<close>), HKDF
  returns as many bytes as asked.
\<close>

definition dh_ok :: "('c, 'k, 's, 'p) pki \<Rightarrow> ('s \<Rightarrow> bool) \<Rightarrow> bool" where
  "dh_ok P honest \<longleftrightarrow>
     (\<forall>p. length (x25519_raw P p) = 32 \<and> x25519_from_raw P (x25519_raw P p) = Some p) \<and>
     (\<forall>a b. honest a \<longrightarrow> honest b \<longrightarrow>
        x25519_exchange P a (x25519_public P b) = x25519_exchange P b (x25519_public P a) \<and>
        x25519_exchange P a (x25519_public P b) \<noteq> None) \<and>
     (\<forall>s i n x. length (hkdf P s i n x) = n)"

lemma dh_ok_raw:
  "dh_ok P H \<Longrightarrow> length (x25519_raw P p) = 32"
  "dh_ok P H \<Longrightarrow> public_key_from_bytes P (public_key_to_bytes P p) = Inr p"
  "dh_ok P H \<Longrightarrow> length (hkdf P s i n x) = n"
  by (simp_all add: dh_ok_def public_key_from_bytes_def public_key_to_bytes_def)

lemma derive_shared_key_agree:
  assumes "dh_ok P H" and "H a" and "H b"
  shows "\<exists>k. length k = len \<and>
    derive_shared_key P a (x25519_public P b) salt info len = Inr k \<and>
    derive_shared_key P b (x25519_public P a) salt info len = Inr k"
proof -
  from assms obtain x where "x25519_exchange P a (x25519_public P b) = Some x"
    and "x25519_exchange P b (x25519_public P a) = Some x"
    unfolding dh_ok_def by (metis not_None_eq)
  with assms(1) show ?thesis by (simp add: derive_shared_key_def dh_ok_raw)
qed

end
