(* ===== verification/Control.thy ===== *)
theory Control
  imports Packet Crypto
begin

text \<open>
  The handshake, \<^verbatim>\<open>src/protocol/control.py\<close>: the session object, signing and verification,
  the hello payload, and the six message functions of the two sides. The clock and the
  random draws of a new session are arguments. A handler whose body sits in
  \<^verbatim>\<open>try: ... except Exception\<close> is \<open>guarded\<close>: it never raises, and keeps what the body assigned
  before the exception.
\<close>

section \<open>Sessions\<close>

datatype HandshakeState = IDLE | RESET_SENT | RESET_RCVD | HELLO_SENT | ESTABLISHED | ERROR

record ('c, 's, 'p) session =
  session_id :: bytes
  peer_session_id :: "bytes option"
  state :: HandshakeState
  is_server :: bool
  cipher :: "cipher option"
  peer_cert :: "'c option"
  private_eph :: 's
  public_eph :: 'p
  peer_pub_eph :: "bytes option"
  local_cert_path :: "string option"
  local_key_path :: "string option"
  ca_path :: "string option"
  local_cert_bytes :: "bytes option"
  last_rx :: real
  last_tx :: real
  created_at :: real
  assigned_ip :: "string option"

definition new_session ::
  "('c, 'k, 's, 'p) pki \<Rightarrow> bool \<Rightarrow> bytes \<Rightarrow> 's \<Rightarrow> real \<Rightarrow> ('c, 's, 'p) session" where
  "new_session P server sid sk now =
     (let (priv, pub) = generate_ephemeral_keypair P sk in
     \<lparr>session_id = sid, peer_session_id = None, state = IDLE, is_server = server,
      cipher = None, peer_cert = None, private_eph = priv, public_eph = pub,
      peer_pub_eph = None, local_cert_path = None, local_key_path = None, ca_path = None,
      local_cert_bytes = None, last_rx = now, last_tx = 0, created_at = now,
      assigned_ip = None\<rparr>)"

definition configure ::
  "('c, 'k, 's, 'p) pki \<Rightarrow> string \<Rightarrow> string \<Rightarrow> string \<Rightarrow> (('c, 's, 'p) session, unit) meth"
where
  "configure P ca cert key s0 =
     (let s = s0\<lparr>ca_path := Some ca, local_cert_path := Some cert, local_key_path := Some key\<rparr> in
      if cert \<noteq> [] then
        (case read_file P cert of
           Inl e \<Rightarrow> (Inl e, s)
         | Inr data \<Rightarrow> (Inr (), s\<lparr>local_cert_bytes := Some data\<rparr>))
      else (Inr (), s))"

definition is_established :: "('c, 's, 'p) session \<Rightarrow> bool" where
  "is_established s \<longleftrightarrow> state s = ESTABLISHED"

definition is_expired :: "real \<Rightarrow> real \<Rightarrow> ('c, 's, 'p) session \<Rightarrow> bool" where
  "is_expired now timeout s \<longleftrightarrow>
     state s \<notin> {ESTABLISHED, IDLE} \<and> timeout < now - created_at s"

section \<open>Signatures\<close>

definition sign :: "('c, 'k, 's, 'p) pki \<Rightarrow> string option \<Rightarrow> bytes \<Rightarrow> bytes res" where
  "sign P key_path data =
     (if \<not> truthy key_path then Inr []
      else
        res_bind (load_private_key P (or_empty key_path)) (\<lambda>key.
        Inr (case priv_kind P key of
               EC \<Rightarrow> ec_sign P key SHA256 data
             | RSA \<Rightarrow> rsa_sign P key SHA256 data
             | OtherKey \<Rightarrow> [])))"

definition verify :: "('c, 'k, 's, 'p) pki \<Rightarrow> 'c \<Rightarrow> bytes \<Rightarrow> bytes \<Rightarrow> bool" where
  "verify P cert data sig =
     (case cert_kind P cert of
        EC \<Rightarrow> ec_verify P cert (Some SHA256) sig data
      | RSA \<Rightarrow> rsa_verify P cert (Some SHA256) sig data
      | OtherKey \<Rightarrow> False)"

definition verify_peer_cert :: "('c, 'k, 's, 'p) pki \<Rightarrow> ('c, 's, 'p) session \<Rightarrow> bool res" where
  "verify_peer_cert P s =
     (if \<not> truthy (ca_path s) then Inr True
      else
        case peer_cert s of
          None \<Rightarrow> Inr False
        | Some cert \<Rightarrow>
            res_bind (load_certificate P (or_empty (ca_path s))) (\<lambda>ca.
            Inr (verify_certificate P cert ca)))"

section \<open>The hello payload\<close>

definition pack_lv :: "bytes \<Rightarrow> bytes res" where
  "pack_lv b = res_bind (pack 2 (length b)) (\<lambda>h. Inr (h @ b))"

definition pack_cert_and_pubkey :: "bytes \<Rightarrow> bytes \<Rightarrow> bytes res" where
  "pack_cert_and_pubkey cert_bytes pub_bytes =
     res_bind (pack_lv cert_bytes) (\<lambda>c. res_bind (pack_lv pub_bytes) (\<lambda>p. Inr (c @ p)))"

definition unpack_hello :: "bytes \<Rightarrow> nat \<Rightarrow> (bytes \<times> bytes \<times> nat) res" where
  "unpack_hello payload offset0 =
     res_bind (unpack 2 (slice payload offset0 (offset0 + 2))) (\<lambda>cert_len.
     let offset1 = offset0 + 2;
         cert_data = slice payload offset1 (offset1 + cert_len);
         offset2 = offset1 + cert_len in
     res_bind (unpack 2 (slice payload offset2 (offset2 + 2))) (\<lambda>pub_len.
     let offset3 = offset2 + 2;
         pub_data = slice payload offset3 (offset3 + pub_len);
         offset4 = offset3 + pub_len in
     Inr (cert_data, pub_data, offset4)))"

section \<open>The message functions\<close>

definition guarded ::
  "(('c, 's, 'p) session, bytes list) meth \<Rightarrow> ('c, 's, 'p) session \<Rightarrow>
   bytes list \<times> ('c, 's, 'p) session" where
  "guarded body s =
     (case body s of
        (Inl e, t) \<Rightarrow> ([], t\<lparr>state := ERROR\<rparr>)
      | (Inr ps, t) \<Rightarrow> (ps, t))"

definition fail_handshake :: "(('c, 's, 'p) session, bytes list) meth" where
  "fail_handshake = m_seq (m_upd (\<lambda>s. s\<lparr>state := ERROR\<rparr>)) (m_return [])"

definition client_start_handshake :: "(('c, 's, 'p) session, bytes list) meth" where
  "client_start_handshake s =
     (res_bind (encode_packet HARD_RESET_CLIENT (of_be (session_id s)) []) (\<lambda>p. Inr [p]),
      s\<lparr>state := RESET_SENT\<rparr>)"

definition server_handle_reset :: "real \<Rightarrow> bytes \<Rightarrow> (('c, 's, 'p) session, bytes list) meth" where
  "server_handle_reset now raw =
     m_bind (m_lift (decode_packet raw)) (\<lambda>(opcode, sid, _).
     if opcode \<noteq> HARD_RESET_CLIENT then m_return []
     else
       m_bind (m_lift (pack 8 sid)) (\<lambda>peer.
       m_seq (m_upd (\<lambda>s. s\<lparr>peer_session_id := Some peer, state := RESET_RCVD, last_rx := now\<rparr>))
      (m_bind (m_ask (\<lambda>s. encode_packet HARD_RESET_SERVER (of_be (session_id s)) [])) (\<lambda>p.
       m_return [p]))))"

definition client_handle_reset_ack ::
  "('c, 'k, 's, 'p) pki \<Rightarrow> bytes \<Rightarrow> (('c, 's, 'p) session, bytes list) meth" where
  "client_handle_reset_ack P raw =
     m_bind (m_lift (decode_packet raw)) (\<lambda>(opcode, sid, _).
     if opcode \<noteq> HARD_RESET_SERVER then m_return []
     else
       m_bind (m_lift (pack 8 sid)) (\<lambda>peer.
       m_seq (m_upd (\<lambda>s. s\<lparr>peer_session_id := Some peer, state := RESET_RCVD\<rparr>))
      (m_bind (m_ask (\<lambda>s. pack_cert_and_pubkey (or_empty (local_cert_bytes s))
                            (public_key_to_bytes P (public_eph s)))) (\<lambda>inner.
       m_bind (m_ask (\<lambda>s. encode_handshake_message (msg_val CLIENT_HELLO)
                            (of_be (session_id s)) inner)) (\<lambda>p.
       m_return [p])))))"

definition handshake_salt :: "('c, 's, 'p) session \<Rightarrow> bytes" where
  "handshake_salt s =
     (let a = session_id s; b = or_empty (peer_session_id s)
      in if a < b then a @ b else b @ a)"

text \<open>\<^verbatim>\<open>load_pem_x509_certificate(cert_data) if cert_data else None\<close>\<close>

definition load_peer_cert :: "('c, 'k, 's, 'p) pki \<Rightarrow> bytes \<Rightarrow> 'c option res" where
  "load_peer_cert P cert_data =
     (if cert_data = [] then Inr None
      else res_bind (of_opt ValueError (pem_cert P cert_data)) (\<lambda>c. Inr (Some c)))"

text \<open>The key derivation both hello handlers share, line for line.\<close>

definition derive_session_key ::
  "('c, 'k, 's, 'p) pki \<Rightarrow> bytes \<Rightarrow> (('c, 's, 'p) session, unit) meth" where
  "derive_session_key P pub_data =
     m_bind (m_lift (public_key_from_bytes P pub_data)) (\<lambda>peer_pub.
     m_bind (m_ask (\<lambda>s. derive_shared_key P (private_eph s) peer_pub (handshake_salt s)
                          DATA_CHANNEL_INFO 32)) (\<lambda>shared.
     m_bind (m_lift (new_cipher shared)) (\<lambda>c.
     m_upd (\<lambda>s. s\<lparr>cipher := Some c\<rparr>))))"

definition server_handle_client_hello ::
  "('c, 'k, 's, 'p) pki \<Rightarrow> bytes \<Rightarrow> ('c, 's, 'p) session \<Rightarrow>
   bytes list \<times> ('c, 's, 'p) session" where
  "server_handle_client_hello P payload = guarded (
     m_bind (m_lift (unpack_hello payload 0)) (\<lambda>(cert_data, pub_data, _).
     m_seq (m_upd (\<lambda>s. s\<lparr>peer_pub_eph := Some pub_data\<rparr>))
    (m_bind (m_lift (load_peer_cert P cert_data)) (\<lambda>pc.
     m_seq (m_upd (\<lambda>s. s\<lparr>peer_cert := pc\<rparr>))
    (m_bind (m_ask (verify_peer_cert P)) (\<lambda>ok.
     if \<not> ok then fail_handshake
     else
       m_seq (derive_session_key P pub_data)
      (m_bind (m_ask (\<lambda>s. Inr (public_key_to_bytes P (public_eph s)))) (\<lambda>my_pub.
       m_bind (m_ask (\<lambda>s. sign P (local_key_path s) (pub_data @ my_pub))) (\<lambda>sig.
       m_bind (m_ask (\<lambda>s. pack_cert_and_pubkey (or_empty (local_cert_bytes s)) my_pub)) (\<lambda>cp.
       m_bind (m_lift (pack_lv sig)) (\<lambda>sg.
       m_bind (m_ask (\<lambda>s. encode_handshake_message (msg_val SERVER_HELLO)
                            (of_be (session_id s)) (cp @ sg))) (\<lambda>packet.
       m_seq (m_upd (\<lambda>s. s\<lparr>state := HELLO_SENT\<rparr>)) (m_return [packet])))))))))))))"

definition client_handle_server_hello ::
  "('c, 'k, 's, 'p) pki \<Rightarrow> bytes \<Rightarrow> ('c, 's, 'p) session \<Rightarrow>
   bytes list \<times> ('c, 's, 'p) session" where
  "client_handle_server_hello P payload = guarded (
     m_bind (m_lift (unpack_hello payload 0)) (\<lambda>(cert_data, pub_data, offset).
     m_seq (m_upd (\<lambda>s. s\<lparr>peer_pub_eph := Some pub_data\<rparr>))
    (m_bind (m_lift (unpack 2 (slice payload offset (offset + 2)))) (\<lambda>sig_len.
     let sig = slice payload (offset + 2) (offset + 2 + sig_len) in
     m_bind (m_lift (load_peer_cert P cert_data)) (\<lambda>pc.
     m_seq (m_upd (\<lambda>s. s\<lparr>peer_cert := pc\<rparr>))
    (m_bind (m_ask (verify_peer_cert P)) (\<lambda>ok.
     if \<not> ok then fail_handshake
     else
       m_seq (derive_session_key P pub_data)
      (m_bind (m_ask (\<lambda>s. Inr (public_key_to_bytes P (public_eph s)))) (\<lambda>my_pub.
       m_bind (m_ask (\<lambda>s. Inr (peer_cert s))) (\<lambda>pcert.
       if (case pcert of None \<Rightarrow> False | Some cert \<Rightarrow> \<not> verify P cert (my_pub @ pub_data) sig)
       then fail_handshake
       else
         m_seq (m_upd (\<lambda>s. s\<lparr>state := ESTABLISHED\<rparr>))
        (m_bind (m_ask (\<lambda>s. sign P (local_key_path s) (my_pub @ pub_data))) (\<lambda>finish_sig.
         m_bind (m_lift (pack_lv finish_sig)) (\<lambda>inner.
         m_bind (m_ask (\<lambda>s. encode_handshake_message (msg_val CLIENT_FINISHED)
                              (of_be (session_id s)) inner)) (\<lambda>packet.
         m_return [packet]))))))))))))))"

definition server_handle_client_finished ::
  "('c, 'k, 's, 'p) pki \<Rightarrow> bytes \<Rightarrow> ('c, 's, 'p) session \<Rightarrow>
   bytes list \<times> ('c, 's, 'p) session" where
  "server_handle_client_finished P payload = guarded (
     m_bind (m_lift (unpack 2 (take 2 payload))) (\<lambda>sig_len.
     let sig = slice payload 2 (2 + sig_len) in
     m_bind (m_ask (\<lambda>s. Inr (or_empty (peer_pub_eph s) @
                             public_key_to_bytes P (public_eph s)))) (\<lambda>check_data.
     m_bind (m_ask (\<lambda>s. Inr (peer_cert s))) (\<lambda>pcert.
     if (case pcert of None \<Rightarrow> False | Some cert \<Rightarrow> \<not> verify P cert check_data sig)
     then fail_handshake
     else m_seq (m_upd (\<lambda>s. s\<lparr>state := ESTABLISHED\<rparr>)) (m_return [])))))"

lemmas control_defs =
  guarded_def fail_handshake_def server_handle_reset_def client_handle_reset_ack_def
  derive_session_key_def server_handle_client_hello_def client_handle_server_hello_def
  server_handle_client_finished_def client_start_handshake_def

end
