(* ===== verification/Toy_Env.thy ===== *)
theory Toy_Env
  imports Crypto
begin

text \<open>
  Concrete instances of the parameter records, for the witnesses only: an authenticated
  encryption that appends a checksum of key, nonce, plaintext and associated data, with no
  compression library installed.
\<close>

definition toy_tag :: "bytes \<Rightarrow> bytes \<Rightarrow> bytes \<Rightarrow> bytes \<Rightarrow> bytes" where
  "toy_tag k n p a = replicate 16 (foldr (+) (k @ n @ p @ a) 0)"

definition toy_prims :: prims where
  "toy_prims =
     \<lparr>aes_encrypt = (\<lambda>k n p a. p @ toy_tag k n p a),
      aes_decrypt = (\<lambda>k n c a.
        let p = take (length c - 16) c in
        if 16 \<le> length c \<and> drop (length c - 16) c = toy_tag k n p a then Some p else None),
      has_lz4 = False,
      lz4_compress = (\<lambda>p. p),
      lz4_decompress = Some\<rparr>"

lemma toy_aead_ok: "aead_ok toy_prims"
  by (simp add: aead_ok_def toy_prims_def toy_tag_def Let_def)

lemma toy_lz4_ok: "lz4_ok toy_prims"
  by (simp add: lz4_ok_def toy_prims_def)

definition toy_key :: bytes where
  "toy_key = replicate 32 7"

definition toy_nonce :: "nat \<Rightarrow> bytes" where
  "toy_nonce i = replicate 12 (word_of_nat i)"

lemma length_toy_nonce [simp]: "length (toy_nonce i) = 12"
  by (simp add: toy_nonce_def)

lemma length_toy_key [simp]: "length toy_key = 32"
  by (simp add: toy_key_def)

lemma toy_cipher_wf [simp]: "cipher_wf (Cipher toy_key)"
  by (simp add: cipher_wf_def)

text \<open>
  A toy public-key world: certificates and keys are byte strings that name their holder
  (\<open>1\<close> the authority, \<open>2\<close> the server, \<open>3\<close> the client), a signature is the holder's name and a
  checksum, the authority has signed the certificates of \<open>2\<close> and \<open>3\<close>, and the key agreement
  multiplies 256-bit words.
\<close>

definition toy_files :: "string \<Rightarrow> bytes option" where
  "toy_files = map_of
     [(''ca.crt'', [1]), (''server.crt'', [2]), (''server.key'', [2]),
      (''client.crt'', [3]), (''client.key'', [3])]"

definition checksum :: "bytes \<Rightarrow> byte" where
  "checksum d = foldr (+) d 0"

definition toy_pki :: "(bytes, bytes, 256 word, 256 word) pki" where
  "toy_pki =
     \<lparr>file_bytes = toy_files,
      pem_cert = Some,
      pem_key = Some,
      priv_kind = (\<lambda>_. EC),
      ec_sign = (\<lambda>k _ d. k @ [checksum d]),
      rsa_sign = (\<lambda>k _ d. k @ [checksum d]),
      cert_kind = (\<lambda>_. EC),
      ec_verify = (\<lambda>c _ sig d. sig = c @ [checksum d]),
      rsa_verify = (\<lambda>c _ sig d. sig = c @ [checksum d]),
      cert_signature = (\<lambda>c. if c = [2] \<or> c = [3] then [1, checksum c] else []),
      cert_hash = (\<lambda>_. Some SHA256),
      tbs_bytes = (\<lambda>c. c),
      common_names = (\<lambda>_. []),
      cert_point_bytes = (\<lambda>c. c),
      cert_spki_bytes = (\<lambda>c. c),
      cert_sha256 = (\<lambda>c. c),
      x25519_public = (\<lambda>a. a),
      x25519_raw = (\<lambda>p. be_bytes 32 (unat p)),
      x25519_private_raw = (\<lambda>a. be_bytes 32 (unat a)),
      x25519_from_raw = (\<lambda>d. if length d = 32 then Some (word_of_nat (of_be d)) else None),
      x25519_exchange = (\<lambda>a b. Some (be_bytes 32 (unat (a * b)))),
      hkdf = (\<lambda>s i n x. take n (map ((+) (checksum (s @ i))) x @ replicate n 0))\<rparr>"

lemma unat_256_less: "unat (p :: 256 word) < 256 ^ 32"
  using unsigned_less [of p, where ?'a = nat] by simp

lemma toy_dh_ok: "dh_ok toy_pki (\<lambda>_. True)"
proof -
  have "of_be (be_bytes 32 (unat p)) = unat p" for p :: "256 word"
    by (rule of_be_be_bytes_id) (rule unat_256_less)
  then show ?thesis by (simp add: dh_ok_def toy_pki_def mult.commute min_def)
qed

end
