(* ===== verification/Handshake_Props.thy ===== *)
theory Handshake_Props
  imports Control Toy_Env
begin

text \<open>
  The handshake's lemmas and properties: the hello payload codec, the honest run in
  development and in authenticated mode, what each side's \<open>ESTABLISHED\<close> guarantees, and where
  the server's state machine lets an unauthenticated peer through. The model is in \<open>Control\<close>.
\<close>

section \<open>The hello payload\<close>

lemma pack_lv_Inr_iff:
  "pack_lv b = Inr w \<longleftrightarrow> length b < 65536 \<and> w = be_bytes 2 (length b) @ b"
  by (auto simp: pack_lv_def res_bind_Inr_iff pack_Inr_iff)

lemma pack_cert_and_pubkey_Inr_iff:
  "pack_cert_and_pubkey c p = Inr h \<longleftrightarrow>
     length c < 65536 \<and> length p < 65536 \<and>
     h = be_bytes 2 (length c) @ c @ be_bytes 2 (length p) @ p"
  by (auto simp: pack_cert_and_pubkey_def res_bind_Inr_iff pack_lv_Inr_iff)

lemma unpack_slice_2: "n < 65536 \<Longrightarrow> unpack 2 (be_bytes 2 n) = Inr n"
  by simp

lemma unpack_hello_pack:
  assumes "pack_cert_and_pubkey c p = Inr h"
  shows "unpack_hello (h @ rest) 0 = Inr (c, p, length h)"
proof -
  from assms have len: "length c < 65536" "length p < 65536"
    and h: "h = be_bytes 2 (length c) @ c @ be_bytes 2 (length p) @ p"
    by (auto simp: pack_cert_and_pubkey_Inr_iff)
  let ?a = "be_bytes 2 (length c)" and ?b = "be_bytes 2 (length p)"
  have s1: "slice (h @ rest) 0 2 = ?a" by (simp add: h slice_def)
  have lh: "length h = 2 + length c + 2 + length p" by (simp add: h)
  have s2: "slice (h @ rest) 2 (2 + length c) = c"
    using slice_mid [of ?a 2 c "2 + length c" "?b @ p @ rest"] by (simp add: h)
  have s3: "slice (h @ rest) (2 + length c) (2 + length c + 2) = ?b"
    using slice_mid [of "?a @ c" "2 + length c" ?b "2 + length c + 2" "p @ rest"] by (simp add: h)
  have s4: "slice (h @ rest) (2 + length c + 2) (2 + length c + 2 + length p) = p"
    using slice_mid [of "?a @ c @ ?b" "2 + length c + 2" p "2 + length c + 2 + length p" rest]
    by (simp add: h)
  show ?thesis
    unfolding unpack_hello_def Let_def add_0 s1 unpack_slice_2 [OF len(1)] res_bind_simps
      s2 s3 unpack_slice_2 [OF len(2)] s4 lh ..
qed

lemma slice_lv:
  assumes "pack_lv sig = Inr w"
  shows "unpack 2 (slice (h @ w) (length h) (length h + 2)) = Inr (length sig)"
    and "slice (h @ w) (length h + 2) (length h + 2 + length sig) = sig"
proof -
  from assms have len: "length sig < 65536" and w: "w = be_bytes 2 (length sig) @ sig"
    by (auto simp: pack_lv_Inr_iff)
  have "slice (h @ w) (length h) (length h + 2) = be_bytes 2 (length sig)"
    using slice_mid [of h "length h" "be_bytes 2 (length sig)" "length h + 2" sig] by (simp add: w)
  with len show "unpack 2 (slice (h @ w) (length h) (length h + 2)) = Inr (length sig)"
    by (simp add: unpack_slice_2)
  show "slice (h @ w) (length h + 2) (length h + 2 + length sig) = sig"
    using slice_mid [of "h @ be_bytes 2 (length sig)" "length h + 2" sig
        "length h + 2 + length sig" "[]"]
    by (simp add: w)
qed

section \<open>The honest run\<close>

text \<open>\<^verbatim>\<open>_, _, payload = decode_packet(data); inner = payload[1:]\<close> of both dispatchers.\<close>

definition inner_of :: "bytes \<Rightarrow> bytes" where
  "inner_of w = (case decode_packet w of Inl e \<Rightarrow> [] | Inr (op, sid, payload) \<Rightarrow> drop 1 payload)"

text \<open>
  The six messages in the order the dispatchers of both sides produce and consume them;
  \<open>None\<close> when a step raises or answers with something else.
\<close>

definition handshake ::
  "('c, 'k, 's, 'p) pki \<Rightarrow> real \<Rightarrow> ('c, 's, 'p) session \<Rightarrow> ('c, 's, 'p) session \<Rightarrow>
   (('c, 's, 'p) session \<times> ('c, 's, 'p) session) option" where
  "handshake P now c0 s0 =
     (case client_start_handshake c0 of
        (Inr [m1], c1) \<Rightarrow>
          (case server_handle_reset now m1 s0 of
             (Inr [m2], s1) \<Rightarrow>
               (case client_handle_reset_ack P m2 c1 of
                  (Inr [m3], c2) \<Rightarrow>
                    (case server_handle_client_hello P (inner_of m3) s1 of
                       ([m4], s2) \<Rightarrow>
                         (case client_handle_server_hello P (inner_of m4) c2 of
                            ([m5], c3) \<Rightarrow>
                              (case server_handle_client_finished P (inner_of m5) s2 of
                                 ([], s3) \<Rightarrow> Some (c3, s3)
                               | _ \<Rightarrow> None)
                          | _ \<Rightarrow> None)
                     | _ \<Rightarrow> None)
                | _ \<Rightarrow> None)
           | _ \<Rightarrow> None)
      | _ \<Rightarrow> None)"

text \<open>
  The verifier \<open>v\<close> accepts the credentials of \<open>p\<close>: in development mode no certificate, in
  authenticated mode one the verifier's authority has signed, whose key verifies what \<open>p\<close>
  signs.
\<close>

definition valid_sig ::
  "('c, 'k, 's, 'p) pki \<Rightarrow> 'c option \<Rightarrow> bytes \<Rightarrow> bytes \<Rightarrow> bool" where
  "valid_sig P pc data sig = (case pc of None \<Rightarrow> True | Some cert \<Rightarrow> verify P cert data sig)"

definition accepts ::
  "('c, 'k, 's, 'p) pki \<Rightarrow> ('c, 's, 'p) session \<Rightarrow> ('c, 's, 'p) session \<Rightarrow> bool" where
  "accepts P v p \<longleftrightarrow>
     length (or_empty (local_cert_bytes p)) < 65536 \<and>
     (\<exists>pc. load_peer_cert P (or_empty (local_cert_bytes p)) = Inr pc \<and>
        verify_peer_cert P (v\<lparr>peer_cert := pc\<rparr>) = Inr True \<and>
        (\<forall>data. \<exists>sig. sign P (local_key_path p) data = Inr sig \<and> length sig < 65536 \<and>
           valid_sig P pc data sig))"

text \<open>A session as its constructor makes it.\<close>

definition fresh :: "('c, 'k, 's, 'p) pki \<Rightarrow> ('s \<Rightarrow> bool) \<Rightarrow> ('c, 's, 'p) session \<Rightarrow> bool" where
  "fresh P H s \<longleftrightarrow> length (session_id s) = 8 \<and> H (private_eph s) \<and>
     public_eph s = x25519_public P (private_eph s)"

lemma inner_of_handshake_message:
  "encode_handshake_message (msg_val m) sid p = Inr w \<Longrightarrow> inner_of w = p"
  by (auto simp: encode_handshake_message_eq inner_of_def dest!: decode_encode)

lemma encode_ok:
  "length sid = 8 \<Longrightarrow> \<exists>w. encode_packet op (of_be sid) p = Inr w"
  using of_be_bound [of sid] by (auto simp: encode_packet_eq)

lemma encode_handshake_ok:
  "length sid = 8 \<Longrightarrow> \<exists>w. encode_handshake_message (msg_val m) (of_be sid) p = Inr w"
  by (simp add: encode_handshake_message_eq encode_ok)

lemma verify_peer_cert_cong:
  "ca_path s = ca_path t \<Longrightarrow> peer_cert s = peer_cert t \<Longrightarrow>
     verify_peer_cert P s = verify_peer_cert P t"
  by (simp add: verify_peer_cert_def split: option.split)

lemma server_handle_reset_ok:
  assumes "encode_packet HARD_RESET_CLIENT (of_be sid) [] = Inr m1" and "length sid = 8"
    and "encode_packet HARD_RESET_SERVER (of_be (session_id s)) [] = Inr m2"
  shows "server_handle_reset now m1 s =
    (Inr [m2], s\<lparr>peer_session_id := Some sid, state := RESET_RCVD, last_rx := now\<rparr>)"
  using assms decode_encode [OF assms(1)] of_be_bound [of sid] be_bytes_of_be_length [of sid 8]
  by (simp add: server_handle_reset_def meth_defs pack_def)

lemma client_handle_reset_ack_ok:
  assumes "encode_packet HARD_RESET_SERVER (of_be sid) [] = Inr m2" and "length sid = 8"
    and "pack_cert_and_pubkey (or_empty (local_cert_bytes c)) (public_key_to_bytes P (public_eph c))
      = Inr h"
    and "encode_handshake_message (msg_val CLIENT_HELLO) (of_be (session_id c)) h = Inr m3"
  shows "client_handle_reset_ack P m2 c =
    (Inr [m3], c\<lparr>peer_session_id := Some sid, state := RESET_RCVD\<rparr>)"
  using assms decode_encode [OF assms(1)] of_be_bound [of sid] be_bytes_of_be_length [of sid 8]
  by (simp add: client_handle_reset_ack_def meth_defs pack_def)

lemma derive_session_key_ok:
  assumes "public_key_from_bytes P pub = Inr pk"
    and "derive_shared_key P (private_eph s) pk (handshake_salt s) DATA_CHANNEL_INFO 32 = Inr k"
    and "length k = 32"
  shows "derive_session_key P pub s = (Inr (), s\<lparr>cipher := Some (Cipher k)\<rparr>)"
  using assms by (simp add: derive_session_key_def meth_defs new_cipher_def)

lemma server_hello_ok:
  assumes h: "pack_cert_and_pubkey cb pub = Inr h"
    and pc: "load_peer_cert P cb = Inr pc" "verify_peer_cert P (s\<lparr>peer_cert := pc\<rparr>) = Inr True"
    and key: "public_key_from_bytes P pub = Inr pk"
      "derive_shared_key P (private_eph s) pk (handshake_salt s) DATA_CHANNEL_INFO 32 = Inr k"
      "length k = 32"
    and sig: "sign P (local_key_path s) (pub @ public_key_to_bytes P (public_eph s)) = Inr sig"
      "pack_lv sig = Inr sg"
    and cp: "pack_cert_and_pubkey (or_empty (local_cert_bytes s))
        (public_key_to_bytes P (public_eph s)) = Inr cp"
    and m: "encode_handshake_message (msg_val SERVER_HELLO) (of_be (session_id s)) (cp @ sg) = Inr m"
  shows "server_handle_client_hello P h s =
    ([m], s\<lparr>peer_pub_eph := Some pub, peer_cert := pc, cipher := Some (Cipher k),
           state := HELLO_SENT\<rparr>)"
proof -
  let ?t = "s\<lparr>peer_pub_eph := Some pub, peer_cert := pc\<rparr>"
  have un: "unpack_hello h 0 = Inr (cb, pub, length h)" using unpack_hello_pack [OF h, of "[]"] by simp
  have v: "verify_peer_cert P ?t = Inr True"
    using pc(2) verify_peer_cert_cong [of ?t "s\<lparr>peer_cert := pc\<rparr>" P] by simp
  have d: "derive_session_key P pub ?t = (Inr (), ?t\<lparr>cipher := Some (Cipher k)\<rparr>)"
    using key by (intro derive_session_key_ok) (simp_all add: handshake_salt_def)
  show ?thesis
    using un v d pc(1) sig cp m
    by (simp add: server_handle_client_hello_def guarded_def meth_defs)
qed

lemma client_hello_ok:
  assumes h: "pack_cert_and_pubkey cb pub = Inr h" and sg: "pack_lv sig = Inr sg"
    and pc: "load_peer_cert P cb = Inr pc" "verify_peer_cert P (c\<lparr>peer_cert := pc\<rparr>) = Inr True"
    and key: "public_key_from_bytes P pub = Inr pk"
      "derive_shared_key P (private_eph c) pk (handshake_salt c) DATA_CHANNEL_INFO 32 = Inr k"
      "length k = 32"
    and ver: "valid_sig P pc (public_key_to_bytes P (public_eph c) @ pub) sig"
    and fin: "sign P (local_key_path c) (public_key_to_bytes P (public_eph c) @ pub) = Inr fsig"
      "pack_lv fsig = Inr inner"
    and m: "encode_handshake_message (msg_val CLIENT_FINISHED) (of_be (session_id c)) inner = Inr m"
  shows "client_handle_server_hello P (h @ sg) c =
    ([m], c\<lparr>peer_pub_eph := Some pub, peer_cert := pc, cipher := Some (Cipher k),
           state := ESTABLISHED\<rparr>)"
proof -
  let ?t = "c\<lparr>peer_pub_eph := Some pub, peer_cert := pc\<rparr>"
  note un = unpack_hello_pack [OF h, of sg]
  note lv = slice_lv [OF sg, of h]
  have v: "verify_peer_cert P ?t = Inr True"
    using pc(2) verify_peer_cert_cong [of ?t "c\<lparr>peer_cert := pc\<rparr>" P] by simp
  have d: "derive_session_key P pub ?t = (Inr (), ?t\<lparr>cipher := Some (Cipher k)\<rparr>)"
    using key by (intro derive_session_key_ok) (simp_all add: handshake_salt_def)
  show ?thesis
    using un lv v d pc(1) ver fin m
    by (cases pc) (simp_all add: client_handle_server_hello_def guarded_def meth_defs Let_def valid_sig_def)
qed

lemma server_finished_ok:
  assumes "pack_lv fsig = Inr inner"
    and "valid_sig P (peer_cert s)
      (or_empty (peer_pub_eph s) @ public_key_to_bytes P (public_eph s)) fsig"
  shows "server_handle_client_finished P inner s = ([], s\<lparr>state := ESTABLISHED\<rparr>)"
proof -
  from assms(1) have "unpack 2 (take 2 inner) = Inr (length fsig)"
    and "slice inner 2 (2 + length fsig) = fsig"
    by (auto simp: pack_lv_Inr_iff slice_def)
  with assms(2) show ?thesis
    by (cases "peer_cert s")
      (simp_all add: server_handle_client_finished_def guarded_def meth_defs Let_def valid_sig_def)
qed

lemma handshake_salt_sym:
  "session_id t = peer_s \<Longrightarrow> peer_session_id s = Some peer_s \<Longrightarrow>
     peer_session_id t = Some (session_id s) \<Longrightarrow> handshake_salt s = handshake_salt t"
  by (simp add: handshake_salt_def Let_def) (metis linorder_neqE order_less_asym)

text \<open>
  The three phases of the honest run, each with the state it leaves: the resets, the server's
  answer to the hello, the client's answer and the end.
\<close>

definition after_reset :: "('c, 's, 'p) session \<Rightarrow> bytes \<Rightarrow> ('c, 's, 'p) session" where
  "after_reset s peer = s\<lparr>peer_session_id := Some peer, state := RESET_RCVD\<rparr>"

definition after_hello ::
  "('c, 's, 'p) session \<Rightarrow> bytes \<Rightarrow> 'c option \<Rightarrow> bytes \<Rightarrow> HandshakeState \<Rightarrow>
   ('c, 's, 'p) session" where
  "after_hello s pub pc k st =
     s\<lparr>peer_pub_eph := Some pub, peer_cert := pc, cipher := Some (Cipher k), state := st\<rparr>"

lemmas after_defs = after_reset_def after_hello_def

lemma verify_after_reset:
  "verify_peer_cert P (s\<lparr>peer_cert := pc\<rparr>) = r \<Longrightarrow>
     verify_peer_cert P (after_reset s peer\<lparr>peer_cert := pc\<rparr>) = r"
  "verify_peer_cert P (s\<lparr>peer_cert := pc\<rparr>) = r \<Longrightarrow>
     verify_peer_cert P ((after_reset s peer)\<lparr>last_rx := now, peer_cert := pc\<rparr>) = r"
  using verify_peer_cert_cong [of "after_reset s peer\<lparr>peer_cert := pc\<rparr>" "s\<lparr>peer_cert := pc\<rparr>" P]
    verify_peer_cert_cong [of "after_reset s peer\<lparr>last_rx := now, peer_cert := pc\<rparr>"
      "s\<lparr>peer_cert := pc\<rparr>" P]
  by (simp_all add: after_reset_def)

lemma reset_phase:
  assumes ids: "length (session_id c) = 8" "length (session_id s) = 8"
    and h: "pack_cert_and_pubkey (or_empty (local_cert_bytes c))
      (public_key_to_bytes P (public_eph c)) = Inr h"
  shows "\<exists>m1 m2 m3. client_start_handshake c = (Inr [m1], c\<lparr>state := RESET_SENT\<rparr>) \<and>
    server_handle_reset now m1 s =
      (Inr [m2], (after_reset s (session_id c))\<lparr>last_rx := now\<rparr>) \<and>
    client_handle_reset_ack P m2 (c\<lparr>state := RESET_SENT\<rparr>) =
      (Inr [m3], after_reset c (session_id s)) \<and>
    inner_of m3 = h"
proof -
  obtain m1 m2 where m1: "encode_packet HARD_RESET_CLIENT (of_be (session_id c)) [] = Inr m1"
    and m2: "encode_packet HARD_RESET_SERVER (of_be (session_id s)) [] = Inr m2"
    using encode_ok ids by blast
  obtain m3
    where m3: "encode_handshake_message (msg_val CLIENT_HELLO) (of_be (session_id c)) h = Inr m3"
    using encode_handshake_ok [OF ids(1)] by blast
  have "client_handle_reset_ack P m2 (c\<lparr>state := RESET_SENT\<rparr>) =
      (Inr [m3], after_reset c (session_id s))"
    using client_handle_reset_ack_ok [OF m2 ids(2), of "c\<lparr>state := RESET_SENT\<rparr>" P h m3] h m3
    by (simp add: after_reset_def)
  with m1 server_handle_reset_ok [OF m1 ids(1) m2] inner_of_handshake_message [OF m3]
  show ?thesis by (simp add: client_start_handshake_def after_reset_def)
qed

lemma server_phase:
  assumes raw: "length (public_key_to_bytes P (public_eph s)) < 65536" and "length (session_id s) = 8"
    and h: "pack_cert_and_pubkey cb pub = Inr h" and cb: "length (or_empty (local_cert_bytes s)) < 65536"
    and pc: "load_peer_cert P cb = Inr pc" "verify_peer_cert P (s\<lparr>peer_cert := pc\<rparr>) = Inr True"
    and key: "public_key_from_bytes P pub = Inr pk"
      "derive_shared_key P (private_eph s) pk (handshake_salt s) DATA_CHANNEL_INFO 32 = Inr k"
      "length k = 32"
    and sig: "sign P (local_key_path s) (pub @ public_key_to_bytes P (public_eph s)) = Inr sig"
      "length sig < 65536"
  shows "\<exists>m cp sg. server_handle_client_hello P h s = ([m], after_hello s pub pc k HELLO_SENT) \<and>
    inner_of m = cp @ sg \<and> pack_lv sig = Inr sg \<and>
    pack_cert_and_pubkey (or_empty (local_cert_bytes s)) (public_key_to_bytes P (public_eph s)) =
      Inr cp"
proof -
  obtain cp where cp: "pack_cert_and_pubkey (or_empty (local_cert_bytes s))
      (public_key_to_bytes P (public_eph s)) = Inr cp"
    using raw cb by (simp add: pack_cert_and_pubkey_Inr_iff)
  obtain sg where sg: "pack_lv sig = Inr sg" using sig(2) by (simp add: pack_lv_Inr_iff)
  obtain m where m: "encode_handshake_message (msg_val SERVER_HELLO) (of_be (session_id s))
      (cp @ sg) = Inr m"
    using encode_handshake_ok [OF assms(2)] by blast
  from server_hello_ok [OF h pc key sig(1) sg cp m] inner_of_handshake_message [OF m] sg cp
  show ?thesis by (auto simp: after_hello_def)
qed

lemma client_phase:
  assumes "length (session_id c) = 8" and h: "pack_cert_and_pubkey cb pub = Inr h"
    and sg: "pack_lv sig = Inr sg"
    and pc: "load_peer_cert P cb = Inr pc" "verify_peer_cert P (c\<lparr>peer_cert := pc\<rparr>) = Inr True"
    and key: "public_key_from_bytes P pub = Inr pk"
      "derive_shared_key P (private_eph c) pk (handshake_salt c) DATA_CHANNEL_INFO 32 = Inr k"
      "length k = 32"
    and ver: "valid_sig P pc (public_key_to_bytes P (public_eph c) @ pub) sig"
    and fin: "sign P (local_key_path c) (public_key_to_bytes P (public_eph c) @ pub) = Inr fsig"
      "length fsig < 65536"
  shows "\<exists>m inner. client_handle_server_hello P (h @ sg) c =
      ([m], after_hello c pub pc k ESTABLISHED) \<and> inner_of m = inner \<and> pack_lv fsig = Inr inner"
proof -
  obtain inner where i: "pack_lv fsig = Inr inner" using fin(2) by (simp add: pack_lv_Inr_iff)
  obtain m where m: "encode_handshake_message (msg_val CLIENT_FINISHED) (of_be (session_id c))
      inner = Inr m"
    using encode_handshake_ok [OF assms(1)] by blast
  from client_hello_ok [OF h sg pc key ver fin(1) i m] inner_of_handshake_message [OF m] i
  show ?thesis by (auto simp: after_hello_def)
qed

lemma handshake_runs:
  assumes dh: "dh_ok P H" and fc: "fresh P H c" and fs: "fresh P H s"
    and acc: "accepts P c s" "accepts P s c"
  shows "\<exists>c' s' k. handshake P now c s = Some (c', s') \<and>
    state c' = ESTABLISHED \<and> state s' = ESTABLISHED \<and>
    cipher c' = Some (Cipher k) \<and> cipher s' = Some (Cipher k) \<and> length k = 32 \<and>
    session_id c' = session_id c \<and> session_id s' = session_id s \<and>
    peer_session_id c' = Some (session_id s) \<and> peer_session_id s' = Some (session_id c) \<and>
    load_peer_cert P (or_empty (local_cert_bytes s)) = Inr (peer_cert c') \<and>
    load_peer_cert P (or_empty (local_cert_bytes c)) = Inr (peer_cert s')"
proof -
  let ?cp = "public_key_to_bytes P (public_eph c)" and ?sp = "public_key_to_bytes P (public_eph s)"
  note raw = dh_ok_raw [OF dh]
  from fc fs have ids: "length (session_id c) = 8" "length (session_id s) = 8"
    by (simp_all add: fresh_def)
  from acc(1) obtain ps sig where ps: "length (or_empty (local_cert_bytes s)) < 65536"
      "load_peer_cert P (or_empty (local_cert_bytes s)) = Inr ps"
      "verify_peer_cert P (c\<lparr>peer_cert := ps\<rparr>) = Inr True"
    and sig: "sign P (local_key_path s) (?cp @ ?sp) = Inr sig" "length sig < 65536"
      "valid_sig P ps (?cp @ ?sp) sig"
    unfolding accepts_def by blast
  from acc(2) obtain pc fsig where pc: "length (or_empty (local_cert_bytes c)) < 65536"
      "load_peer_cert P (or_empty (local_cert_bytes c)) = Inr pc"
      "verify_peer_cert P (s\<lparr>peer_cert := pc\<rparr>) = Inr True"
    and fsig: "sign P (local_key_path c) (?cp @ ?sp) = Inr fsig" "length fsig < 65536"
      "valid_sig P pc (?cp @ ?sp) fsig"
    unfolding accepts_def by blast
  have plen: "length ?cp < 65536" "length ?sp < 65536"
    using raw(1) by (simp_all add: public_key_to_bytes_def)
  then obtain h where h: "pack_cert_and_pubkey (or_empty (local_cert_bytes c)) ?cp = Inr h"
    using pc(1) by (simp add: pack_cert_and_pubkey_Inr_iff)
  let ?c = "after_reset c (session_id s)"
  let ?s = "(after_reset s (session_id c))\<lparr>last_rx := now\<rparr>"
  have salt: "handshake_salt ?c = handshake_salt ?s"
    by (rule handshake_salt_sym) (simp_all add: after_reset_def)
  from derive_shared_key_agree [OF dh, of "private_eph c" "private_eph s" 32 "handshake_salt ?c"
      DATA_CHANNEL_INFO] fc fs obtain k where k: "length k = 32"
      "derive_shared_key P (private_eph ?c) (public_eph s) (handshake_salt ?c) DATA_CHANNEL_INFO 32
        = Inr k"
      "derive_shared_key P (private_eph ?s) (public_eph c) (handshake_salt ?s) DATA_CHANNEL_INFO 32
        = Inr k"
    unfolding fresh_def salt by (auto simp: after_reset_def)
  from reset_phase [OF ids h, of now] obtain m1 m2 m3 where
      r: "client_start_handshake c = (Inr [m1], c\<lparr>state := RESET_SENT\<rparr>)"
      "server_handle_reset now m1 s = (Inr [m2], ?s)"
      "client_handle_reset_ack P m2 (c\<lparr>state := RESET_SENT\<rparr>) = (Inr [m3], ?c)"
      "inner_of m3 = h"
    by blast
  from server_phase [of P ?s, OF _ _ h _ pc(2) verify_after_reset(2) [OF pc(3)] raw(2) k(3,1)]
    sig plen ids ps(1) obtain m4 cp sg where
      sh: "server_handle_client_hello P h ?s = ([m4], after_hello ?s ?cp pc k HELLO_SENT)"
      "inner_of m4 = cp @ sg" "pack_lv sig = Inr sg"
      "pack_cert_and_pubkey (or_empty (local_cert_bytes s)) ?sp = Inr cp"
    by (auto simp: after_reset_def)
  from client_phase [of ?c, OF _ sh(4) sh(3) ps(2) verify_after_reset(1) [OF ps(3)] raw(2) k(2,1)]
    sig(3) fsig ids obtain m5 inner where
      ch: "client_handle_server_hello P (cp @ sg) ?c = ([m5], after_hello ?c ?sp ps k ESTABLISHED)"
      "inner_of m5 = inner" "pack_lv fsig = Inr inner"
    by (auto simp: after_reset_def)
  have fin: "server_handle_client_finished P inner (after_hello ?s ?cp pc k HELLO_SENT) =
      ([], (after_hello ?s ?cp pc k HELLO_SENT)\<lparr>state := ESTABLISHED\<rparr>)"
    using fsig(3) by (intro server_finished_ok [OF ch(3)]) (simp add: after_defs)
  show ?thesis unfolding handshake_def
    using k(1) ps(2) pc(2) by (simp add: r sh(1,2) ch(1,2) fin) (simp add: after_defs)
qed

text \<open>
  Claim C8. The handshake completes: two fresh sessions that accept each other's
  credentials (none in development mode, certificates under the other's authority in
  authenticated mode) exchange the six messages without an error, and both end
  \<open>ESTABLISHED\<close> with the same 32-byte key, each other's session id, and the certificate the
  other presented.
\<close>

theorem handshake_completes:
  assumes dh: "dh_ok P H" and fc: "fresh P H c" and fs: "fresh P H s"
    and acc: "accepts P c s" "accepts P s c"
  shows "\<exists>c' s' k. handshake P now c s = Some (c', s') \<and>
    state c' = ESTABLISHED \<and> state s' = ESTABLISHED \<and>
    cipher c' = Some (Cipher k) \<and> cipher s' = Some (Cipher k) \<and> length k = 32 \<and>
    session_id c' = session_id c \<and> session_id s' = session_id s \<and>
    peer_session_id c' = Some (session_id s) \<and> peer_session_id s' = Some (session_id c) \<and>
    load_peer_cert P (or_empty (local_cert_bytes s)) = Inr (peer_cert c') \<and>
    load_peer_cert P (or_empty (local_cert_bytes c)) = Inr (peer_cert s')"
  by (rule handshake_runs [OF assms])

text \<open>A client and a server with certificates of the toy authority, and two without.\<close>

definition toy_client :: "(bytes, 256 word, 256 word) session" where
  "toy_client = snd (configure toy_pki ''ca.crt'' ''client.crt'' ''client.key''
     (new_session toy_pki False [1, 2, 3, 4, 5, 6, 7, 8] 11 0))"

definition toy_server :: "(bytes, 256 word, 256 word) session" where
  "toy_server = snd (configure toy_pki ''ca.crt'' ''server.crt'' ''server.key''
     (new_session toy_pki True [8, 7, 6, 5, 4, 3, 2, 1] 13 0))"

definition toy_dev_client :: "(bytes, 256 word, 256 word) session" where
  "toy_dev_client = new_session toy_pki False [1, 2, 3, 4, 5, 6, 7, 8] 11 0"

lemmas toy_session_defs =
  toy_client_def toy_server_def toy_dev_client_def configure_def new_session_def generate_ephemeral_keypair_def read_file_def
  toy_files_def toy_pki_def

lemmas toy_accept_defs =
  accepts_def load_peer_cert_def verify_peer_cert_def load_certificate_def
  verify_certificate_def sign_def load_private_key_def valid_sig_def verify_def

lemma toy_fresh: "fresh toy_pki (\<lambda>_. True) toy_client" "fresh toy_pki (\<lambda>_. True) toy_server"
  by (simp_all add: fresh_def toy_session_defs)

lemma toy_accepts: "accepts toy_pki toy_client toy_server" "accepts toy_pki toy_server toy_client"
  by (simp_all add: toy_accept_defs toy_session_defs)

theorem handshake_completes_witness:
  "\<exists>c' s' k. handshake toy_pki 0 toy_client toy_server = Some (c', s') \<and>
    state c' = ESTABLISHED \<and> state s' = ESTABLISHED \<and>
    cipher c' = Some (Cipher k) \<and> cipher s' = Some (Cipher k)"
  using handshake_completes [OF toy_dh_ok toy_fresh toy_accepts, of 0] by blast

section \<open>What ESTABLISHED guarantees a client\<close>

lemma guarded_established:
  assumes "guarded body s = (ps, t)" and "state t = ESTABLISHED"
  shows "body s = (Inr ps, t)"
  using assms by (auto simp: guarded_def split: prod.splits sum.splits)

lemma derive_session_key_Inr:
  "derive_session_key P pub s = (Inr (), t) \<longleftrightarrow>
     (\<exists>pk k. public_key_from_bytes P pub = Inr pk \<and>
        derive_shared_key P (private_eph s) pk (handshake_salt s) DATA_CHANNEL_INFO 32 = Inr k \<and>
        length k = 32 \<and> t = s\<lparr>cipher := Some (Cipher k)\<rparr>)"
  by (auto simp: derive_session_key_def meth_Inr_iff m_upd_Inr_iff new_cipher_Inr_iff)

text \<open>The session holds a key agreed with a peer that proved itself.\<close>

definition authenticated ::
  "('c, 'k, 's, 'p) pki \<Rightarrow> string \<Rightarrow> ('c, 's, 'p) session \<Rightarrow> bool" where
  "authenticated P ca s \<longleftrightarrow>
     (\<exists>cert cacert pub sig pk k. peer_cert s = Some cert \<and>
        load_certificate P ca = Inr cacert \<and> verify_certificate P cert cacert \<and>
        peer_pub_eph s = Some pub \<and>
        verify P cert (public_key_to_bytes P (public_eph s) @ pub) sig \<and>
        public_key_from_bytes P pub = Inr pk \<and>
        derive_shared_key P (private_eph s) pk (handshake_salt s) DATA_CHANNEL_INFO 32 = Inr k \<and>
        cipher s = Some (Cipher k))"

lemma client_hello_authenticated:
  assumes "client_handle_server_hello P payload s = (ps, t)" and "state t = ESTABLISHED"
    and "ca_path s = Some ca" and "ca \<noteq> []"
  shows "authenticated P ca t"
proof -
  from assms(1,2) have "\<exists>pub pc k pk sig.
      verify_peer_cert P (s\<lparr>peer_pub_eph := Some pub, peer_cert := pc\<rparr>) = Inr True \<and>
      public_key_from_bytes P pub = Inr pk \<and>
      derive_shared_key P (private_eph s) pk
         (handshake_salt (s\<lparr>peer_pub_eph := Some pub, peer_cert := pc\<rparr>)) DATA_CHANNEL_INFO 32 = Inr k \<and>
      (pc = None \<or> (\<exists>cert. pc = Some cert \<and>
        verify P cert (public_key_to_bytes P (public_eph s) @ pub) sig)) \<and>
      t = s\<lparr>peer_pub_eph := Some pub, peer_cert := pc, cipher := Some (Cipher k),
        state := ESTABLISHED\<rparr>"
    unfolding client_handle_server_hello_def
    by (auto dest!: guarded_established simp: meth_Inr_iff m_upd_Inr_iff derive_session_key_Inr
        fail_handshake_def Let_def split: if_splits option.splits)
      (rule exI, rule exI, rule conjI, assumption, fastforce)+
  with assms(3,4) show ?thesis
    by (auto simp: verify_peer_cert_def authenticated_def res_bind_Inr_iff handshake_salt_def
        split: option.splits) (rule exI, assumption)
qed

lemma client_hello_frame:
  assumes "client_handle_server_hello P payload s = (ps, t)"
  shows "ca_path t = ca_path s"
  using assms
  by (auto simp: client_handle_server_hello_def guarded_def derive_session_key_def
      fail_handshake_def meth_defs Let_def split: prod.splits sum.splits if_splits)

text \<open>
  A client session configured with the authority file \<open>ca\<close>, driven by any messages an
  adversary sends, in any order.
\<close>

inductive client_reach ::
  "('c, 'k, 's, 'p) pki \<Rightarrow> string \<Rightarrow> ('c, 's, 'p) session \<Rightarrow> bool" for P ca where
  c_init: "configure P ca cert key (new_session P False sid sk now) = (r, s) \<Longrightarrow> client_reach P ca s"
| c_start: "client_reach P ca s \<Longrightarrow> client_start_handshake s = (r, t) \<Longrightarrow> client_reach P ca t"
| c_ack: "client_reach P ca s \<Longrightarrow> client_handle_reset_ack P raw s = (r, t) \<Longrightarrow> client_reach P ca t"
| c_hello: "client_reach P ca s \<Longrightarrow> client_handle_server_hello P payload s = (ps, t) \<Longrightarrow>
    client_reach P ca t"

lemma client_ack_state:
  assumes "client_handle_reset_ack P raw s = (r, t)"
  shows "t = s \<or> (\<exists>p. t = s\<lparr>peer_session_id := Some p, state := RESET_RCVD\<rparr>)"
  using assms
  by (auto simp: client_handle_reset_ack_def meth_defs split: prod.splits sum.splits if_splits)

lemma client_reach_inv:
  "client_reach P ca s \<Longrightarrow>
     ca_path s = Some ca \<and> (state s = ESTABLISHED \<longrightarrow> ca \<noteq> [] \<longrightarrow> authenticated P ca s)"
proof (induction rule: client_reach.induct)
  case (c_init cert key sid sk now r s)
  then show ?case
    by (auto simp: configure_def new_session_def generate_ephemeral_keypair_def Let_def split: if_splits sum.splits)
next
  case (c_start s r t)
  then show ?case by (auto simp: client_start_handshake_def)
next
  case (c_ack s raw r t)
  then show ?case using client_ack_state [OF c_ack.hyps(2)] by auto
next
  case (c_hello s payload ps t)
  then show ?case
    using client_hello_frame [OF c_hello.hyps(2)] client_hello_authenticated [OF c_hello.hyps(2)]
    by auto
qed

text \<open>
  Claim C9. A client is never established with an unauthenticated server: in every state that
  a client configured with a CA file can reach, whatever messages it receives in whatever
  order, \<open>ESTABLISHED\<close> implies that the peer's certificate verifies under that CA, that a
  signature under it over both ephemeral keys was verified, and that the session key was
  derived from the ephemeral key so signed.
\<close>

theorem client_established_authenticated:
  assumes "client_reach P ca s" and "ca \<noteq> []" and "state s = ESTABLISHED"
  shows "authenticated P ca s"
  using client_reach_inv [OF assms(1)] assms(2,3) by blast

theorem client_established_authenticated_witness:
  "\<exists>c s. handshake toy_pki 0 toy_client toy_server = Some (c, s) \<and> state c = ESTABLISHED \<and>
     authenticated toy_pki ''ca.crt'' c"
proof -
  from handshake_runs [OF toy_dh_ok toy_fresh toy_accepts, of 0]
  obtain c s where hs: "handshake toy_pki 0 toy_client toy_server = Some (c, s)"
    and est: "state c = ESTABLISHED" by blast
  have "client_reach toy_pki ''ca.crt'' toy_client"
    unfolding toy_client_def by (rule c_init) (rule surjective_pairing)
  then have "client_reach toy_pki ''ca.crt'' c"
    using hs unfolding handshake_def
    by (auto split: prod.splits sum.splits list.splits) (blast intro: c_start c_ack c_hello)
  from client_established_authenticated [OF this _ est] have "authenticated toy_pki ''ca.crt'' c"
    by simp
  with hs est show ?thesis by blast
qed

end
