(* ===== verification/Handshake_Security.thy ===== *)
theory Handshake_Security
  imports Handshake_Props
begin

text \<open>
  What the server's half of the handshake guarantees against a peer that sends what it likes:
  certificates are checked before a key is derived, a certificate's holder must sign, and the
  two message sequences that get past both checks because
  \<^verbatim>\<open>server_handle_client_finished\<close> looks neither at the state nor at the CA setting.
\<close>

section \<open>Accepting and rejecting a CLIENT_HELLO\<close>

lemma derive_session_key_cases:
  assumes "derive_session_key P pub s = (r, t)"
  shows "t = s \<or> (\<exists>k. t = s\<lparr>cipher := Some k\<rparr>)"
  using assms by (auto simp: derive_session_key_def meth_defs split: sum.splits)

lemma derive_session_key_keeps:
  assumes "derive_session_key P pub s = (r, t)"
  shows "peer_cert t = peer_cert s \<and> ca_path t = ca_path s"
  using derive_session_key_cases [OF assms] by auto

lemma server_hello_checked:
  assumes "server_handle_client_hello P payload s = (ps, t)" and "ps \<noteq> [] \<or> cipher t \<noteq> cipher s"
  shows "verify_peer_cert P t = Inr True"
proof -
  have cong: "verify_peer_cert P u = Inr True \<Longrightarrow> ca_path v = ca_path u \<Longrightarrow>
      peer_cert v = peer_cert u \<Longrightarrow> verify_peer_cert P v = Inr True" for u v
    using verify_peer_cert_cong [of v u P] by simp
  show ?thesis
    using assms unfolding server_handle_client_hello_def guarded_def
    by (auto simp: meth_defs fail_handshake_def split: sum.splits prod.splits if_splits
        dest!: derive_session_key_keeps intro: cong)
qed

text \<open>
  Claim C22. A server configured with a CA derives a key and answers only for a certified
  peer: if \<^verbatim>\<open>server_handle_client_hello\<close> returns a SERVER_HELLO or changes the session's
  cipher, then the certificate it stored is signed by that CA.
\<close>

theorem server_answers_certified_only:
  assumes "server_handle_client_hello P payload s = (ps, t)"
    and "ps \<noteq> [] \<or> cipher t \<noteq> cipher s" and "ca_path t = Some ca" and "ca \<noteq> []"
  shows "\<exists>cert cacert. peer_cert t = Some cert \<and> load_certificate P ca = Inr cacert \<and>
    verify_certificate P cert cacert"
  using server_hello_checked [OF assms(1,2)] assms(3,4)
  by (auto simp: verify_peer_cert_def res_bind_Inr_iff split: option.splits)

lemma server_answers:
  assumes dh: "dh_ok P H" and f: "fresh P H s" and a: "H a"
    and pc: "length cb < 65536" "load_peer_cert P cb = Inr pc"
      "verify_peer_cert P (s\<lparr>peer_cert := pc\<rparr>) = Inr True"
    and sg: "\<And>data. \<exists>sig. sign P (local_key_path s) data = Inr sig \<and> length sig < 65536"
    and own: "length (or_empty (local_cert_bytes s)) < 65536"
  shows "\<exists>h m k. pack_cert_and_pubkey cb (public_key_to_bytes P (x25519_public P a)) = Inr h \<and>
    derive_shared_key P a (public_eph s) (handshake_salt s) DATA_CHANNEL_INFO 32 = Inr k \<and>
    server_handle_client_hello P h s =
      ([m], after_hello s (public_key_to_bytes P (x25519_public P a)) pc k HELLO_SENT)"
proof -
  let ?pub = "public_key_to_bytes P (x25519_public P a)"
  let ?mine = "public_key_to_bytes P (public_eph s)"
  have l: "length ?pub = 32" "length ?mine = 32"
    using dh by (simp_all add: public_key_to_bytes_def dh_ok_raw)
  from f have s: "H (private_eph s)" "public_eph s = x25519_public P (private_eph s)"
    "length (session_id s) = 8" by (simp_all add: fresh_def)
  obtain h where h: "pack_cert_and_pubkey cb ?pub = Inr h"
    using pc(1) l by (simp add: pack_cert_and_pubkey_Inr_iff)
  obtain cp where cp: "pack_cert_and_pubkey (or_empty (local_cert_bytes s)) ?mine = Inr cp"
    using own l by (simp add: pack_cert_and_pubkey_Inr_iff)
  from derive_shared_key_agree [OF dh a s(1)] obtain k where k: "length k = 32"
    "derive_shared_key P a (public_eph s) (handshake_salt s) DATA_CHANNEL_INFO 32 = Inr k"
    "derive_shared_key P (private_eph s) (x25519_public P a) (handshake_salt s)
      DATA_CHANNEL_INFO 32 = Inr k"
    unfolding s(2) by blast
  from sg obtain sig where sig: "sign P (local_key_path s) (?pub @ ?mine) = Inr sig"
    "length sig < 65536" by blast
  then obtain sl where sl: "pack_lv sig = Inr sl" by (simp add: pack_lv_Inr_iff)
  obtain m where m: "encode_handshake_message (msg_val SERVER_HELLO) (of_be (session_id s)) (cp @ sl)
      = Inr m"
    using encode_handshake_ok [OF s(3)] by blast
  from server_hello_ok [OF h pc(2,3) dh_ok_raw(2) [OF dh] k(3,1) sig(1) sl cp m] h k(2)
  show ?thesis by (auto simp: after_hello_def)
qed

lemma toy_server_signs:
  "\<exists>sig. sign toy_pki (local_key_path toy_server) data = Inr sig \<and> length sig < 65536"
  by (simp add: toy_accept_defs toy_session_defs)

lemma toy_server_fields:
  "length (or_empty (local_cert_bytes toy_server)) < 65536" "ca_path toy_server = Some ''ca.crt''"
  by (simp_all add: toy_session_defs)

lemma toy_client_cert:
  "load_peer_cert toy_pki [3] = Inr (Some [3])"
  "verify_peer_cert toy_pki (toy_server\<lparr>peer_cert := Some [3]\<rparr>) = Inr True"
  by (simp_all add: toy_accept_defs toy_session_defs checksum_def)

theorem server_answers_certified_only_witness:
  "\<exists>h m t. server_handle_client_hello toy_pki h toy_server = ([m], t) \<and>
     (\<exists>cert cacert. peer_cert t = Some cert \<and> load_certificate toy_pki ''ca.crt'' = Inr cacert \<and>
       verify_certificate toy_pki cert cacert)"
proof -
  from server_answers [OF toy_dh_ok toy_fresh(2) _ _ toy_client_cert toy_server_signs
      toy_server_fields(1), of 11]
  obtain h m k where m: "server_handle_client_hello toy_pki h toy_server =
      ([m], after_hello toy_server (public_key_to_bytes toy_pki (x25519_public toy_pki 11))
        (Some [3]) k HELLO_SENT)"
    by auto
  have ca: "ca_path (after_hello toy_server q (Some [3]) k HELLO_SENT) = Some ''ca.crt''" for q
    by (simp add: after_hello_def toy_server_fields)
  from server_answers_certified_only [OF m _ ca] m show ?thesis by blast
qed

lemma certless_hello:
  assumes "pack_cert_and_pubkey [] pub = Inr h" and "ca_path s = Some ca" and "ca \<noteq> []"
  shows "server_handle_client_hello P h s =
    ([], s\<lparr>peer_pub_eph := Some pub, peer_cert := None, state := ERROR\<rparr>)"
proof -
  have "unpack_hello h 0 = Inr ([], pub, length h)"
    using unpack_hello_pack [OF assms(1), of "[]"] by simp
  moreover have "verify_peer_cert P (s\<lparr>peer_pub_eph := Some pub, peer_cert := None\<rparr>) = Inr False"
    using assms(2,3) by (simp add: verify_peer_cert_def)
  ultimately show ?thesis
    by (simp add: server_handle_client_hello_def guarded_def meth_defs load_peer_cert_def
        fail_handshake_def)
qed

text \<open>
  Mixed mode fails closed at the hello: a server configured with a CA answers a
  CLIENT_HELLO without certificate with nothing, goes to \<open>ERROR\<close> and keeps its cipher,
  whatever the state it was in.
\<close>

theorem server_rejects_certless_hello:
  assumes "pack_cert_and_pubkey [] pub = Inr h" and "ca_path s = Some ca" and "ca \<noteq> []"
  shows "server_handle_client_hello P h s =
    ([], s\<lparr>peer_pub_eph := Some pub, peer_cert := None, state := ERROR\<rparr>)"
  by (rule certless_hello [OF assms])

theorem server_rejects_certless_hello_witness:
  "pack_cert_and_pubkey [] [9] = Inr [0, 0, 0, 1, 9] \<and>
   server_handle_client_hello toy_pki [0, 0, 0, 1, 9] toy_server =
     ([], toy_server\<lparr>peer_pub_eph := Some [9], peer_cert := None, state := ERROR\<rparr>)"
proof -
  have "pack_cert_and_pubkey [] [9] = Inr [0, 0, 0, 1, 9]"
    by (simp add: pack_cert_and_pubkey_Inr_iff pydefs)
  with server_rejects_certless_hello [OF this toy_server_fields(2), of toy_pki] show ?thesis by simp
qed

section \<open>CLIENT_FINISHED\<close>

text \<open>
  Claim C23. A peer that presented a certificate must sign: with a stored peer certificate,
  \<^verbatim>\<open>server_handle_client_finished\<close> reaches \<open>ESTABLISHED\<close> exactly when the payload carries a
  signature that this certificate verifies over both ephemeral keys, and goes to \<open>ERROR\<close>
  otherwise; it never answers and changes nothing else.
\<close>

theorem finished_requires_signature:
  assumes "peer_cert s = Some cert"
  shows "server_handle_client_finished P payload s =
    ([], s\<lparr>state :=
       (if 2 \<le> length payload \<and>
           verify P cert (or_empty (peer_pub_eph s) @ public_key_to_bytes P (public_eph s))
             (slice payload 2 (2 + of_be (take 2 payload)))
        then ESTABLISHED else ERROR)\<rparr>)"
  using assms
  by (simp add: server_handle_client_finished_def guarded_def meth_defs unpack_def Let_def
      fail_handshake_def min_def)

theorem finished_requires_signature_witness:
  "server_handle_client_finished toy_pki [0, 2, 4, 7]
     (toy_server\<lparr>peer_cert := Some [3], peer_pub_eph := Some [1]\<rparr>) =
   ([], toy_server\<lparr>peer_cert := Some [3], peer_pub_eph := Some [1], state := ERROR\<rparr>)"
proof -
  let ?s = "toy_server\<lparr>peer_cert := Some [3], peer_pub_eph := Some [1]\<rparr>"
  have "\<not> verify toy_pki [3] (or_empty (peer_pub_eph ?s) @ public_key_to_bytes toy_pki (public_eph ?s))
      (slice [0, 2, 4, 7] 2 (2 + of_be (take 2 [0, 2, 4, 7])))"
    by (simp add: toy_pki_def verify_def slice_def of_be_def)
  then show ?thesis using finished_requires_signature [of ?s "[3]" toy_pki "[0, 2, 4, 7]"] by simp
qed

lemma certless_finished:
  assumes "peer_cert s = None" and "2 \<le> length payload"
  shows "server_handle_client_finished P payload s = ([], s\<lparr>state := ESTABLISHED\<rparr>)"
  using assms
  by (simp add: server_handle_client_finished_def guarded_def meth_defs unpack_def Let_def min_def)

text \<open>
  Without a stored peer certificate nothing is required: whatever the state, and
  whether or not a CA is configured, any CLIENT_FINISHED payload of at least two bytes makes
  the server's session \<open>ESTABLISHED\<close>, with the cipher it happens to have. In particular a peer
  that has sent no hello at all, or whose hello was rejected, is established.
\<close>

theorem finished_without_certificate_establishes:
  assumes "peer_cert s = None" and "2 \<le> length payload"
  shows "server_handle_client_finished P payload s = ([], s\<lparr>state := ESTABLISHED\<rparr>)"
  by (rule certless_finished [OF assms])

lemma toy_server_no_cert: "peer_cert toy_server = None"
  by (simp add: toy_session_defs)

theorem finished_without_certificate_establishes_witness:
  "ca_path toy_server = Some ''ca.crt'' \<and> cipher toy_server = None \<and>
   server_handle_client_finished toy_pki [0, 0] toy_server = ([], toy_server\<lparr>state := ESTABLISHED\<rparr>)"
  using finished_without_certificate_establishes [OF toy_server_no_cert, of "[0, 0]" toy_pki]
  by (simp add: toy_server_fields) (simp add: toy_session_defs)

text \<open>
  Claim C24. Takeover with somebody else's certificate: a peer that only knows the (public)
  certificate of a legitimate client, and none of its private keys, gets a session
  \<open>ESTABLISHED\<close> with a cipher whose key it can compute. It sends that certificate with an
  ephemeral key of its own, then a hello with neither certificate nor key, which the server
  rejects but which erases the stored certificate, then an empty CLIENT_FINISHED.
\<close>

theorem stolen_certificate_takeover:
  assumes dh: "dh_ok P H" and f: "fresh P H s" and a: "H a"
    and ca: "ca_path s = Some ca" "ca \<noteq> []"
    and pc: "length cb < 65536" "load_peer_cert P cb = Inr (Some cert)"
      "verify_peer_cert P (s\<lparr>peer_cert := Some cert\<rparr>) = Inr True"
    and sg: "\<And>data. \<exists>sig. sign P (local_key_path s) data = Inr sig \<and> length sig < 65536"
    and own: "length (or_empty (local_cert_bytes s)) < 65536"
  shows "\<exists>h1 m s1 s2 s3 k.
    pack_cert_and_pubkey cb (public_key_to_bytes P (x25519_public P a)) = Inr h1 \<and>
    server_handle_client_hello P h1 s = ([m], s1) \<and>
    server_handle_client_hello P [0, 0, 0, 0] s1 = ([], s2) \<and>
    server_handle_client_finished P [0, 0] s2 = ([], s3) \<and>
    state s3 = ESTABLISHED \<and> cipher s3 = Some (Cipher k) \<and>
    derive_shared_key P a (public_eph s) (handshake_salt s) DATA_CHANNEL_INFO 32 = Inr k"
proof -
  from server_answers [OF dh f a pc sg own] obtain h m k where
    h: "pack_cert_and_pubkey cb (public_key_to_bytes P (x25519_public P a)) = Inr h"
      "derive_shared_key P a (public_eph s) (handshake_salt s) DATA_CHANNEL_INFO 32 = Inr k"
      "server_handle_client_hello P h s =
        ([m], after_hello s (public_key_to_bytes P (x25519_public P a)) (Some cert) k HELLO_SENT)"
    (is "_ = ([m], ?s1)")
    by blast
  let ?s2 = "?s1\<lparr>peer_pub_eph := Some [], peer_cert := None, state := ERROR\<rparr>"
  have e: "pack_cert_and_pubkey [] [] = Inr [0, 0, 0, 0]"
    by (simp add: pack_cert_and_pubkey_Inr_iff pydefs)
  have h2: "server_handle_client_hello P [0, 0, 0, 0] ?s1 = ([], ?s2)"
    using certless_hello [OF e, of ?s1 ca P] ca by (simp add: after_hello_def)
  have fin: "server_handle_client_finished P [0, 0] ?s2 = ([], ?s2\<lparr>state := ESTABLISHED\<rparr>)"
    by (intro certless_finished) simp_all
  have "cipher (?s2\<lparr>state := ESTABLISHED\<rparr>) = Some (Cipher k)" by (simp add: after_hello_def)
  moreover have "state (?s2\<lparr>state := ESTABLISHED\<rparr>) = ESTABLISHED" by simp
  ultimately show ?thesis using h h2 fin by blast
qed

theorem stolen_certificate_takeover_witness:
  "\<exists>h1 m s1 s2 s3 k.
    pack_cert_and_pubkey [3] (public_key_to_bytes toy_pki (x25519_public toy_pki 99)) = Inr h1 \<and>
    server_handle_client_hello toy_pki h1 toy_server = ([m], s1) \<and>
    server_handle_client_hello toy_pki [0, 0, 0, 0] s1 = ([], s2) \<and>
    server_handle_client_finished toy_pki [0, 0] s2 = ([], s3) \<and>
    state s3 = ESTABLISHED \<and> cipher s3 = Some (Cipher k) \<and>
    derive_shared_key toy_pki 99 (public_eph toy_server) (handshake_salt toy_server)
      DATA_CHANNEL_INFO 32 = Inr k"
  by (rule stolen_certificate_takeover [OF toy_dh_ok toy_fresh(2) TrueI toy_server_fields(2) _ _
        toy_client_cert toy_server_signs toy_server_fields(1)])
    simp_all

end
