(* ===== verification/Replay.thy ===== *)
theory Replay
  imports Py_Prelude
begin

unbundle bit_operations_syntax

text \<open>
  Replay protection, \<^verbatim>\<open>src/protocol/replay.py\<close>: the sliding-bitmap \<^verbatim>\<open>ReplayWindow\<close> on Python
  integers, its abstract specification (the set of accepted packet ids), the interface
  \<open>anti_replay\<close> that the data channel relies on, and the proof that the bitmap implements it.
\<close>

section \<open>The bitmap window\<close>

record replay_window =
  window_size :: int
  highest :: int
  seen :: int

definition MAX_WINDOW :: int where
  "MAX_WINDOW = 64"

definition new_window :: "int \<Rightarrow> replay_window res" where
  "new_window wsize =
     (if wsize < 1 \<or> MAX_WINDOW < wsize then Inl ValueError
      else Inr \<lparr>window_size = wsize, highest = -1, seen = 0\<rparr>)"

definition check :: "int \<Rightarrow> replay_window \<Rightarrow> bool \<times> replay_window" where
  "check packet_id w =
     (if packet_id < 0 then (False, w)
      else if highest w = -1 then (True, w\<lparr>highest := packet_id, seen := 1\<rparr>)
      else if highest w < packet_id then
        let delta = packet_id - highest w;
            s = (if window_size w \<le> delta then 0 else push_bit (nat delta) (seen w))
        in (True, w\<lparr>seen := s OR 1, highest := packet_id\<rparr>)
      else
        let delta = highest w - packet_id in
        if window_size w \<le> delta then (False, w)
        else if seen w AND push_bit (nat delta) 1 \<noteq> 0 then (False, w)
        else (True, w\<lparr>seen := seen w OR push_bit (nat delta) 1\<rparr>))"

definition reset :: "replay_window \<Rightarrow> replay_window" where
  "reset w = w\<lparr>highest := -1, seen := 0\<rparr>"

section \<open>The abstract specification\<close>

text \<open>
  What a receiver with a window of width \<open>W\<close> that has accepted the ids \<open>A\<close> must do: accept
  a non-negative id that is new and not \<open>W\<close> or more below the largest accepted one.
\<close>

definition spec_accept :: "int \<Rightarrow> int set \<Rightarrow> int \<Rightarrow> bool" where
  "spec_accept W A p \<longleftrightarrow> 0 \<le> p \<and> p \<notin> A \<and> (A = {} \<or> Max A - p < W)"

fun run_checks :: "(int \<Rightarrow> 's \<Rightarrow> bool \<times> 's) \<Rightarrow> int list \<Rightarrow> 's \<Rightarrow> bool list \<times> 's" where
  "run_checks chk [] s = ([], s)"
| "run_checks chk (p # ps) s =
     (case chk p s of (b, t) \<Rightarrow> case run_checks chk ps t of (bs, u) \<Rightarrow> (b # bs, u))"

fun spec_run :: "int \<Rightarrow> int list \<Rightarrow> int set \<Rightarrow> bool list \<times> int set" where
  "spec_run W [] A = ([], A)"
| "spec_run W (p # ps) A =
     (let b = spec_accept W A p in
      case spec_run W ps (if b then insert p A else A) of (bs, B) \<Rightarrow> (b # bs, B))"

definition accepted :: "bool list \<Rightarrow> int list \<Rightarrow> int list" where
  "accepted bs ps = map snd (filter fst (zip bs ps))"

lemma accepted_Cons [simp]:
  "accepted (b # bs) (p # ps) = (if b then [p] else []) @ accepted bs ps"
  by (simp add: accepted_def)

lemma accepted_Nil [simp]: "accepted [] ps = []"
  by (simp add: accepted_def)

lemma spec_run_fresh:
  "distinct (accepted (fst (spec_run W ps A)) ps) \<and>
   set (accepted (fst (spec_run W ps A)) ps) \<inter> A = {}"
proof (induction ps arbitrary: A)
  case (Cons p ps)
  let ?B = "if spec_accept W A p then insert p A else A"
  from Cons [of ?B] show ?case
    by (auto simp: Let_def spec_accept_def split: prod.splits if_splits)
qed simp

lemma spec_run_accepts_window:
  "distinct ps \<Longrightarrow> 0 \<le> a \<Longrightarrow> set ps \<subseteq> {a..<a + W} \<Longrightarrow> set ps \<inter> A = {} \<Longrightarrow>
     finite A \<Longrightarrow> \<forall>x\<in>A. x < a + W \<Longrightarrow>
     fst (spec_run W ps A) = replicate (length ps) True"
proof (induction ps arbitrary: A)
  case (Cons p ps)
  have "spec_accept W A p"
  proof (cases "A = {}")
    case False
    with Cons.prems have "Max A < a + W" by simp
    with Cons.prems show ?thesis by (auto simp: spec_accept_def)
  qed (use Cons.prems in \<open>auto simp: spec_accept_def\<close>)
  moreover from Cons.prems
  have "fst (spec_run W ps (insert p A)) = replicate (length ps) True"
    by (intro Cons.IH) auto
  ultimately show ?case by (auto simp: Let_def split: prod.splits)
qed simp

lemma spec_run_accepts_increasing:
  "sorted_wrt (<) ps \<Longrightarrow> \<forall>p\<in>set ps. 0 \<le> p \<and> (\<forall>x\<in>A. x < p) \<Longrightarrow> finite A \<Longrightarrow> 0 < W \<Longrightarrow>
     fst (spec_run W ps A) = replicate (length ps) True"
proof (induction ps arbitrary: A)
  case (Cons p ps)
  have "Max A - p < W" if "A \<noteq> {}"
  proof -
    from that Cons.prems have "Max A < p" by simp
    with Cons.prems(4) show ?thesis by linarith
  qed
  with Cons.prems have "spec_accept W A p" by (auto simp: spec_accept_def)
  moreover from Cons.prems
  have "fst (spec_run W ps (insert p A)) = replicate (length ps) True"
    by (intro Cons.IH) auto
  ultimately show ?case by (auto simp: Let_def split: prod.splits)
qed simp

section \<open>The interface\<close>

locale anti_replay =
  fixes chk :: "int \<Rightarrow> 's \<Rightarrow> bool \<times> 's"
    and width :: "'s \<Rightarrow> int"
    and rel :: "int set \<Rightarrow> 's \<Rightarrow> bool"
  assumes chk_spec: "rel A s \<Longrightarrow> fst (chk p s) = spec_accept (width s) A p"
    and chk_rel: "rel A s \<Longrightarrow>
      rel (if spec_accept (width s) A p then insert p A else A) (snd (chk p s))"
    and chk_width: "width (snd (chk p s)) = width s"
    and rel_finite: "rel A s \<Longrightarrow> finite A"
begin

lemma run_refines:
  "rel A s \<Longrightarrow>
     fst (run_checks chk ps s) = fst (spec_run (width s) ps A) \<and>
     rel (snd (spec_run (width s) ps A)) (snd (run_checks chk ps s)) \<and>
     width (snd (run_checks chk ps s)) = width s"
proof (induction ps arbitrary: A s)
  case (Cons p ps)
  obtain b t where chk: "chk p s = (b, t)" by fastforce
  let ?B = "if spec_accept (width s) A p then insert p A else A"
  from Cons.prems chk have b: "b = spec_accept (width s) A p" using chk_spec [of A s p] by simp
  from Cons.prems chk have "rel ?B t" using chk_rel [of A s p] by simp
  moreover from chk have "width t = width s" using chk_width [of p s] by simp
  ultimately show ?case using Cons.IH [of ?B t] b chk
    by (auto simp: Let_def split: prod.splits)
qed simp

lemma run_distinct:
  assumes "rel A s"
  shows "distinct (accepted (fst (run_checks chk ps s)) ps)"
    and "set (accepted (fst (run_checks chk ps s)) ps) \<inter> A = {}"
  using run_refines [OF assms, of ps] spec_run_fresh [of "width s" ps A] by simp_all

lemma run_accepts_window:
  assumes "rel A s" and "distinct ps" and "0 \<le> a" and "set ps \<subseteq> {a..<a + width s}"
    and "\<forall>x\<in>A. x < a"
  shows "fst (run_checks chk ps s) = replicate (length ps) True"
proof -
  have "set ps \<inter> A = {}" using assms(4,5) by fastforce
  moreover have "\<forall>x\<in>A. x < a + width s" if "ps \<noteq> []"
  proof -
    from that assms(4) have "0 < width s" by (cases ps) auto
    with assms(5) show ?thesis by fastforce
  qed
  ultimately show ?thesis
    using run_refines [OF assms(1), of ps] rel_finite [OF assms(1)] assms
      spec_run_accepts_window [of ps a "width s" A]
    by (cases "ps = []") auto
qed

lemma run_accepts_increasing:
  assumes "rel A s" and "sorted_wrt (<) ps" and "\<forall>p\<in>set ps. 0 \<le> p \<and> (\<forall>x\<in>A. x < p)"
    and "0 < width s"
  shows "fst (run_checks chk ps s) = replicate (length ps) True"
  using run_refines [OF assms(1), of ps] rel_finite [OF assms(1)]
    spec_run_accepts_increasing [OF assms(2,3) _ assms(4)]
  by simp

text \<open>Once an id is rejected it stays rejected, whatever other ids come in between.\<close>

lemma spec_stays:
  assumes "\<not> spec_accept W A p" and "finite B" and "A \<subseteq> B"
  shows "\<not> spec_accept W B p"
proof (cases "A = {} \<or> B = {}")
  case True
  with assms show ?thesis by (auto simp: spec_accept_def)
next
  case False
  with assms(2,3) have "Max A \<le> Max B" by (intro Max_mono) auto
  with assms False show ?thesis by (auto simp: spec_accept_def)
qed

lemma chk_stays:
  assumes "rel A s" and "\<not> fst (chk p s)"
  shows "\<not> fst (chk p (snd (chk q s)))"
proof -
  let ?B = "if spec_accept (width s) A q then insert q A else A"
  have B: "rel ?B (snd (chk q s))" by (rule chk_rel [OF assms(1)])
  moreover from assms have "\<not> spec_accept (width s) A p" by (simp add: chk_spec)
  then have "\<not> spec_accept (width s) ?B p" by (rule spec_stays) (use rel_finite [OF B] in auto)
  ultimately show ?thesis by (simp add: chk_spec chk_width)
qed

lemma chk_twice:
  assumes "rel A s" and "fst (chk p s)"
  shows "\<not> fst (chk p (snd (chk p s)))"
proof -
  from assms have "spec_accept (width s) A p" by (simp add: chk_spec)
  with chk_rel [OF assms(1), of p] have "rel (insert p A) (snd (chk p s))" by simp
  then show ?thesis by (simp add: chk_spec spec_accept_def)
qed

end

section \<open>The bitmap implements the specification\<close>

text \<open>
  The bitmap describes the accepted ids inside the window only; which older ids were
  accepted is forgotten, and need not be known.
\<close>

definition window_rel :: "int set \<Rightarrow> replay_window \<Rightarrow> bool" where
  "window_rel A w \<longleftrightarrow>
     finite A \<and> (\<forall>x\<in>A. 0 \<le> x) \<and> 0 < window_size w \<and>
     highest w = (if A = {} then -1 else Max A) \<and>
     (A \<noteq> {} \<longrightarrow> (\<forall>d. int d < window_size w \<longrightarrow> (bit (seen w) d \<longleftrightarrow> highest w - int d \<in> A)))"

lemma and_exp_iff: "(s :: int) AND 2 ^ n = 0 \<longleftrightarrow> \<not> bit s n"
  by (rule and_exp_eq_0_iff_not_bit)

lemma window_rel_empty: "new_window n = Inr w \<Longrightarrow> window_rel {} w"
  by (auto simp: new_window_def window_rel_def split: if_splits)

lemma window_rel_reset: "window_rel A w \<Longrightarrow> window_rel {} (reset w)"
  by (auto simp: window_rel_def reset_def)

lemma window_rel_max:
  assumes "window_rel A w" and "A \<noteq> {}"
  shows "highest w = Max A" and "0 \<le> highest w" and "x \<in> A \<Longrightarrow> x \<le> highest w"
    and "highest w \<in> A"
  using assms by (auto simp: window_rel_def)

lemma window_rel_bit_at:
  assumes "window_rel A w" and "A \<noteq> {}" and "p \<le> highest w" and "highest w - p < window_size w"
  shows "bit (seen w) (nat (highest w - p)) \<longleftrightarrow> p \<in> A"
proof -
  from assms(3) have n: "int (nat (highest w - p)) = highest w - p" by simp
  from assms(1,2) have "\<forall>d. int d < window_size w \<longrightarrow> bit (seen w) d = (highest w - int d \<in> A)"
    by (simp add: window_rel_def)
  from this [rule_format, of "nat (highest w - p)"] assms(4) n show ?thesis by simp
qed

lemma check_refines:
  assumes "window_rel A w"
  shows "fst (check p w) = spec_accept (window_size w) A p"
proof (cases "A = {} \<or> p < 0")
  case True
  with assms show ?thesis by (auto simp: check_def spec_accept_def window_rel_def)
next
  case False
  then have ne: "A \<noteq> {}" and p: "0 \<le> p" by auto
  note m = window_rel_max [OF assms ne]
  from m(2) have "highest w \<noteq> -1" by simp
  show ?thesis
  proof (cases "highest w < p")
    case True
    with m have "p \<notin> A" by fastforce
    moreover have "0 < window_size w" using assms by (simp add: window_rel_def)
    ultimately show ?thesis using True p m(1) \<open>highest w \<noteq> -1\<close>
      by (simp add: check_def spec_accept_def Let_def)
  next
    case below: False
    let ?d = "nat (highest w - p)"
    have "highest w - p < window_size w \<Longrightarrow> bit (seen w) ?d \<longleftrightarrow> p \<in> A"
      using window_rel_bit_at [OF assms ne] below by simp
    with below p m(1) \<open>highest w \<noteq> -1\<close> ne show ?thesis
      by (auto simp: check_def spec_accept_def Let_def and_exp_iff)
  qed
qed

lemma check_rel_above:
  assumes rel: "window_rel A w" and ne: "A \<noteq> {}" and above: "highest w < p"
  shows "window_rel (insert p A) (snd (check p w))"
proof -
  note m = window_rel_max [OF rel ne]
  let ?W = "window_size w" and ?k = "p - highest w"
  let ?s = "if ?W \<le> ?k then 0 else push_bit (nat ?k) (seen w)"
  have chk: "snd (check p w) = w\<lparr>seen := ?s OR 1, highest := p\<rparr>"
    using m(2) above by (auto simp: check_def Let_def)
  have "Max (insert p A) = max p (Max A)"
    using rel ne by (intro Max_insert) (simp_all add: window_rel_def)
  with above m(1) have "Max (insert p A) = p" by simp
  moreover have "bit (?s OR 1) d \<longleftrightarrow> p - int d \<in> insert p A" if d: "int d < ?W" for d
  proof (cases "d = 0")
    case False
    show ?thesis
    proof (cases "int d < ?k")
      case True
      then have "p - int d \<notin> insert p A" using False m(3) [of "p - int d"] by auto
      moreover have "\<not> bit ?s d" using True by (auto simp: bit_push_bit_iff_int)
      ultimately show ?thesis using False by (simp add: bit_or_iff bit_1_iff)
    next
      case ge: False
      with d have "?k < ?W" by simp
      moreover have "highest w - int (d - nat ?k) = p - int d" using ge above by simp
      moreover have "int (d - nat ?k) < ?W" using d by simp
      ultimately have "bit (seen w) (d - nat ?k) \<longleftrightarrow> p - int d \<in> A"
        using rel ne by (metis window_rel_def)
      with False ge \<open>?k < ?W\<close> show ?thesis
        by (auto simp: bit_or_iff bit_1_iff bit_push_bit_iff_int)
    qed
  qed (simp add: bit_or_iff)
  ultimately show ?thesis using rel above m(2) by (simp add: window_rel_def chk)
qed

lemma check_rel_below:
  assumes rel: "window_rel A w" and ne: "A \<noteq> {}" and below: "\<not> highest w < p"
    and acc: "spec_accept (window_size w) A p"
  shows "window_rel (insert p A) (snd (check p w))"
proof -
  note m = window_rel_max [OF rel ne]
  from acc ne m(1) have p: "0 \<le> p" "p \<notin> A" "highest w - p < window_size w"
    by (auto simp: spec_accept_def)
  let ?n = "nat (highest w - p)"
  have nb: "\<not> bit (seen w) ?n" using window_rel_bit_at [OF rel ne] p below by simp
  have chk: "snd (check p w) = w\<lparr>seen := seen w OR push_bit ?n 1\<rparr>"
    using m(2) below p nb by (simp add: check_def Let_def and_exp_iff)
  have "Max (insert p A) = max p (Max A)"
    using rel ne by (intro Max_insert) (simp_all add: window_rel_def)
  with below m(1) have "Max (insert p A) = highest w" by simp
  moreover have "bit (seen w OR push_bit ?n 1) d \<longleftrightarrow> highest w - int d \<in> insert p A"
    if "int d < window_size w" for d
  proof -
    have "bit (seen w) d \<longleftrightarrow> highest w - int d \<in> A" using rel ne that by (simp add: window_rel_def)
    moreover have "bit (push_bit ?n 1 :: int) d \<longleftrightarrow> highest w - int d = p"
      using below by (auto simp: bit_push_bit_iff_int bit_1_iff simp del: push_bit_of_1)
    ultimately show ?thesis unfolding bit_or_iff by auto
  qed
  ultimately show ?thesis using rel p by (simp add: window_rel_def chk)
qed

lemma check_rejected_same: "\<not> fst (check p w) \<Longrightarrow> snd (check p w) = w"
  by (auto simp: check_def Let_def split: if_splits)

lemma check_rel:
  assumes "window_rel A w"
  shows "window_rel (if spec_accept (window_size w) A p then insert p A else A) (snd (check p w))"
proof (cases "spec_accept (window_size w) A p")
  case False
  with check_refines [OF assms, of p] check_rejected_same [of p w] assms show ?thesis by simp
next
  case True
  show ?thesis
  proof (cases "A = {}")
    case empty: True
    with True assms have "snd (check p w) = w\<lparr>highest := p, seen := 1\<rparr>"
      by (auto simp: check_def spec_accept_def window_rel_def)
    with True empty assms show ?thesis
      by (auto simp: window_rel_def spec_accept_def bit_1_iff)
  next
    case False
    with True check_rel_above [OF assms False] check_rel_below [OF assms False _ True]
    show ?thesis by (cases "highest w < p") auto
  qed
qed

lemma check_window_size: "window_size (snd (check p w)) = window_size w"
  by (simp add: check_def Let_def)

interpretation rw: anti_replay check window_size window_rel
proof unfold_locales
  fix A w assume "window_rel A w"
  then show "finite A" by (simp add: window_rel_def)
qed (simp_all add: check_refines check_rel check_window_size)

end
