(* ===== verification/Data_Channel.thy ===== *)
theory Data_Channel
  imports Packet Replay Crypto
begin

text \<open>
  The data channel, \<^verbatim>\<open>src/protocol/data.py\<close>: per-packet encryption under a packet counter,
  optional compression, fragmentation and reassembly, replay protection. The clock
  (\<^verbatim>\<open>time.time()\<close>) and the nonces (\<^verbatim>\<open>os.urandom(12)\<close>, one per packet of a call) are arguments.
\<close>

section \<open>State\<close>

definition MAX_PAYLOAD :: nat where
  "MAX_PAYLOAD = 1400"

definition FRAG_TIMEOUT :: real where
  "FRAG_TIMEOUT = 5"

definition FRAG_MASK :: byte where
  "FRAG_MASK = 0x80"

definition COMP_NONE :: byte where
  "COMP_NONE = 0"

definition COMP_LZO :: byte where
  "COMP_LZO = 1"

lemmas dc_consts = MAX_PAYLOAD_def FRAG_TIMEOUT_def FRAG_MASK_def COMP_NONE_def COMP_LZO_def

record frag_buf =
  fb_total :: nat
  fb_fragments :: "(nat \<times> bytes) list"
  fb_ts :: real

record data_channel =
  shared_id :: bytes
  dc_cipher :: "cipher option"
  packet_counter :: nat
  comp_lzo :: bool
  fragments :: "(int \<times> frag_buf) list"
  replay :: replay_window

definition derive_session_id :: "bytes \<Rightarrow> bytes \<Rightarrow> bytes" where
  "derive_session_id our_id peer_id = map2 (XOR) our_id peer_id"

definition new_data_channel ::
  "prims \<Rightarrow> bytes \<Rightarrow> bytes \<Rightarrow> cipher option \<Rightarrow> bool \<Rightarrow> int \<Rightarrow> data_channel res" where
  "new_data_channel E our_id peer_id c lzo window =
     res_bind (new_window window) (\<lambda>w.
     Inr \<lparr>shared_id = derive_session_id our_id peer_id, dc_cipher = c, packet_counter = 0,
          comp_lzo = (lzo \<and> has_lz4 E), fragments = [], replay = w\<rparr>)"

section \<open>Sending\<close>

definition compress_inner :: "prims \<Rightarrow> data_channel \<Rightarrow> bytes \<Rightarrow> bytes" where
  "compress_inner E ch plaintext =
     (if comp_lzo ch \<and> 32 < length plaintext then
        let compressed = lz4_compress E plaintext in
        if length compressed < length plaintext
        then COMP_LZO # compressed
        else COMP_NONE # plaintext
      else COMP_NONE # plaintext)"

definition encrypt_one ::
  "prims \<Rightarrow> bytes \<Rightarrow> data_channel \<Rightarrow> bytes \<Rightarrow> nat \<Rightarrow> bytes res" where
  "encrypt_one E nonce ch plaintext counter =
     res_bind (pack 4 counter) (\<lambda>counter_bytes.
     let aad = shared_id ch @ counter_bytes; inner = compress_inner E ch plaintext in
     res_bind (of_opt AttributeError (dc_cipher ch)) (\<lambda>c.
     let encrypted = cipher_encrypt E nonce c inner (Some aad) in
     encode_packet DATA (of_be (shared_id ch)) (counter_bytes @ encrypted)))"

definition frag_payload :: "bytes \<Rightarrow> nat \<Rightarrow> nat \<Rightarrow> bytes res" where
  "frag_payload plaintext tot i =
     res_bind (pack 1 tot) (\<lambda>t.
     res_bind (pack 1 i) (\<lambda>ix.
     let offset = i * MAX_PAYLOAD; chunk = slice plaintext offset (offset + MAX_PAYLOAD) in
     Inr ([FRAG_MASK OR COMP_NONE] @ (t @ ix) @ chunk)))"

fun encrypt_frags ::
  "prims \<Rightarrow> (nat \<Rightarrow> bytes) \<Rightarrow> data_channel \<Rightarrow> bytes \<Rightarrow> nat \<Rightarrow> nat \<Rightarrow> nat list \<Rightarrow> bytes list res"
where
  "encrypt_frags E rnd ch plaintext start tot [] = Inr []"
| "encrypt_frags E rnd ch plaintext start tot (i # is) =
     res_bind (frag_payload plaintext tot i) (\<lambda>payload.
     res_bind (encrypt_one E (rnd i) ch payload (start + i)) (\<lambda>w.
     res_bind (encrypt_frags E rnd ch plaintext start tot is) (\<lambda>ws.
     Inr (w # ws))))"

definition num_frags :: "nat \<Rightarrow> nat" where
  "num_frags n = (n + MAX_PAYLOAD - 1) div MAX_PAYLOAD"

definition encrypt ::
  "prims \<Rightarrow> (nat \<Rightarrow> bytes) \<Rightarrow> bytes \<Rightarrow> (data_channel, bytes list) meth" where
  "encrypt E rnd plaintext ch0 =
     (let ch = ch0\<lparr>packet_counter := packet_counter ch0 + 1\<rparr> in
      if length plaintext \<le> MAX_PAYLOAD then
        (res_bind (encrypt_one E (rnd 0) ch plaintext (packet_counter ch)) (\<lambda>w. Inr [w]), ch)
      else
        let start = packet_counter ch; tot = num_frags (length plaintext) in
        case encrypt_frags E rnd ch plaintext start tot [0..<tot] of
          Inl e \<Rightarrow> (Inl e, ch)
        | Inr ws \<Rightarrow> (Inr ws, ch\<lparr>packet_counter := start + tot - 1\<rparr>))"

section \<open>Receiving\<close>

definition decompress_inner :: "prims \<Rightarrow> bytes \<Rightarrow> bytes option" where
  "decompress_inner E inner =
     (case inner of
        [] \<Rightarrow> None
      | comp_type # raw \<Rightarrow>
          if comp_type = COMP_LZO then (if has_lz4 E then lz4_decompress E raw else None)
          else if comp_type = COMP_NONE then Some raw
          else None)"

text \<open>\<^verbatim>\<open>b"".join(buf["fragments"][i] for i in range(tot))\<close>; a missing index is a KeyError.\<close>

fun join_frags :: "(nat \<times> bytes) list \<Rightarrow> nat list \<Rightarrow> bytes res" where
  "join_frags d [] = Inr []"
| "join_frags d (i # is) =
     (case map_of d i of
        None \<Rightarrow> Inl KeyError
      | Some b \<Rightarrow> res_bind (join_frags d is) (\<lambda>bs. Inr (b @ bs)))"

text \<open>Store one fragment; when its group is complete, return the joined plaintext.\<close>

definition add_fragment ::
  "real \<Rightarrow> int \<Rightarrow> nat \<Rightarrow> nat \<Rightarrow> bytes \<Rightarrow> (data_channel, bytes option) meth" where
  "add_fragment now group_id tot index raw ch =
     (let frs = (if map_of (fragments ch) group_id = None
                 then AList.update group_id
                        \<lparr>fb_total = tot, fb_fragments = [], fb_ts = now\<rparr> (fragments ch)
                 else fragments ch);
          buf = the (map_of frs group_id)
      in
        if fb_total buf \<noteq> tot then
          (Inr None, ch\<lparr>fragments := AList.delete group_id frs\<rparr>)
        else
          let buf' = buf\<lparr>fb_fragments := AList.update index raw (fb_fragments buf)\<rparr>;
              frs' = AList.update group_id buf' frs
          in
            if length (fb_fragments buf') = tot then
              (case join_frags (fb_fragments buf') [0..<tot] of
                 Inl e \<Rightarrow> (Inl e, ch\<lparr>fragments := frs'\<rparr>)
               | Inr data \<Rightarrow> (Inr (Some data), ch\<lparr>fragments := AList.delete group_id frs'\<rparr>))
            else (Inr None, ch\<lparr>fragments := frs'\<rparr>))"

text \<open>From the decompressed plaintext on: an unfragmented packet is returned, a fragment stored.\<close>

definition reassemble ::
  "real \<Rightarrow> nat \<Rightarrow> bytes \<Rightarrow> (data_channel, bytes option) meth" where
  "reassemble now pkt_counter plain ch =
     (if length plain < 1 then (Inr (Some plain), ch)
      else if plain ! 0 AND FRAG_MASK \<noteq> 0 then
        if length plain < 4 then (Inr None, ch)
        else
          let tot = unat (plain ! 1); index = unat (plain ! 2); raw = drop 3 plain;
              group_id = int pkt_counter - int index
          in add_fragment now group_id tot index raw ch
      else (Inr (Some plain), ch))"

definition open_packet :: "prims \<Rightarrow> data_channel \<Rightarrow> bytes \<Rightarrow> bytes option" where
  "open_packet E ch payload =
     (let counter_bytes = take 4 payload; encrypted = drop 4 payload;
          aad = shared_id ch @ counter_bytes in
      case res_bind (of_opt AttributeError (dc_cipher ch))
             (\<lambda>c. cipher_decrypt E c encrypted (Some aad)) of
        Inl e \<Rightarrow> None
      | Inr inner \<Rightarrow> if length inner < 1 then None else decompress_inner E inner)"

definition decrypt :: "prims \<Rightarrow> real \<Rightarrow> bytes \<Rightarrow> (data_channel, bytes option) meth" where
  "decrypt E now wire_data ch =
     (case decode_packet wire_data of
        Inl e \<Rightarrow> (Inr None, ch)
      | Inr (opcode, sid, payload) \<Rightarrow>
          if length payload < 4 + 12 + 16 + 1 then (Inr None, ch)
          else
            let pkt_counter = of_be (take 4 payload) in
            case check (int pkt_counter) (replay ch) of
              (False, w) \<Rightarrow> (Inr None, ch\<lparr>replay := w\<rparr>)
            | (True, w) \<Rightarrow>
                (case open_packet E (ch\<lparr>replay := w\<rparr>) payload of
                   None \<Rightarrow> (Inr None, ch\<lparr>replay := w\<rparr>)
                 | Some plain \<Rightarrow> reassemble now pkt_counter plain (ch\<lparr>replay := w\<rparr>)))"

definition cleanup_fragments :: "real \<Rightarrow> data_channel \<Rightarrow> data_channel" where
  "cleanup_fragments now ch =
     ch\<lparr>fragments := filter (\<lambda>(gid, buf). \<not> FRAG_TIMEOUT < now - fb_ts buf) (fragments ch)\<rparr>"

lemmas dc_defs [pydefs] =
  derive_session_id_def new_data_channel_def compress_inner_def encrypt_one_def frag_payload_def
  num_frags_def encrypt_def decompress_inner_def add_fragment_def reassemble_def open_packet_def decrypt_def
  dc_consts

section \<open>One packet\<close>

text \<open>
  Two channels of one session: the same shared id (of the at most 8 bytes that
  \<open>derive_session_id\<close> yields) and the same well-formed key.
\<close>

definition dc_paired :: "prims \<Rightarrow> data_channel \<Rightarrow> data_channel \<Rightarrow> bool" where
  "dc_paired E snd_ch rcv_ch \<longleftrightarrow>
     shared_id snd_ch = shared_id rcv_ch \<and> length (shared_id snd_ch) \<le> 8 \<and>
     (case dc_cipher snd_ch of None \<Rightarrow> False
      | Some c \<Rightarrow> cipher_wf c \<and> dc_cipher rcv_ch = Some c) \<and>
     (comp_lzo snd_ch \<longrightarrow> has_lz4 E)"

definition wire_id :: "bytes \<Rightarrow> nat" where
  "wire_id w = of_be (slice w 9 13)"

lemma derive_session_id_sym: "derive_session_id a b = derive_session_id b a"
proof (induction a arbitrary: b)
  case (Cons x xs)
  then show ?case by (cases b) (auto simp: derive_session_id_def ac_simps)
qed (simp add: derive_session_id_def)

lemma length_derive_session_id: "length (derive_session_id a b) = min (length a) (length b)"
  by (simp add: derive_session_id_def)

lemma of_be_shared_id: "length s \<le> 8 \<Longrightarrow> of_be s < 256 ^ 8"
proof -
  assume "length s \<le> 8"
  then have "(256::nat) ^ length s \<le> 256 ^ 8" by (intro power_increasing) auto
  with of_be_bound [of s] show ?thesis by linarith
qed

lemma of_be_shared_id_num: "length s \<le> 8 \<Longrightarrow> of_be s < 18446744073709551616"
  using of_be_shared_id [of s] by simp

lemma be_bytes_shared_id: "length s \<le> 8 \<Longrightarrow> of_be (be_bytes 8 (of_be s)) = of_be s"
  by (rule of_be_be_bytes_id) (rule of_be_shared_id)

lemma compress_inner_nonempty [simp]: "compress_inner E ch p \<noteq> []"
  by (simp add: compress_inner_def Let_def)

lemma decompress_compress:
  "lz4_ok E \<Longrightarrow> comp_lzo ch \<longrightarrow> has_lz4 E \<Longrightarrow> decompress_inner E (compress_inner E ch p) = Some p"
  by (simp add: compress_inner_def decompress_inner_def lz4_ok_def COMP_LZO_def COMP_NONE_def Let_def)

lemma encrypt_one_eq:
  assumes "dc_cipher ch = Some c" and "length (shared_id ch) \<le> 8" and "cnt < 256 ^ 4"
  shows "encrypt_one E n ch p cnt =
    Inr (5 # be_bytes 8 (of_be (shared_id ch)) @ be_bytes 4 cnt @
         cipher_encrypt E n c (compress_inner E ch p) (Some (shared_id ch @ be_bytes 4 cnt)))"
  using assms by (simp add: encrypt_one_def pack_def Let_def of_be_shared_id_num
      encode_packet_eq)

lemma encrypt_one_Inr:
  assumes "encrypt_one E n ch p cnt = Inr w" and "length (shared_id ch) \<le> 8"
  obtains c where "dc_cipher ch = Some c" and "cnt < 256 ^ 4"
proof -
  from assms have "cnt < 256 ^ 4" and "dc_cipher ch \<noteq> None"
    by (auto simp: encrypt_one_def res_bind_Inr_iff pack_Inr_iff of_opt_Inr_iff Let_def)
  with that show ?thesis by auto
qed

lemma wire_id_encrypt_one:
  assumes "encrypt_one E n ch p cnt = Inr w" and "length (shared_id ch) \<le> 8"
  shows "wire_id w = cnt"
proof -
  from encrypt_one_Inr [OF assms] obtain c where c: "dc_cipher ch = Some c" "cnt < 256 ^ 4" .
  let ?h = "be_bytes 8 (of_be (shared_id ch))"
  from encrypt_one_eq [OF c(1) assms(2) c(2), of E n p] assms(1)
  obtain tl where "w = (5 # ?h) @ be_bytes 4 cnt @ tl" by auto
  moreover have "slice ((5 # ?h) @ be_bytes 4 cnt @ tl) 9 13 = be_bytes 4 cnt"
    by (intro slice_mid) simp_all
  ultimately have "slice w 9 13 = be_bytes 4 cnt" by (simp only:)
  with c(2) show ?thesis by (simp add: wire_id_def)
qed

text \<open>
  The heart of the channel: what the peer does with a packet this side produced. Past the
  replay check it is left with exactly the plaintext, to reassemble.
\<close>

lemma decrypt_encrypt_one:
  assumes E: "aead_ok E" "lz4_ok E" and p: "dc_paired E c1 c2" and n: "length n = 12"
    and w: "encrypt_one E n c1 pt cnt = Inr w"
    and chk: "check (int cnt) (replay c2) = (True, rw)"
  shows "decrypt E now w c2 = reassemble now cnt pt (c2\<lparr>replay := rw\<rparr>)"
proof -
  from p obtain c where c: "dc_cipher c1 = Some c" "dc_cipher c2 = Some c" "cipher_wf c"
    and sid: "shared_id c2 = shared_id c1" "length (shared_id c1) \<le> 8"
    and lz: "comp_lzo c1 \<longrightarrow> has_lz4 E"
    by (auto simp: dc_paired_def split: option.splits)
  from encrypt_one_Inr [OF w sid(2)] have cnt: "cnt < 256 ^ 4" by blast
  let ?in = "compress_inner E c1 pt" and ?aad = "shared_id c1 @ be_bytes 4 cnt"
  let ?enc = "cipher_encrypt E n c ?in (Some ?aad)"
  from w encrypt_one_eq [OF c(1) sid(2) cnt, of E n pt]
  have "w = 5 # be_bytes 8 (of_be (shared_id c1)) @ be_bytes 4 cnt @ ?enc" by simp
  then have dec: "decode_packet w = Inr (DATA, of_be (shared_id c1), be_bytes 4 cnt @ ?enc)"
    using sid(2) by (simp add: decode_packet_Cons opcode_of_def be_bytes_shared_id)
  have "0 < length ?in" by simp
  then have len: "33 \<le> length (be_bytes 4 cnt @ ?enc)"
    using length_cipher_encrypt [OF E(1) c(3) n] by (simp add: Suc_le_eq)
  have "open_packet E (c2\<lparr>replay := rw\<rparr>) (be_bytes 4 cnt @ ?enc) = Some pt"
    using c sid lz E n by (simp add: open_packet_def Let_def cipher_decrypt_encrypt
        decompress_compress Suc_le_eq)
  with dec len chk cnt show ?thesis by (simp add: decrypt_def Let_def)
qed

end
