(* ===== verification/Reassembly.thy ===== *)
theory Reassembly
  imports Data_Channel
begin

text \<open>
  Sending and receiving a whole plaintext over the data channel: what \<open>encrypt\<close> produces,
  what the peer's \<open>decrypt\<close> makes of the packets in any order of arrival, and what replayed
  and forged packets do. The model is in \<open>Data_Channel\<close>.
\<close>

section \<open>Chunks\<close>

definition chunk :: "bytes \<Rightarrow> nat \<Rightarrow> bytes" where
  "chunk pt i = slice pt (i * MAX_PAYLOAD) (i * MAX_PAYLOAD + MAX_PAYLOAD)"

lemma concat_slices:
  "concat (map (\<lambda>i. slice xs (i * k) (i * k + k)) [0..<m]) = take (m * k) xs"
proof (induction m)
  case (Suc m)
  have "take (m * k + k) xs = take (m * k) xs @ take k (drop (m * k) xs)"
    by (rule take_add)
  moreover have "Suc m * k = m * k + k" by simp
  ultimately have "take (Suc m * k) xs = take (m * k) xs @ take k (drop (m * k) xs)"
    by (simp only:)
  with Suc show ?case by (simp add: slice_def)
qed simp

lemma num_frags_cover: "n \<le> num_frags n * MAX_PAYLOAD"
  by (simp add: num_frags_def MAX_PAYLOAD_def)

lemma num_frags_tight: "0 < n \<Longrightarrow> (num_frags n - 1) * MAX_PAYLOAD < n"
  by (simp add: num_frags_def MAX_PAYLOAD_def)

lemma num_frags_small: "n \<le> MAX_PAYLOAD \<Longrightarrow> num_frags n \<le> 1"
  by (simp add: num_frags_def MAX_PAYLOAD_def)

lemma num_frags_ge2: "MAX_PAYLOAD < n \<Longrightarrow> 2 \<le> num_frags n"
  by (simp add: num_frags_def MAX_PAYLOAD_def)

lemma concat_chunks: "concat (map (chunk pt) [0..<num_frags (length pt)]) = pt"
  using concat_slices [of pt MAX_PAYLOAD "num_frags (length pt)"] num_frags_cover [of "length pt"]
  by (simp add: chunk_def [abs_def])

lemma chunk_nonempty: "i < num_frags (length pt) \<Longrightarrow> chunk pt i \<noteq> []"
proof -
  assume i: "i < num_frags (length pt)"
  then have "0 < length pt"
    by (cases "length pt") (auto simp: num_frags_def MAX_PAYLOAD_def)
  then have "(num_frags (length pt) - 1) * MAX_PAYLOAD < length pt" by (rule num_frags_tight)
  moreover have "i * MAX_PAYLOAD \<le> (num_frags (length pt) - 1) * MAX_PAYLOAD"
    using i by (intro mult_right_mono) auto
  ultimately have "0 < length (chunk pt i)"
    by (simp add: chunk_def length_slice MAX_PAYLOAD_def)
  then show ?thesis by auto
qed

section \<open>What is sent\<close>

lemma frag_payload_Inr_iff:
  "frag_payload pt tot i = Inr p \<longleftrightarrow>
     tot < 256 \<and> i < 256 \<and> p = FRAG_MASK # word_of_nat tot # word_of_nat i # chunk pt i"
  by (auto simp: frag_payload_def res_bind_Inr_iff pack_Inr_iff chunk_def Let_def COMP_NONE_def)

lemma encrypt_frags_Inr:
  "encrypt_frags E rnd ch pt start tot is = Inr ws \<Longrightarrow>
     list_all2 (\<lambda>i w. \<exists>p. frag_payload pt tot i = Inr p \<and>
       encrypt_one E (rnd i) ch p (start + i) = Inr w) is ws"
  by (induction "is" arbitrary: ws) (auto simp: res_bind_Inr_iff)

lemma encrypt_frags_ok:
  "dc_cipher ch = Some c \<Longrightarrow> length (shared_id ch) \<le> 8 \<Longrightarrow>
     is_ok (encrypt_frags E rnd ch pt start tot is) \<longleftrightarrow>
     is = [] \<or> tot < 256 \<and> (\<forall>i\<in>set is. i < 256 \<and> start + i < 256 ^ 4)"
proof (induction "is")
  case (Cons i "is")
  show ?case
  proof (cases "tot < 256 \<and> i < 256 \<and> start + i < 256 ^ 4")
    case True
    then obtain p where p: "frag_payload pt tot i = Inr p" by (simp add: frag_payload_Inr_iff)
    from True Cons.prems obtain w where "encrypt_one E (rnd i) ch p (start + i) = Inr w"
      using encrypt_one_eq by blast
    with p True Cons show ?thesis
      by (cases "encrypt_frags E rnd ch pt start tot is") auto
  next
    case False
    have "\<not> is_ok (encrypt_frags E rnd ch pt start tot (i # is))"
    proof
      assume "is_ok (encrypt_frags E rnd ch pt start tot (i # is))"
      then obtain p w where "frag_payload pt tot i = Inr p"
        and w: "encrypt_one E (rnd i) ch p (start + i) = Inr w"
        by (auto simp: is_ok_iff res_bind_Inr_iff)
      with False encrypt_one_Inr [OF w Cons.prems(2)] show False
        by (auto simp: frag_payload_Inr_iff)
    qed
    with False show ?thesis by auto
  qed
qed simp

lemma encrypt_frame:
  "shared_id (snd (encrypt E rnd pt ch)) = shared_id ch"
  "dc_cipher (snd (encrypt E rnd pt ch)) = dc_cipher ch"
  "comp_lzo (snd (encrypt E rnd pt ch)) = comp_lzo ch"
  "fragments (snd (encrypt E rnd pt ch)) = fragments ch"
  "replay (snd (encrypt E rnd pt ch)) = replay ch"
  by (simp_all add: encrypt_def Let_def split: sum.splits)

text \<open>The counter set before the packets are built does not enter them.\<close>

lemma encrypt_one_counter [simp]:
  "encrypt_one E n (ch\<lparr>packet_counter := k\<rparr>) p cnt = encrypt_one E n ch p cnt"
  by (simp add: encrypt_one_def compress_inner_def)

lemma encrypt_frags_counter [simp]:
  "encrypt_frags E rnd (ch\<lparr>packet_counter := k\<rparr>) p start tot is =
   encrypt_frags E rnd ch p start tot is"
  by (induction "is") simp_all

lemma encrypt_small:
  "length pt \<le> MAX_PAYLOAD \<Longrightarrow> encrypt E rnd pt ch =
     (res_bind (encrypt_one E (rnd 0) ch pt (packet_counter ch + 1)) (\<lambda>w. Inr [w]),
      ch\<lparr>packet_counter := packet_counter ch + 1\<rparr>)"
  by (simp add: encrypt_def Let_def)

lemma encrypt_large:
  "MAX_PAYLOAD < length pt \<Longrightarrow> encrypt E rnd pt ch = (Inr ws, ch') \<longleftrightarrow>
     encrypt_frags E rnd ch pt (packet_counter ch + 1) (num_frags (length pt))
       [0..<num_frags (length pt)] = Inr ws \<and>
     ch' = ch\<lparr>packet_counter := packet_counter ch + num_frags (length pt)\<rparr>"
  by (auto simp: encrypt_def Let_def split: sum.splits)

lemma encrypt_ids:
  assumes "encrypt E rnd pt ch = (Inr ws, ch')" and "length (shared_id ch) \<le> 8"
  shows "map wire_id ws = [packet_counter ch + 1..<packet_counter ch + 1 + length ws] \<and>
    packet_counter ch' = packet_counter ch + length ws \<and>
    length ws = max 1 (num_frags (length pt))"
proof (cases "length pt \<le> MAX_PAYLOAD")
  case True
  with assms(1) obtain w where "encrypt_one E (rnd 0) ch pt (packet_counter ch + 1) = Inr w"
    and "ws = [w]" and "ch' = ch\<lparr>packet_counter := packet_counter ch + 1\<rparr>"
    by (auto simp: encrypt_small res_bind_Inr_iff)
  with wire_id_encrypt_one [OF _ assms(2)] num_frags_small [OF True] show ?thesis by simp
next
  case False
  let ?n = "num_frags (length pt)" and ?s = "packet_counter ch + 1"
  from False assms(1) have e: "encrypt_frags E rnd ch pt ?s ?n [0..<?n] = Inr ws"
    and ch': "ch' = ch\<lparr>packet_counter := packet_counter ch + ?n\<rparr>"
    by (auto simp: encrypt_large)
  from encrypt_frags_Inr [OF e] have len: "length ws = ?n"
    and "\<forall>i < ?n. \<exists>p. encrypt_one E (rnd i) ch p (?s + i) = Inr (ws ! i)"
    by (auto simp: list_all2_conv_all_nth)
  then have "\<forall>i < ?n. wire_id (ws ! i) = ?s + i"
    using wire_id_encrypt_one [OF _ assms(2)] by blast
  then have "map wire_id ws = [?s..<?s + ?n]"
    using len by (intro nth_equalityI) (simp_all add: nth_upt del: upt_Suc)
  moreover have "2 \<le> ?n" using False by (intro num_frags_ge2) simp
  ultimately show ?thesis using len ch' by simp
qed

section \<open>Collecting fragments\<close>

text \<open>
  The receiver has collected exactly the fragments \<open>I\<close> of the group that starts at packet
  \<open>start\<close>.
\<close>

definition collecting ::
  "data_channel \<Rightarrow> nat \<Rightarrow> nat \<Rightarrow> (nat \<Rightarrow> bytes) \<Rightarrow> nat set \<Rightarrow> bool" where
  "collecting ch start tot chs I \<longleftrightarrow>
     (case map_of (fragments ch) (int start) of
        None \<Rightarrow> I = {}
      | Some buf \<Rightarrow> fb_total buf = tot \<and> distinct (map fst (fb_fragments buf)) \<and>
          map_of (fb_fragments buf) = (\<lambda>i. if i \<in> I then Some (chs i) else None))"

lemma dict_length:
  assumes "distinct (map fst d)" and "map_of d = (\<lambda>i. if i \<in> I then Some (f i) else None)"
  shows "length d = card I"
proof -
  have "dom (map_of d) = I" using assms(2) by (auto simp: dom_def)
  then have "fst ` set d = I" by (simp add: dom_map_of_conv_image_fst)
  with distinct_card [OF assms(1)] show ?thesis by simp
qed

lemma join_frags_ok:
  "\<forall>i\<in>set is. map_of d i = Some (f i) \<Longrightarrow> join_frags d is = Inr (concat (map f is))"
  by (induction "is") auto

lemma frag_mask_nonzero [simp]: "FRAG_MASK \<noteq> 0"
  by (simp add: FRAG_MASK_def)

text \<open>\<open>reassemble\<close> on a well-formed fragment, with its header read.\<close>

lemma reassemble_frag:
  assumes tot: "tot < 256" and i: "i < 256" and ne: "raw \<noteq> []"
    and frs: "frs = (if map_of (fragments ch) (int start) = None
        then AList.update (int start) \<lparr>fb_total = tot, fb_fragments = [], fb_ts = now\<rparr> (fragments ch)
        else fragments ch)"
    and buf: "map_of frs (int start) = Some buf" "fb_total buf = tot"
    and d: "d = AList.update i raw (fb_fragments buf)"
    and frs': "frs' = AList.update (int start) (buf\<lparr>fb_fragments := d\<rparr>) frs"
  shows "reassemble now (start + i) (FRAG_MASK # word_of_nat tot # word_of_nat i # raw) ch =
    (if length d = tot then
       (case join_frags d [0..<tot] of
          Inl e \<Rightarrow> (Inl e, ch\<lparr>fragments := frs'\<rparr>)
        | Inr data \<Rightarrow> (Inr (Some data), ch\<lparr>fragments := AList.delete (int start) frs'\<rparr>))
     else (Inr None, ch\<lparr>fragments := frs'\<rparr>))"
proof -
  let ?pl = "FRAG_MASK # word_of_nat tot # word_of_nat i # raw"
  have nth: "unat (?pl ! 1) = tot" "unat (?pl ! 2) = i" "drop 3 ?pl = raw" "?pl ! 0 = FRAG_MASK"
    using tot i by (simp_all add: unat_of_nat)
  have long: "\<not> length ?pl < 4" "\<not> length ?pl < 1" using ne by (cases raw; simp)+
  have g: "int (start + i) - int i = int start" by simp
  show ?thesis
    unfolding reassemble_def nth g add_fragment_def Let_def frs [symmetric] buf(1) option.sel d frs'
    using long buf(2) by simp
qed

lemma reassemble_collect:
  assumes c: "collecting ch start tot chs I" and i: "i < tot" "i \<notin> I" "I \<subseteq> {..<tot}"
    and tot: "tot < 256" and ne: "chs i \<noteq> []"
    and pl: "pl = FRAG_MASK # word_of_nat tot # word_of_nat i # chs i"
  shows "\<exists>frs. reassemble now (start + i) pl ch =
      (Inr (if insert i I = {..<tot} then Some (concat (map chs [0..<tot])) else None),
       ch\<lparr>fragments := frs\<rparr>) \<and>
      collecting (ch\<lparr>fragments := frs\<rparr>) start tot chs (if insert i I = {..<tot} then {} else insert i I)"
proof -
  let ?g = "int start" and ?new = "\<lparr>fb_total = tot, fb_fragments = [], fb_ts = now\<rparr>"
  define frs0 where "frs0 = (if map_of (fragments ch) ?g = None
      then AList.update ?g ?new (fragments ch) else fragments ch)"
  obtain buf where buf: "map_of frs0 ?g = Some buf" and tb: "fb_total buf = tot"
    and db: "distinct (map fst (fb_fragments buf))"
    and mb: "map_of (fb_fragments buf) = (\<lambda>i. if i \<in> I then Some (chs i) else None)"
    using c by (cases "map_of (fragments ch) ?g")
      (auto simp: frs0_def collecting_def map_of_update)
  let ?d = "AList.update i (chs i) (fb_fragments buf)"
  have dd: "distinct (map fst ?d)" using db by (rule distinct_update)
  have md: "map_of ?d = (\<lambda>j. if j \<in> insert i I then Some (chs j) else None)"
    using mb by (auto simp: map_of_update)
  have len: "length ?d = card (insert i I)" using dd md by (rule dict_length)
  have full: "length ?d = tot \<longleftrightarrow> insert i I = {..<tot}"
  proof
    have sub: "insert i I \<subseteq> {..<tot}" using i by simp
    assume "length ?d = tot"
    with len have "card (insert i I) = card {..<tot}" by simp
    with sub show "insert i I = {..<tot}" by (intro card_subset_eq) simp_all
  qed (simp add: len)
  let ?frs = "AList.update ?g (buf\<lparr>fb_fragments := ?d\<rparr>) frs0"
  have "reassemble now (start + i) pl ch =
    (if length ?d = tot then
       (case join_frags ?d [0..<tot] of
          Inl e \<Rightarrow> (Inl e, ch\<lparr>fragments := ?frs\<rparr>)
        | Inr data \<Rightarrow> (Inr (Some data), ch\<lparr>fragments := AList.delete ?g ?frs\<rparr>))
     else (Inr None, ch\<lparr>fragments := ?frs\<rparr>))"
    using reassemble_frag [OF tot _ ne frs0_def buf tb refl refl, of i] i(1) tot pl by simp
  moreover have "join_frags ?d [0..<tot] = Inr (concat (map chs [0..<tot]))"
    if "insert i I = {..<tot}"
    using md that by (intro join_frags_ok) auto
  moreover have "collecting (ch\<lparr>fragments := ?frs\<rparr>) start tot chs (insert i I)"
    using dd md tb by (simp add: collecting_def map_of_update)
  moreover have "collecting (ch\<lparr>fragments := AList.delete ?g ?frs\<rparr>) start tot chs {}"
    by (simp add: collecting_def map_of_delete)
  ultimately show ?thesis using full by auto
qed

section \<open>Delivery in any order\<close>

fun deliver :: "prims \<Rightarrow> (real \<times> bytes) list \<Rightarrow> data_channel \<Rightarrow> bytes option res list \<times> data_channel"
where
  "deliver E [] ch = ([], ch)"
| "deliver E ((now, w) # ws) ch =
     (case decrypt E now w ch of (r, ch1) \<Rightarrow>
      case deliver E ws ch1 of (rs, ch2) \<Rightarrow> (r # rs, ch2))"

lemma dc_paired_rcv [simp]:
  "dc_paired E c1 (c2\<lparr>replay := r, fragments := f\<rparr>) = dc_paired E c1 c2"
  "dc_paired E c1 (c2\<lparr>replay := r\<rparr>) = dc_paired E c1 c2"
  by (auto simp: dc_paired_def split: option.splits)

lemma collecting_replay [simp]:
  "collecting (ch\<lparr>replay := r\<rparr>) start tot chs I = collecting ch start tot chs I"
  by (simp add: collecting_def)

lemma deliver_rest:
  assumes E: "aead_ok E" "lz4_ok E" and rnd: "\<And>i. length (rnd i) = 12"
    and tot: "tot < 256" "int tot \<le> W"
    and ws: "\<And>i. i < tot \<Longrightarrow> chs i \<noteq> [] \<and>
        encrypt_one E (rnd i) c1 (FRAG_MASK # word_of_nat tot # word_of_nat i # chs i) (start + i)
          = Inr (ws i)"
  shows "order \<noteq> [] \<Longrightarrow> distinct order \<Longrightarrow> set order \<inter> I = {} \<Longrightarrow> set order \<union> I = {..<tot} \<Longrightarrow>
     dc_paired E c1 c2 \<Longrightarrow> collecting c2 start tot chs I \<Longrightarrow> window_rel A (replay c2) \<Longrightarrow>
     window_size (replay c2) = W \<Longrightarrow> \<forall>x\<in>A. x < int start + W \<Longrightarrow>
     \<forall>i\<in>set order. int (start + i) \<notin> A \<Longrightarrow> length ts = length order \<Longrightarrow>
     fst (deliver E (zip ts (map ws order)) c2) =
       replicate (length order - 1) (Inr None) @ [Inr (Some (concat (map chs [0..<tot])))]"
proof (induction order arbitrary: I A c2 ts)
  case (Cons i order)
  from Cons.prems have i: "i < tot" "i \<notin> I" "I \<subseteq> {..<tot}" by auto
  from Cons.prems obtain now ts' where ts: "ts = now # ts'" by (cases ts) auto
  let ?p = "FRAG_MASK # word_of_nat tot # word_of_nat i # chs i"
  have acc: "spec_accept (window_size (replay c2)) A (int (start + i))"
  proof (cases "A = {}")
    case False
    with Cons.prems(7,9) have "Max A < int start + W" by (simp add: window_rel_def)
    with Cons.prems(8,10) show ?thesis by (simp add: spec_accept_def)
  qed (simp add: spec_accept_def)
  then obtain rw where rw: "check (int (start + i)) (replay c2) = (True, rw)"
    using check_refines [OF Cons.prems(7)] by (metis prod.collapse)
  from check_rel [OF Cons.prems(7), of "int (start + i)"] acc rw
  have rel: "window_rel (insert (int (start + i)) A) rw" by simp
  have W: "window_size rw = W" using check_window_size [of "int (start + i)" "replay c2"] rw
      Cons.prems(8) by simp
  have dec: "decrypt E now (ws i) c2 = reassemble now (start + i) ?p (c2\<lparr>replay := rw\<rparr>)"
    using ws [OF i(1)] E rnd Cons.prems(5) rw by (intro decrypt_encrypt_one) auto
  from reassemble_collect [of "c2\<lparr>replay := rw\<rparr>" start tot chs I i ?p now] i tot(1) ws [OF i(1)]
    Cons.prems(6)
  obtain frs where re: "reassemble now (start + i) ?p (c2\<lparr>replay := rw\<rparr>) =
      (Inr (if insert i I = {..<tot} then Some (concat (map chs [0..<tot])) else None),
       c2\<lparr>replay := rw, fragments := frs\<rparr>)"
    and col: "collecting (c2\<lparr>replay := rw, fragments := frs\<rparr>) start tot chs
      (if insert i I = {..<tot} then {} else insert i I)"
    by auto
  show ?case
  proof (cases "order = []")
    case True
    with Cons.prems(4) have "insert i I = {..<tot}" by auto
    with True dec re ts Cons.prems(11) show ?thesis by simp
  next
    case False
    then obtain j where "j \<in> set order" by (cases order) auto
    with Cons.prems have ne: "insert i I \<noteq> {..<tot}" by auto
    have "fst (deliver E (zip ts' (map ws order)) (c2\<lparr>replay := rw, fragments := frs\<rparr>)) =
       replicate (length order - 1) (Inr None) @ [Inr (Some (concat (map chs [0..<tot])))]"
      using Cons.prems False ne col rel W i ts tot(2)
      by (intro Cons.IH [where I = "insert i I" and A = "insert (int (start + i)) A"]) auto
    with False ne dec re ts show ?thesis
      by (cases order) (auto split: prod.splits)
  qed
qed simp

lemma fragments_reassemble:
  assumes E: "aead_ok E" "lz4_ok E" and p: "dc_paired E c1 c2" and rnd: "\<And>i. length (rnd i) = 12"
    and big: "MAX_PAYLOAD < length pt" and enc: "encrypt E rnd pt c1 = (Inr ws, c1')"
    and win: "window_rel A (replay c2)" "\<forall>x\<in>A. x \<le> int (packet_counter c1)"
    and W: "int (length ws) \<le> window_size (replay c2)"
    and fresh: "map_of (fragments c2) (int (packet_counter c1 + 1)) = None"
    and order: "distinct order" "set order = {..<length ws}" "length ts = length ws"
  shows "fst (deliver E (zip ts (map ((!) ws) order)) c2) =
    replicate (length ws - 1) (Inr None) @ [Inr (Some pt)]"
proof -
  let ?n = "num_frags (length pt)" and ?s = "packet_counter c1 + 1"
  from big enc have e: "encrypt_frags E rnd c1 pt ?s ?n [0..<?n] = Inr ws"
    by (simp add: encrypt_large)
  from encrypt_frags_Inr [OF e] have len: "length ws = ?n" by (auto dest: list_all2_lengthD)
  have ge: "2 \<le> ?n" using big by (rule num_frags_ge2)
  have nth: "\<exists>p. frag_payload pt ?n i = Inr p \<and>
      encrypt_one E (rnd i) c1 p (?s + i) = Inr (ws ! i)" if "i < ?n" for i
    using encrypt_frags_Inr [OF e] that by (auto simp: list_all2_conv_all_nth)
  from nth [of 0] ge have tot: "?n < 256" by (auto simp: frag_payload_Inr_iff)
  have lo: "length order = length ws"
    using order distinct_card [of order] by simp
  with ge len have "order \<noteq> []" by auto
  moreover have "chunk pt i \<noteq> [] \<and> encrypt_one E (rnd i) c1
      (FRAG_MASK # word_of_nat ?n # word_of_nat i # chunk pt i) (?s + i) = Inr (ws ! i)"
    if "i < ?n" for i
    using nth [OF that] chunk_nonempty [OF that] by (auto simp: frag_payload_Inr_iff)
  moreover have "collecting c2 ?s ?n (chunk pt) {}"
    using fresh by (simp add: collecting_def)
  moreover have "\<forall>x\<in>A. x < int ?s + window_size (replay c2)"
    using win by (auto simp: window_rel_def)
  ultimately show ?thesis
    using deliver_rest [of E rnd ?n "window_size (replay c2)" "chunk pt" c1 ?s "(!) ws" order "{}"
        c2 A ts] E rnd tot W len order p win lo concat_chunks [of pt]
    by fastforce
qed

end
