(* ===== verification/Channel_Props.thy ===== *)
theory Channel_Props
  imports Reassembly Toy_Env
begin

text \<open>
  The properties of the data channel (\<^verbatim>\<open>src/protocol/data.py\<close>) and of its replay window, with
  their witnesses. The lemmas they rest on are in \<open>Replay\<close>, \<open>Data_Channel\<close> and
  \<open>Reassembly\<close>.
\<close>

section \<open>Concrete channels\<close>

definition toy_window :: replay_window where
  "toy_window = \<lparr>window_size = 64, highest = -1, seen = 0\<rparr>"

definition toy_channel :: data_channel where
  "toy_channel = \<lparr>shared_id = [3, 3, 3, 3, 3, 3, 3, 3], dc_cipher = Some (Cipher toy_key),
     packet_counter = 0, comp_lzo = False, fragments = [], replay = toy_window\<rparr>"

lemma toy_window_rel: "window_rel {} toy_window"
  by (simp add: window_rel_def toy_window_def)

lemma toy_paired: "dc_paired toy_prims toy_channel toy_channel"
  by (simp add: dc_paired_def toy_channel_def)

section \<open>The channel invariant\<close>

lemma set_delete_subset: "set (AList.delete k d) \<subseteq> set d"
  by (auto simp: AList.delete_eq)


text \<open>
  The replay window stands for some set of accepted ids, the fragment groups are a
  dictionary of dictionaries, and the shared id fits the header's session field.
\<close>

definition dc_ok :: "data_channel \<Rightarrow> bool" where
  "dc_ok ch \<longleftrightarrow>
     (\<exists>A. window_rel A (replay ch)) \<and> length (shared_id ch) \<le> 8 \<and>
     distinct (map fst (fragments ch)) \<and>
     (\<forall>(g, buf) \<in> set (fragments ch). distinct (map fst (fb_fragments buf)))"

lemma dc_okI:
  assumes "window_rel A (replay ch)" and "length (shared_id ch) \<le> 8"
    and "distinct (map fst (fragments ch))"
    and "\<And>g buf. (g, buf) \<in> set (fragments ch) \<Longrightarrow> distinct (map fst (fb_fragments buf))"
  shows "dc_ok ch"
  using assms by (auto simp: dc_ok_def)

lemma toy_dc_ok: "dc_ok toy_channel"
  by (rule dc_okI [OF _ _ _ ]) (auto simp: toy_channel_def intro: toy_window_rel)

lemma dc_ok_new:
  assumes "new_data_channel E a b c z w = Inr ch" and "length a \<le> 8"
  shows "dc_ok ch"
  using assms
  by (auto simp: new_data_channel_def res_bind_Inr_iff dc_ok_def length_derive_session_id
      dest!: window_rel_empty)

lemma dc_ok_encrypt: "dc_ok ch \<Longrightarrow> dc_ok (snd (encrypt E rnd pt ch))"
  by (simp add: dc_ok_def encrypt_frame)

lemma dc_ok_cleanup: "dc_ok ch \<Longrightarrow> dc_ok (cleanup_fragments now ch)"
  by (auto simp: dc_ok_def cleanup_fragments_def distinct_filter_keys)

lemma set_update_cases:
  "x \<in> set (AList.update k v d) \<Longrightarrow> x = (k, v) \<or> x \<in> set d"
  by (induction d) (auto split: if_splits)

lemma dc_ok_update:
  assumes "dc_ok ch" and "distinct (map fst (fb_fragments buf))"
  shows "dc_ok (ch\<lparr>fragments := AList.update g buf (fragments ch)\<rparr>)"
  using assms
  by (auto simp: dc_ok_def distinct_update dest!: set_update_cases)

lemma dc_ok_delete: "dc_ok ch \<Longrightarrow> dc_ok (ch\<lparr>fragments := AList.delete g (fragments ch)\<rparr>)"
  by (auto simp: dc_ok_def distinct_delete dest: set_delete_subset [THEN subsetD])

lemma dc_ok_lookup:
  "dc_ok ch \<Longrightarrow> map_of (fragments ch) g = Some buf \<Longrightarrow> distinct (map fst (fb_fragments buf))"
  by (auto simp: dc_ok_def dest!: map_of_SomeD)

lemma dc_ok_add_fragment:
  assumes "dc_ok ch"
  shows "dc_ok (snd (add_fragment now g tot i raw ch))"
proof -
  define frs where "frs = (if map_of (fragments ch) g = None
      then AList.update g \<lparr>fb_total = tot, fb_fragments = [], fb_ts = now\<rparr> (fragments ch)
      else fragments ch)"
  define buf where "buf = the (map_of frs g)"
  define frs' where "frs' = AList.update g
      (buf\<lparr>fb_fragments := AList.update i raw (fb_fragments buf)\<rparr>) frs"
  have ok0: "dc_ok (ch\<lparr>fragments := frs\<rparr>)"
    using assms dc_ok_update [of ch "\<lparr>fb_total = tot, fb_fragments = [], fb_ts = now\<rparr>" g]
    by (simp add: frs_def)
  have "map_of frs g = Some buf" by (auto simp: buf_def frs_def map_of_update)
  with ok0 have "distinct (map fst (fb_fragments buf))"
    using dc_ok_lookup [of "ch\<lparr>fragments := frs\<rparr>" g buf] by simp
  then have ok1: "dc_ok (ch\<lparr>fragments := frs'\<rparr>)"
    using ok0 dc_ok_update [of "ch\<lparr>fragments := frs\<rparr>" _ g] by (simp add: frs'_def distinct_update)
  have "add_fragment now g tot i raw ch =
    (if fb_total buf \<noteq> tot then (Inr None, ch\<lparr>fragments := AList.delete g frs\<rparr>)
     else if length (AList.update i raw (fb_fragments buf)) = tot then
       (case join_frags (AList.update i raw (fb_fragments buf)) [0..<tot] of
          Inl e \<Rightarrow> (Inl e, ch\<lparr>fragments := frs'\<rparr>)
        | Inr data \<Rightarrow> (Inr (Some data), ch\<lparr>fragments := AList.delete g frs'\<rparr>))
     else (Inr None, ch\<lparr>fragments := frs'\<rparr>))"
    unfolding add_fragment_def Let_def frs_def [symmetric] buf_def [symmetric] frs'_def
    by simp
  with ok1 dc_ok_delete [OF ok0, of g] dc_ok_delete [OF ok1, of g]
  show ?thesis by (simp split: sum.splits)
qed

lemma dc_ok_reassemble: "dc_ok ch \<Longrightarrow> dc_ok (snd (reassemble now cnt plain ch))"
  by (simp add: reassemble_def Let_def dc_ok_add_fragment)

lemma dc_ok_replay: "dc_ok ch \<Longrightarrow> dc_ok (ch\<lparr>replay := snd (check p (replay ch))\<rparr>)"
  using check_rel unfolding dc_ok_def by fastforce

lemma dc_ok_decrypt:
  assumes "dc_ok ch"
  shows "dc_ok (snd (decrypt E now w ch))"
proof -
  have rep: "dc_ok (ch\<lparr>replay := rw\<rparr>)" if "check p (replay ch) = (b, rw)" for p b rw
    using dc_ok_replay [OF assms, of p] that by simp
  show ?thesis
    using assms by (auto simp: decrypt_def Let_def intro: rep dc_ok_reassemble
        split: sum.splits prod.splits bool.splits option.splits)
qed

section \<open>Replay window properties\<close>

text \<open>
  Claim C11. The bitmap window refines its specification: on any sequence of packet ids, the
  answers of \<^verbatim>\<open>ReplayWindow.check\<close> are those of a receiver that remembers the whole set of
  accepted ids and accepts an id that is non-negative, new and less than \<open>window_size\<close>
  below the largest accepted one.
\<close>

theorem replay_refines_spec:
  assumes "new_window n = Inr w"
  shows "fst (run_checks check ps w) = fst (spec_run n ps {})"
proof -
  from assms have "window_size w = n" by (auto simp: new_window_def split: if_splits)
  with rw.run_refines [OF window_rel_empty [OF assms], of ps] show ?thesis by simp
qed

theorem replay_refines_spec_witness:
  "new_window 4 = Inr \<lparr>window_size = 4, highest = -1, seen = 0\<rparr> \<and>
   fst (run_checks check [5, 3, 5, 9, 5, 7] \<lparr>window_size = 4, highest = -1, seen = 0\<rparr>) =
   fst (spec_run 4 [5, 3, 5, 9, 5, 7] {})"
proof -
  have "new_window 4 = Inr \<lparr>window_size = 4, highest = -1, seen = 0\<rparr>"
    by (simp add: new_window_def MAX_WINDOW_def)
  with replay_refines_spec [OF this] show ?thesis by blast
qed

text \<open>
  No replay: whatever ids arrive, in whatever order, a window never accepts the
  same id twice.
\<close>

theorem replay_no_duplicates:
  assumes "new_window n = Inr w"
  shows "distinct (accepted (fst (run_checks check ps w)) ps)"
  by (rule rw.run_distinct) (rule window_rel_empty [OF assms])

theorem replay_no_duplicates_witness:
  "distinct (accepted (fst (run_checks check [1, 1, 2] toy_window)) [1, 1, 2])"
  by (rule replay_no_duplicates [of 64])
    (simp add: new_window_def MAX_WINDOW_def toy_window_def)

text \<open>
  Reordering within the window loses nothing: distinct non-negative ids that all
  lie in one interval of length \<open>window_size\<close> are all accepted, in any order of arrival.
\<close>

theorem replay_accepts_reordered:
  assumes "new_window n = Inr w" and "distinct ps" and "0 \<le> a" and "set ps \<subseteq> {a..<a + n}"
  shows "fst (run_checks check ps w) = replicate (length ps) True"
proof -
  from assms(1) have "window_size w = n" by (auto simp: new_window_def split: if_splits)
  with assms show ?thesis
    by (intro rw.run_accepts_window [OF window_rel_empty]) auto
qed

theorem replay_accepts_reordered_witness:
  "fst (run_checks check [3, 1, 4, 2] \<lparr>window_size = 4, highest = -1, seen = 0\<rparr>) =
     replicate (length [3, 1, 4, 2 :: int]) True"
  by (rule replay_accepts_reordered [of 4 _ _ 1])
    (simp_all add: new_window_def MAX_WINDOW_def)

text \<open>
  The bitmap is never trimmed to the window: after ids \<open>0, 1, \<dots>, n\<close> in order, all
  accepted, the integer \<open>_seen\<close> is \<open>2 ^ (n + 1) - 1\<close>, so its size grows with the number
  of packets of the session and not with the 64 bits the window needs.
\<close>

lemma or_1_double: "push_bit 1 (2 ^ n - 1 :: int) OR 1 = 2 ^ Suc n - 1"
proof -
  have "push_bit 1 (2 ^ n - 1 :: int) = 2 * (2 ^ n - 1)" by (simp add: push_bit_eq_mult)
  then show ?thesis by (simp add: or_one_eq algebra_simps)
qed

lemma run_checks_append:
  "run_checks chk (ps @ qs) s =
     (case run_checks chk ps s of (bs, t) \<Rightarrow>
      case run_checks chk qs t of (cs, u) \<Rightarrow> (bs @ cs, u))"
  by (induction ps arbitrary: s) (auto split: prod.splits)

theorem replay_bitmap_grows:
  assumes "new_window k = Inr w" and "2 \<le> k"
  shows "run_checks check (map int [0..<Suc n]) w =
    (replicate (Suc n) True, \<lparr>window_size = k, highest = int n, seen = 2 ^ Suc n - 1\<rparr>)"
proof (induction n)
  case 0
  from assms(1) have "w = \<lparr>window_size = k, highest = -1, seen = 0\<rparr>"
    by (auto simp: new_window_def split: if_splits)
  then show ?case by (simp add: check_def)
next
  case (Suc n)
  let ?w = "\<lparr>window_size = k, highest = int n, seen = 2 ^ Suc n - 1\<rparr>"
  have "check (int (Suc n)) ?w =
      (True, \<lparr>window_size = k, highest = int (Suc n), seen = 2 ^ Suc (Suc n) - 1\<rparr>)"
    using assms(2) or_1_double [of "Suc n"] by (simp add: check_def Let_def)
  moreover have "map int [0..<Suc (Suc n)] = map int [0..<Suc n] @ [int (Suc n)]" by simp
  ultimately show ?case
    using Suc by (simp only: run_checks_append) (simp add: replicate_append_same)
qed

theorem replay_bitmap_grows_witness:
  "run_checks check (map int [0..<Suc 99]) toy_window =
    (replicate (Suc 99) True, \<lparr>window_size = 64, highest = int 99, seen = 2 ^ Suc 99 - 1\<rparr>)"
  by (rule replay_bitmap_grows) (simp_all add: new_window_def MAX_WINDOW_def toy_window_def)

section \<open>Data channel properties\<close>

text \<open>What a receiver in step with the sender does with the sender's next single packet.\<close>

lemma check_next:
  assumes win: "window_rel A w" "\<forall>x\<in>A. x \<le> int n"
  shows "\<exists>rw. check (int (n + 1)) w = (True, rw) \<and> window_rel (insert (int (n + 1)) A) rw"
proof -
  have "Max A - int (n + 1) < window_size w" if "A \<noteq> {}"
  proof -
    from that win have "Max A \<le> int n" by (simp add: window_rel_def)
    moreover have "0 < window_size w" using win(1) by (simp add: window_rel_def)
    ultimately show ?thesis by simp
  qed
  with win(2) have "spec_accept (window_size w) A (int (n + 1))"
    by (auto simp: spec_accept_def)
  with check_refines [OF win(1), of "int (n + 1)"] check_rel [OF win(1), of "int (n + 1)"]
  show ?thesis by (cases "check (int (n + 1)) w") auto
qed

lemma next_packet:
  assumes E: "aead_ok E" "lz4_ok E" and p: "dc_paired E c1 c2" and "length (rnd 0) = 12"
    and small: "length pt \<le> MAX_PAYLOAD"
    and win: "window_rel A (replay c2)" "\<forall>x\<in>A. x \<le> int (packet_counter c1)"
    and enc: "encrypt E rnd pt c1 = (Inr [w], c1')"
  shows "\<exists>rw. decrypt E now w c2 =
      reassemble now (packet_counter c1 + 1) pt (c2\<lparr>replay := rw\<rparr>) \<and>
    window_rel (insert (int (packet_counter c1 + 1)) A) rw"
proof -
  from enc small have w: "encrypt_one E (rnd 0) c1 pt (packet_counter c1 + 1) = Inr w"
    by (auto simp: encrypt_small res_bind_Inr_iff)
  from check_next [OF win] obtain rw where rw: "check (int (packet_counter c1 + 1)) (replay c2) = (True, rw)"
    "window_rel (insert (int (packet_counter c1 + 1)) A) rw" by blast
  from decrypt_encrypt_one [OF E p assms(4) w rw(1), of now] rw(2) show ?thesis by auto
qed

lemma encrypt_next:
  assumes p: "dc_paired E c1 c2" and small: "length pt \<le> MAX_PAYLOAD"
    and room: "packet_counter c1 + 1 < 256 ^ 4"
  shows "\<exists>w. encrypt E rnd pt c1 = (Inr [w], c1\<lparr>packet_counter := packet_counter c1 + 1\<rparr>)"
proof -
  from p obtain c where "dc_cipher c1 = Some c" and "length (shared_id c1) \<le> 8"
    by (auto simp: dc_paired_def split: option.splits)
  with room obtain w where "encrypt_one E (rnd 0) c1 pt (packet_counter c1 + 1) = Inr w"
    using encrypt_one_eq by blast
  with small show ?thesis by (simp add: encrypt_small)
qed

lemma small_roundtrip:
  assumes E: "aead_ok E" "lz4_ok E" and p: "dc_paired E c1 c2" and "length (rnd 0) = 12"
    and small: "length pt \<le> MAX_PAYLOAD" and ip: "pt = [] \<or> hd pt AND FRAG_MASK = 0"
    and win: "window_rel A (replay c2)" "\<forall>x\<in>A. x \<le> int (packet_counter c1)"
    and room: "packet_counter c1 + 1 < 256 ^ 4"
  shows "\<exists>w rw. encrypt E rnd pt c1 = (Inr [w], c1\<lparr>packet_counter := packet_counter c1 + 1\<rparr>) \<and>
    decrypt E now w c2 = (Inr (Some pt), c2\<lparr>replay := rw\<rparr>) \<and>
    window_rel (insert (int (packet_counter c1 + 1)) A) rw"
proof -
  from encrypt_next [OF p small room] obtain w
    where w: "encrypt E rnd pt c1 = (Inr [w], c1\<lparr>packet_counter := packet_counter c1 + 1\<rparr>)" by blast
  from next_packet [OF E p assms(4) small win w, of now] obtain rw
    where d: "decrypt E now w c2 = reassemble now (packet_counter c1 + 1) pt (c2\<lparr>replay := rw\<rparr>)"
      and rw: "window_rel (insert (int (packet_counter c1 + 1)) A) rw" by blast
  have "reassemble now (packet_counter c1 + 1) pt (c2\<lparr>replay := rw\<rparr>) =
      (Inr (Some pt), c2\<lparr>replay := rw\<rparr>)"
    using ip by (cases pt) (auto simp: reassemble_def)
  with w d rw show ?thesis by auto
qed

text \<open>
  Claim C7. Round trip of a small packet: what one side encrypts, its peer decrypts to the
  same plaintext, for every plaintext of at most 1400 bytes whose first byte has its top bit
  clear (IPv4 and IPv6 packets have), whether compressed or not; only the peer's replay
  window changes.
\<close>

theorem data_roundtrip:
  assumes "aead_ok E" "lz4_ok E" and "dc_paired E c1 c2" and "length (rnd 0) = 12"
    and "length pt \<le> MAX_PAYLOAD" and "pt = [] \<or> hd pt AND FRAG_MASK = 0"
    and "window_rel A (replay c2)" "\<forall>x\<in>A. x \<le> int (packet_counter c1)"
    and  "packet_counter c1 + 1 < 256 ^ 4"
  shows "\<exists>w c1' rw. encrypt E rnd pt c1 = (Inr [w], c1') \<and>
    decrypt E now w c2 = (Inr (Some pt), c2\<lparr>replay := rw\<rparr>)"
  using small_roundtrip [of E c1 c2 rnd pt A now, OF assms] by blast

theorem data_roundtrip_witness:
  "\<exists>w c1' rw. encrypt toy_prims toy_nonce [0x45, 0, 0, 20] toy_channel = (Inr [w], c1') \<and>
     decrypt toy_prims 0 w toy_channel = (Inr (Some [0x45, 0, 0, 20]), toy_channel\<lparr>replay := rw\<rparr>)"
  by (rule data_roundtrip [OF toy_aead_ok toy_lz4_ok toy_paired, where A = "{}"])
    (simp_all add: MAX_PAYLOAD_def FRAG_MASK_def, simp_all add: toy_channel_def toy_window_rel)

text \<open>
  Claim C12. Fragmentation: a plaintext over 1400 bytes (and at most \<open>window_size\<close> fragments)
  is split into \<open>\<lceil>len / 1400\<rceil>\<close> packets, and the peer, receiving these packets in any order at
  any times, returns nothing until the last one and then exactly the plaintext.
\<close>

theorem fragments_any_order:
  assumes E: "aead_ok E" "lz4_ok E" and p: "dc_paired E c1 c2" and rnd: "\<And>i. length (rnd i) = 12"
    and big: "MAX_PAYLOAD < length pt" and tot: "tot = num_frags (length pt)"
    and room: "tot < 256" "packet_counter c1 + tot < 256 ^ 4" "int tot \<le> window_size (replay c2)"
    and win: "window_rel A (replay c2)" "\<forall>x\<in>A. x \<le> int (packet_counter c1)"
    and fresh: "map_of (fragments c2) (int (packet_counter c1 + 1)) = None"
    and order: "distinct order" "set order = {..<tot}" "length ts = tot"
  shows "\<exists>ws. fst (encrypt E rnd pt c1) = Inr ws \<and> length ws = tot \<and>
    fst (deliver E (zip ts (map ((!) ws) order)) c2) =
      replicate (tot - 1) (Inr None) @ [Inr (Some pt)]"
proof -
  from p obtain c where c: "dc_cipher c1 = Some c" and sid: "length (shared_id c1) \<le> 8"
    by (auto simp: dc_paired_def split: option.splits)
  have "is_ok (encrypt_frags E rnd c1 pt (packet_counter c1 + 1) tot [0..<tot])"
    using encrypt_frags_ok [OF c sid] room by auto
  then obtain ws c1' where enc: "encrypt E rnd pt c1 = (Inr ws, c1')"
    using encrypt_large [OF big] tot by (auto simp: is_ok_iff)
  moreover have len: "length ws = tot"
    using encrypt_ids [OF enc sid] num_frags_ge2 [OF big] tot by simp
  ultimately show ?thesis
    using fragments_reassemble [OF E p rnd big enc win _ fresh order(1)] order room(3) by simp
qed

theorem fragments_any_order_witness:
  "\<exists>ws. fst (encrypt toy_prims toy_nonce (replicate 3000 1) toy_channel) = Inr ws \<and>
     length ws = 3 \<and>
     fst (deliver toy_prims (zip [0, 1, 2] (map ((!) ws) [2, 0, 1])) toy_channel) =
       replicate (3 - 1) (Inr None) @ [Inr (Some (replicate 3000 1))]"
  by (rule fragments_any_order [OF toy_aead_ok toy_lz4_ok toy_paired, where A = "{}"])
    (auto simp: MAX_PAYLOAD_def num_frags_def toy_channel_def toy_window_rel,
     auto simp: toy_window_def)

lemma encrypt_no_cipher:
  assumes "dc_cipher ch = None" and "length (shared_id ch) \<le> 8"
  shows "\<not> is_ok (fst (encrypt E rnd pt ch))"
proof -
  have no: "\<not> is_ok (encrypt_one E n ch p k)" for n p k
    using assms(1) encrypt_one_Inr [OF _ assms(2)] by (auto simp: is_ok_iff)
  show ?thesis
  proof (cases "length pt \<le> MAX_PAYLOAD")
    case True
    with no show ?thesis by (auto simp: encrypt_small is_ok_iff res_bind_Inr_iff)
  next
    case False
    then obtain k where k: "num_frags (length pt) = Suc k"
      using num_frags_ge2 [of "length pt"] by (cases "num_frags (length pt)") auto
    have "\<not> is_ok (fst (encrypt E rnd pt ch))"
    proof
      assume "is_ok (fst (encrypt E rnd pt ch))"
      then obtain ws ch' where "encrypt E rnd pt ch = (Inr ws, ch')"
        by (auto simp: is_ok_iff) (metis prod.collapse)
      with False k no show False
        by (auto simp: encrypt_large upt_conv_Cons res_bind_Inr_iff is_ok_iff simp del: upt_Suc)
    qed
    then show ?thesis .
  qed
qed

lemma encrypt_ok_cipher:
  assumes "dc_cipher ch = Some c" and "length (shared_id ch) \<le> 8"
  shows "is_ok (fst (encrypt E rnd pt ch)) =
    (num_frags (length pt) < 256 \<and> packet_counter ch + max 1 (num_frags (length pt)) < 256 ^ 4)"
proof -
  show ?thesis
  proof (cases "length pt \<le> MAX_PAYLOAD")
    case True
    then have "num_frags (length pt) \<le> 1" by (rule num_frags_small)
    moreover have "is_ok (encrypt_one E (rnd 0) ch pt k) = (k < 256 ^ 4)" for k
      using encrypt_one_eq [OF assms] encrypt_one_Inr [OF _ assms(2)] by (auto simp: is_ok_iff)
    ultimately show ?thesis
      using True by (auto simp: encrypt_small is_ok_iff res_bind_Inr_iff)
  next
    case False
    let ?n = "num_frags (length pt)"
    have ge: "2 \<le> ?n" using False by (intro num_frags_ge2) simp
    have "is_ok (fst (encrypt E rnd pt ch)) =
        is_ok (encrypt_frags E rnd ch pt (packet_counter ch + 1) ?n [0..<?n])"
      using False by (auto simp: encrypt_def Let_def split: sum.splits)
    also have "\<dots> = (?n < 256 \<and> (\<forall>i<?n. i < 256 \<and> packet_counter ch + 1 + i < 256 ^ 4))"
      using encrypt_frags_ok [OF assms] ge by auto
    also have "\<dots> = (?n < 256 \<and> packet_counter ch + ?n < 256 ^ 4)"
      using ge by (auto dest: spec [of _ "?n - 1"])
    finally show ?thesis using ge by (simp add: max_def)
  qed
qed

text \<open>
  Claim C20. \<open>encrypt\<close> succeeds exactly when a session key is set, the plaintext needs at most
  255 fragments and the packet ids stay below \<open>2 ^ 32\<close>; in every other case it raises.
\<close>

theorem encrypt_succeeds_iff:
  assumes "length (shared_id ch) \<le> 8"
  shows "is_ok (fst (encrypt E rnd pt ch)) =
    (dc_cipher ch \<noteq> None \<and> num_frags (length pt) < 256 \<and>
     packet_counter ch + max 1 (num_frags (length pt)) < 256 ^ 4)"
  by (cases "dc_cipher ch") (simp_all add: encrypt_no_cipher encrypt_ok_cipher assms)

theorem encrypt_succeeds_iff_witness:
  "is_ok (fst (encrypt toy_prims toy_nonce (replicate 400000 0) toy_channel)) =
    (dc_cipher toy_channel \<noteq> None \<and> num_frags (length (replicate 400000 (0::byte))) < 256 \<and>
     packet_counter toy_channel + max 1 (num_frags (length (replicate 400000 (0::byte)))) < 256 ^ 4)"
  by (rule encrypt_succeeds_iff) (simp add: toy_channel_def)

section \<open>Packet ids\<close>

text \<open>A run of \<open>encrypt\<close> calls, with the packets of those that did not raise.\<close>

fun encrypt_run ::
  "prims \<Rightarrow> ((nat \<Rightarrow> bytes) \<times> bytes) list \<Rightarrow> data_channel \<Rightarrow> bytes list \<times> data_channel"
where
  "encrypt_run E [] ch = ([], ch)"
| "encrypt_run E ((rnd, pt) # ps) ch =
     (case encrypt E rnd pt ch of (r, ch1) \<Rightarrow>
      case encrypt_run E ps ch1 of (ws, ch2) \<Rightarrow>
        ((case r of Inl e \<Rightarrow> [] | Inr vs \<Rightarrow> vs) @ ws, ch2))"

lemma encrypt_counter_mono: "packet_counter ch \<le> packet_counter (snd (encrypt E rnd pt ch))"
  using num_frags_ge2 [of "length pt"]
  by (auto simp: encrypt_def Let_def split: sum.splits)

lemma encrypt_run_ids:
  "length (shared_id ch) \<le> 8 \<Longrightarrow>
     sorted_wrt (<) (map wire_id (fst (encrypt_run E ps ch))) \<and>
     (\<forall>w\<in>set (fst (encrypt_run E ps ch)). packet_counter ch < wire_id w)"
proof (induction ps arbitrary: ch)
  case (Cons p ps)
  obtain rnd pt where p: "p = (rnd, pt)" by fastforce
  obtain r ch1 where e: "encrypt E rnd pt ch = (r, ch1)" by fastforce
  have ch1: "shared_id ch1 = shared_id ch" "packet_counter ch \<le> packet_counter ch1"
    using encrypt_frame(1) [of E rnd pt ch] encrypt_counter_mono [of ch E rnd pt] e by simp_all
  define vs where "vs = (case r of Inl e \<Rightarrow> [] | Inr vs \<Rightarrow> vs)"
  have vs: "sorted_wrt (<) (map wire_id vs) \<and>
      (\<forall>w\<in>set vs. packet_counter ch < wire_id w \<and> wire_id w \<le> packet_counter ch1)"
  proof (cases r)
    case (Inr us)
    with e have "encrypt E rnd pt ch = (Inr us, ch1)" by simp
    from encrypt_ids [OF this Cons.prems]
    have ids: "map wire_id us = [packet_counter ch + 1..<packet_counter ch + 1 + length us]"
      and "packet_counter ch1 = packet_counter ch + length us" by simp_all
    moreover have "wire_id w \<in> set [packet_counter ch + 1..<packet_counter ch + 1 + length us]"
      if "w \<in> set us" for w
      using that unfolding ids [symmetric] by simp
    moreover have "sorted_wrt (<) (map wire_id us)" unfolding ids by (rule sorted_wrt_upt)
    ultimately show ?thesis by (fastforce simp: vs_def Inr)
  qed (simp add: vs_def)
  have "fst (encrypt_run E (p # ps) ch) = vs @ fst (encrypt_run E ps ch1)"
    by (simp add: p e vs_def split: prod.splits)
  with vs ch1 Cons.IH [of ch1] Cons.prems show ?case
    by (fastforce simp: sorted_wrt_append)
qed simp

text \<open>
  Claim C21. Packet ids are never reused: over any run of \<open>encrypt\<close> calls, failed ones
  included, the ids on the packets sent are strictly increasing, so the pair of shared id and
  packet id that authenticates a packet is unique within a session.
\<close>

theorem packet_ids_unique:
  assumes "new_data_channel E our_id peer_id c lzo n = Inr ch" and "length our_id \<le> 8"
  shows "sorted_wrt (<) (map wire_id (fst (encrypt_run E ps ch)))"
  using encrypt_run_ids [of ch E ps] dc_ok_new [OF assms] by (simp add: dc_ok_def)

theorem packet_ids_unique_witness:
  "sorted_wrt (<) (map wire_id (fst (encrypt_run toy_prims
     [(toy_nonce, [1]), (toy_nonce, replicate 3000 1), (toy_nonce, [2])] toy_channel)))"
  by (rule packet_ids_unique [of _ "[1, 1, 1, 1, 1, 1, 1, 1]" "[2, 2, 2, 2, 2, 2, 2, 2]"
        "Some (Cipher toy_key)" False 64])
    (simp_all add: new_data_channel_def new_window_def MAX_WINDOW_def derive_session_id_def
      toy_channel_def toy_window_def)

section \<open>Replayed, forged and malformed packets\<close>

text \<open>
  Operations of a receiver's channel in any order, with any datagrams from the network.
\<close>

inductive dc_reach :: "prims \<Rightarrow> data_channel \<Rightarrow> bool" for E where
  dc_new: "new_data_channel E a b c z n = Inr ch \<Longrightarrow> length a \<le> 8 \<Longrightarrow> dc_reach E ch"
| dc_enc: "dc_reach E ch \<Longrightarrow> dc_reach E (snd (encrypt E rnd pt ch))"
| dc_dec: "dc_reach E ch \<Longrightarrow> dc_reach E (snd (decrypt E now w ch))"
| dc_clean: "dc_reach E ch \<Longrightarrow> dc_reach E (cleanup_fragments now ch)"

lemma dc_reach_ok: "dc_reach E ch \<Longrightarrow> dc_ok ch"
  by (induction rule: dc_reach.induct)
    (auto intro: dc_ok_new dc_ok_encrypt dc_ok_decrypt dc_ok_cleanup)

lemma toy_channel_reach: "dc_reach toy_prims toy_channel"
  by (rule dc_new [of _ "[1, 1, 1, 1, 1, 1, 1, 1]" "[2, 2, 2, 2, 2, 2, 2, 2]"
        "Some (Cipher toy_key)" False 64])
    (simp_all add: new_data_channel_def new_window_def MAX_WINDOW_def derive_session_id_def
      toy_channel_def toy_window_def)

lemma add_fragment_replay: "replay (snd (add_fragment now g tot i raw ch)) = replay ch"
  by (simp add: add_fragment_def Let_def split: sum.splits)

lemma reassemble_replay: "replay (snd (reassemble now cnt plain ch)) = replay ch"
  by (simp add: reassemble_def add_fragment_replay Let_def)

text \<open>The replay window after a datagram depends on the datagram's length and packet id only.\<close>

definition reaches_window :: "bytes \<Rightarrow> bool" where
  "reaches_window w \<longleftrightarrow>
     (case decode_packet w of Inl e \<Rightarrow> False | Inr (op, sid, payload) \<Rightarrow> 33 \<le> length payload)"

lemma decode_packet_payload:
  assumes "decode_packet w = Inr (op, sid, payload)"
  shows "payload = drop 9 w" and "of_be (take 4 payload) = wire_id w"
proof -
  from assms show "payload = drop 9 w"
    by (auto simp: decode_packet_def HEADER_SIZE_def res_bind_Inr_iff Let_def split: if_splits)
  then show "of_be (take 4 payload) = wire_id w" by (simp add: wire_id_def slice_def)
qed

lemma decrypt_replay:
  "replay (snd (decrypt E now w ch)) =
     (if reaches_window w then snd (check (int (wire_id w)) (replay ch)) else replay ch)"
  by (auto simp: decrypt_def reaches_window_def reassemble_replay Let_def decode_packet_payload
      split: sum.splits prod.splits bool.splits option.splits)

lemma decrypt_rejected:
  assumes "\<not> reaches_window w \<or> \<not> fst (check (int (wire_id w)) (replay ch))"
  shows "decrypt E now w ch = (Inr None, ch)"
proof (cases "decode_packet w")
  case (Inr d)
  obtain op sid payload where d: "d = (op, sid, payload)" by (cases d)
  note pl = decode_packet_payload [OF Inr [unfolded d]]
  show ?thesis
  proof (cases "reaches_window w")
    case True
    with assms have no: "\<not> fst (check (int (wire_id w)) (replay ch))" by simp
    then have "check (int (wire_id w)) (replay ch) = (False, replay ch)"
      using check_rejected_same [OF no] by (simp add: prod_eq_iff)
    with Inr d pl(2) show ?thesis by (simp add: decrypt_def Let_def)
  qed (use Inr d in \<open>simp add: decrypt_def reaches_window_def\<close>)
qed (simp add: decrypt_def)

text \<open>What may happen to a channel between two deliveries.\<close>

inductive dc_steps :: "prims \<Rightarrow> data_channel \<Rightarrow> data_channel \<Rightarrow> bool" for E ch where
  ds_none: "dc_steps E ch ch"
| ds_enc: "dc_steps E ch c \<Longrightarrow> dc_steps E ch (snd (encrypt E rnd pt c))"
| ds_dec: "dc_steps E ch c \<Longrightarrow> dc_steps E ch (snd (decrypt E now w c))"
| ds_clean: "dc_steps E ch c \<Longrightarrow> dc_steps E ch (cleanup_fragments now c)"

lemma dc_steps_reach: "dc_steps E ch c \<Longrightarrow> dc_reach E ch \<Longrightarrow> dc_reach E c"
  by (induction rule: dc_steps.induct) (simp_all add: dc_enc dc_dec dc_clean)

lemma rejected_stays:
  assumes "dc_steps E ch c" and "dc_reach E ch" and "\<not> fst (check p (replay ch))"
  shows "\<not> fst (check p (replay c))"
  using assms
proof (induction rule: dc_steps.induct)
  case (ds_dec c now w)
  have "dc_ok c" by (rule dc_reach_ok [OF dc_steps_reach [OF ds_dec.hyps ds_dec.prems(1)]])
  then obtain A where "window_rel A (replay c)" by (auto simp: dc_ok_def)
  from rw.chk_stays [OF this] ds_dec.IH [OF ds_dec.prems] show ?case by (simp add: decrypt_replay)
qed (simp_all add: encrypt_frame cleanup_fragments_def)

lemma rejected_after:
  assumes "dc_reach E ch" and "decrypt E now w ch = (r, ch1)"
  shows "\<not> reaches_window w \<or> \<not> fst (check (int (wire_id w)) (replay ch1))"
proof -
  from dc_reach_ok [OF assms(1)] obtain A where A: "window_rel A (replay ch)"
    by (auto simp: dc_ok_def)
  have "replay ch1 = (if reaches_window w then snd (check (int (wire_id w)) (replay ch)) else replay ch)"
    using decrypt_replay [of E now w ch] assms(2) by simp
  then show ?thesis
    using rw.chk_twice [OF A, of "int (wire_id w)"]
      check_rejected_same [of "int (wire_id w)" "replay ch"]
    by (cases "fst (check (int (wire_id w)) (replay ch))") auto
qed

text \<open>
  Claim C16. Replays are dead for good: in every reachable channel state, once a datagram has been
  delivered, whatever it is and whatever it did, every later delivery of the same bytes
  yields no data and leaves the channel exactly as it was, no matter what the channel has
  encrypted, decrypted and cleaned up in between.
\<close>

theorem decrypt_replay_rejected:
  assumes "dc_reach E ch" and "decrypt E now w ch = (r, ch1)" and "dc_steps E ch1 ch2"
  shows "decrypt E later w ch2 = (Inr None, ch2)"
proof (rule decrypt_rejected)
  have "dc_reach E ch1" using dc_dec [OF assms(1), of now w] assms(2) by simp
  with rejected_after [OF assms(1,2)] rejected_stays [OF assms(3)]
  show "\<not> reaches_window w \<or> \<not> fst (check (int (wire_id w)) (replay ch2))" by blast
qed

theorem decrypt_replay_rejected_witness:
  "let w = replicate 50 5; c1 = snd (decrypt toy_prims 0 w toy_channel);
       c2 = snd (decrypt toy_prims 1 (5 # replicate 60 1) (cleanup_fragments 1 c1))
   in decrypt toy_prims 2 w c2 = (Inr None, c2)"
  unfolding Let_def
  by (rule decrypt_replay_rejected [OF toy_channel_reach prod.collapse [symmetric]], rule ds_dec, rule ds_clean, rule ds_none)

text \<open>
  Claim C30. The replay window moves before the packet is authenticated: in every reachable
  state, after one datagram that reaches the window, forged or not, every packet whose id is
  \<open>window_size\<close> or more below the id in that datagram is dropped. A single forged datagram
  with id \<open>2 ^ 32 - 1\<close> therefore silences the peer's session for good.
\<close>

theorem forged_id_blocks_session:
  assumes "dc_reach E ch" and "reaches_window forged"
    and "int (wire_id w) + window_size (replay ch) \<le> int (wire_id forged)"
    and "decrypt E now forged ch = (r, ch1)"
  shows "decrypt E later w ch1 = (Inr None, ch1)"
proof (rule decrypt_rejected)
  let ?f = "int (wire_id forged)" and ?p = "int (wire_id w)"
  from dc_reach_ok [OF assms(1)] obtain A where A: "window_rel A (replay ch)"
    by (auto simp: dc_ok_def)
  have rep: "replay ch1 = snd (check ?f (replay ch))"
    using decrypt_replay [of E now forged ch] assms(2,4) by simp
  let ?B = "if spec_accept (window_size (replay ch)) A ?f then insert ?f A else A"
  have B: "window_rel ?B (replay ch1)" unfolding rep by (rule check_rel [OF A])
  have "finite ?B" using B by (simp add: window_rel_def)
  have "?B \<noteq> {} \<and> ?f \<le> Max ?B"
  proof (cases "spec_accept (window_size (replay ch)) A ?f")
    case True
    with \<open>finite ?B\<close> show ?thesis by simp
  next
    case False
    have "A \<noteq> {} \<and> ?f \<le> Max A"
      using False A by (auto simp: spec_accept_def window_rel_def)
    with False show ?thesis by simp
  qed
  moreover have "window_size (replay ch1) = window_size (replay ch)"
    unfolding rep by (rule check_window_size)
  ultimately have "\<not> fst (check ?p (replay ch1))"
    using check_refines [OF B, of ?p] assms(3) by (simp add: spec_accept_def)
  then show "\<not> reaches_window w \<or> \<not> fst (check ?p (replay ch1))" ..
qed

lemma wire_layout:
  assumes "length h = 8" and "n < 256 ^ 4"
  shows "wire_id (b # h @ be_bytes 4 n @ q) = n"
    and "reaches_window (b # h @ be_bytes 4 n @ q) \<longleftrightarrow>
      is_ok (opcode_of (unat b)) \<and> 29 \<le> length q"
proof -
  have "slice ((b # h) @ be_bytes 4 n @ q) 9 13 = be_bytes 4 n"
    by (intro slice_mid) (simp_all add: assms)
  then show "wire_id (b # h @ be_bytes 4 n @ q) = n"
    using assms(2) by (simp add: wire_id_def)
  show "reaches_window (b # h @ be_bytes 4 n @ q) \<longleftrightarrow>
      is_ok (opcode_of (unat b)) \<and> 29 \<le> length q"
    using assms(1) by (cases "opcode_of (unat b)")
      (auto simp: reaches_window_def decode_packet_Cons)
qed

definition forged_packet :: bytes where
  "forged_packet = 5 # replicate 8 0 @ be_bytes 4 4294967295 @ replicate 29 0"

lemma forged_packet_id: "wire_id forged_packet = 4294967295" "reaches_window forged_packet"
  using wire_layout [of "replicate 8 0" 4294967295 5 "replicate 29 0"]
  by (simp_all add: forged_packet_def opcode_of_def)

definition toy_wire :: bytes where
  "toy_wire = 5 # be_bytes 8 (of_be [3, 3, 3, 3, 3, 3, 3, 3]) @ be_bytes 4 1 @
     cipher_encrypt toy_prims (toy_nonce 0) (Cipher toy_key)
       (compress_inner toy_prims toy_channel [0x45])
       (Some ([3, 3, 3, 3, 3, 3, 3, 3] @ be_bytes 4 1))"

lemma toy_wire_sent: "fst (encrypt toy_prims toy_nonce [0x45] toy_channel) = Inr [toy_wire]"
  using encrypt_one_eq [of toy_channel "Cipher toy_key" 1 toy_prims "toy_nonce 0" "[0x45]"]
  by (simp add: encrypt_small MAX_PAYLOAD_def toy_channel_def toy_wire_def)

theorem forged_id_blocks_session_witness:
  "fst (encrypt toy_prims toy_nonce [0x45] toy_channel) = Inr [toy_wire] \<and>
   decrypt toy_prims 1 toy_wire (snd (decrypt toy_prims 0 forged_packet toy_channel)) =
     (Inr None, snd (decrypt toy_prims 0 forged_packet toy_channel))"
proof -
  have "wire_id toy_wire = 1"
    unfolding toy_wire_def by (rule wire_layout) simp_all
  then have "decrypt toy_prims 1 toy_wire (snd (decrypt toy_prims 0 forged_packet toy_channel)) =
      (Inr None, snd (decrypt toy_prims 0 forged_packet toy_channel))"
    by (intro forged_id_blocks_session [OF toy_channel_reach, of forged_packet _ 0
          "fst (decrypt toy_prims 0 forged_packet toy_channel)"])
      (simp_all add: forged_packet_id toy_channel_def toy_window_def)
  with toy_wire_sent show ?thesis by blast
qed

text \<open>
  The fragment marker is not escaped: an unfragmented plaintext of one to three
  bytes whose first byte has its top bit set is sent without error and silently lost by the
  receiver.
\<close>

theorem marker_byte_lost:
  assumes "aead_ok E" "lz4_ok E" and "dc_paired E c1 c2" and "length (rnd 0) = 12"
    and "pt \<noteq> []" and "length pt < 4" and "hd pt AND FRAG_MASK \<noteq> 0"
    and "window_rel A (replay c2)" "\<forall>x\<in>A. x \<le> int (packet_counter c1)"
    and "encrypt E rnd pt c1 = (Inr [w], c1')"
  shows "fst (decrypt E now w c2) = Inr None"
proof -
  have "length pt \<le> MAX_PAYLOAD" using assms(6) by (simp add: MAX_PAYLOAD_def)
  from next_packet [OF assms(1-4) this assms(8-10), of now]
  show ?thesis using assms(5-7) by (cases pt) (auto simp: reassemble_def)
qed

theorem marker_byte_lost_witness:
  "\<exists>w c1'. encrypt toy_prims toy_nonce [0x80] toy_channel = (Inr [w], c1') \<and>
     fst (decrypt toy_prims 0 w toy_channel) = Inr None"
proof -
  obtain w c1' where w: "encrypt toy_prims toy_nonce [0x80] toy_channel = (Inr [w], c1')"
    using encrypt_one_eq [of toy_channel "Cipher toy_key" 1 toy_prims "toy_nonce 0" "[0x80]"]
    by (simp add: encrypt_small MAX_PAYLOAD_def toy_channel_def)
  have "fst (decrypt toy_prims 0 w toy_channel) = Inr None"
    by (rule marker_byte_lost [OF toy_aead_ok toy_lz4_ok toy_paired _ _ _ _ _ _ w, where A = "{}"])
      (simp_all add: FRAG_MASK_def toy_channel_def toy_window_rel)
  with w show ?thesis by blast
qed

text \<open>
  A fragment index is not checked against its total: a peer that holds the session
  key and sends one fragment of a one-fragment group with an index other than 0 makes
  \<open>decrypt\<close> raise KeyError instead of dropping the packet, and the group stays in memory.
\<close>

theorem bad_fragment_index_raises:
  assumes "aead_ok E" "lz4_ok E" and "dc_paired E c1 c2" and "length (rnd 0) = 12"
    and "0 < i" and "i < 256" and "raw \<noteq> []" and "length raw < MAX_PAYLOAD - 2"
    and "map_of (fragments c2) (int (packet_counter c1 + 1) - int i) = None"
    and "window_rel A (replay c2)" "\<forall>x\<in>A. x \<le> int (packet_counter c1)"
    and "encrypt E rnd (FRAG_MASK # 1 # word_of_nat i # raw) c1 = (Inr [w], c1')"
  shows "\<exists>c2'. decrypt E now w c2 = (Inl KeyError, c2') \<and>
    map_of (fragments c2') (int (packet_counter c1 + 1) - int i) =
      Some \<lparr>fb_total = 1, fb_fragments = [(i, raw)], fb_ts = now\<rparr>"
proof -
  let ?pl = "FRAG_MASK # 1 # word_of_nat i # raw"
  have "length ?pl \<le> MAX_PAYLOAD" using assms(8) by simp
  from next_packet [OF assms(1-4) this assms(10-12), of now] obtain rw
    where d: "decrypt E now w c2 =
      reassemble now (packet_counter c1 + 1) ?pl (c2\<lparr>replay := rw\<rparr>)" by blast
  have len: "\<not> length ?pl < 4" using assms(7) by (cases raw) simp_all
  have ix: "unat (word_of_nat i :: byte) = i" using assms(6) by (simp add: unat_of_nat)
  show ?thesis unfolding d
    using assms(5,9) len ix by (simp add: reassemble_def add_fragment_def Let_def map_of_update)
qed

theorem bad_fragment_index_raises_witness:
  "\<exists>w c1' c2'. encrypt toy_prims toy_nonce [0x80, 1, 5, 9] toy_channel = (Inr [w], c1') \<and>
     decrypt toy_prims 0 w toy_channel = (Inl KeyError, c2')"
proof -
  let ?pl = "FRAG_MASK # 1 # word_of_nat 5 # [9 :: byte]"
  obtain w c1' where w: "encrypt toy_prims toy_nonce ?pl toy_channel = (Inr [w], c1')"
    using encrypt_one_eq [of toy_channel "Cipher toy_key" 1 toy_prims "toy_nonce 0" ?pl]
    by (simp add: encrypt_small MAX_PAYLOAD_def toy_channel_def)
  have "\<exists>c2'. decrypt toy_prims 0 w toy_channel = (Inl KeyError, c2') \<and>
    map_of (fragments c2') (int (packet_counter toy_channel + 1) - int 5) =
      Some \<lparr>fb_total = 1, fb_fragments = [(5, [9])], fb_ts = 0\<rparr>"
    by (rule bad_fragment_index_raises [OF toy_aead_ok toy_lz4_ok toy_paired _ _ _ _ _ _ _ _ w,
          where A = "{}"])
      (simp_all add: MAX_PAYLOAD_def toy_channel_def toy_window_rel)
  with w show ?thesis by (auto simp: FRAG_MASK_def)
qed

end
