(* ===== verification/Py_Text.thy ===== *)
theory Py_Text
  imports Py_Prelude
begin

text \<open>
  The string methods of Python that the program uses (\<^verbatim>\<open>split\<close>, \<^verbatim>\<open>strip\<close>, \<^verbatim>\<open>join\<close>,
  \<^verbatim>\<open>rsplit\<close>, \<^verbatim>\<open>lower\<close>, \<^verbatim>\<open>int\<close>, \<^verbatim>\<open>encode\<close> and \<^verbatim>\<open>decode\<close>), and the part of the standard
  library's \<^verbatim>\<open>ipaddress\<close> it calls: parsing and printing of IPv4 addresses and of networks with
  a prefix length, netmask or hostmask. A Python string is represented by the characters of
  its UTF-8 encoding; white space, digits and case are those of ASCII.
\<close>

section \<open>Splitting and joining\<close>

fun split_by :: "('a \<Rightarrow> bool) \<Rightarrow> 'a list \<Rightarrow> 'a list list" where
  "split_by p [] = [[]]"
| "split_by p (x # xs) =
     (if p x then [] # split_by p xs
      else (case split_by p xs of [] \<Rightarrow> [[x]] | w # ws \<Rightarrow> (x # w) # ws))"

definition split_on :: "char \<Rightarrow> string \<Rightarrow> string list" where
  "split_on c s = split_by ((=) c) s"

fun join :: "string \<Rightarrow> string list \<Rightarrow> string" where
  "join sep [] = []"
| "join sep [w] = w"
| "join sep (w # v # ws) = w @ sep @ join sep (v # ws)"

definition is_space :: "char \<Rightarrow> bool" where
  "is_space c = (let n = (of_char c :: nat) in (9 \<le> n \<and> n \<le> 13) \<or> (28 \<le> n \<and> n \<le> 32))"

definition split_ws :: "string \<Rightarrow> string list" where
  "split_ws s = filter (\<lambda>w. w \<noteq> []) (split_by is_space s)"

definition strip :: "string \<Rightarrow> string" where
  "strip s = rev (dropWhile is_space (rev (dropWhile is_space s)))"

text \<open>\<^verbatim>\<open>s.rsplit(c, 1)[0]\<close>\<close>

definition before_last :: "char \<Rightarrow> string \<Rightarrow> string" where
  "before_last c s =
     (if c \<in> set s then rev (tl (dropWhile (\<lambda>x. x \<noteq> c) (rev s))) else s)"

definition lower_char :: "char \<Rightarrow> char" where
  "lower_char c =
     (let n = (of_char c :: nat) in if 65 \<le> n \<and> n \<le> 90 then char_of (n + 32) else c)"

definition lower :: "string \<Rightarrow> string" where
  "lower s = map lower_char s"

definition utf8_encode :: "string \<Rightarrow> bytes" where
  "utf8_encode s = map of_char s"

definition utf8_tail :: "nat \<Rightarrow> bool" where
  "utf8_tail b \<longleftrightarrow> 128 \<le> b \<and> b < 192"

fun utf8_valid :: "nat list \<Rightarrow> bool" where
  "utf8_valid [] = True"
| "utf8_valid (a # bs) =
     (if a < 128 then utf8_valid bs
      else case bs of
        [] \<Rightarrow> False
      | b # cs \<Rightarrow>
          if 194 \<le> a \<and> a < 224 then utf8_tail b \<and> utf8_valid cs
          else case cs of
            [] \<Rightarrow> False
          | c # ds \<Rightarrow>
              if 224 \<le> a \<and> a < 240 then
                utf8_tail b \<and> utf8_tail c \<and> (a = 224 \<longrightarrow> 160 \<le> b) \<and> (a = 237 \<longrightarrow> b < 160) \<and>
                utf8_valid ds
              else case ds of
                [] \<Rightarrow> False
              | d # es \<Rightarrow>
                  240 \<le> a \<and> a < 245 \<and> utf8_tail b \<and> utf8_tail c \<and> utf8_tail d \<and>
                  (a = 240 \<longrightarrow> 144 \<le> b) \<and> (a = 244 \<longrightarrow> b < 144) \<and> utf8_valid es)"

definition utf8_decode :: "bytes \<Rightarrow> string res" where
  "utf8_decode bs =
     (if utf8_valid (map unat bs) then Inr (map (\<lambda>b. char_of (unat b)) bs)
      else Inl UnicodeDecodeError)"

lemma utf8_valid_ascii: "\<forall>n \<in> set ns. n < 128 \<Longrightarrow> utf8_valid ns"
  by (induction ns) auto

lemma unat_of_char [simp]: "unat (of_char c :: byte) = of_char c"
proof -
  have "unat (of_nat (of_char c) :: byte) = of_char c" by (simp add: unat_of_nat)
  then show ?thesis by (simp only: of_nat_of_char)
qed

lemma utf8_decode_encode_ascii:
  assumes "\<forall>c \<in> set s. (of_char c :: nat) < 128"
  shows "utf8_decode (utf8_encode s) = Inr s"
  using assms by (simp add: utf8_decode_def utf8_encode_def utf8_valid_ascii o_def)

lemma split_by_append:
  "\<forall>x \<in> set w. \<not> p x \<Longrightarrow> p c \<Longrightarrow> split_by p (w @ c # s) = w # split_by p s"
  by (induction w) auto

lemma split_by_none: "\<forall>x \<in> set w. \<not> p x \<Longrightarrow> split_by p w = [w]"
  by (induction w) auto

lemma split_on_join:
  "ws \<noteq> [] \<Longrightarrow> \<forall>w \<in> set ws. c \<notin> set w \<Longrightarrow> split_on c (join [c] ws) = ws"
proof (induction "[c]" ws rule: join.induct)
  case (2 w)
  then show ?case by (auto simp: split_on_def intro: split_by_none)
next
  case (3 w v ws)
  then have "split_on c (join [c] (v # ws)) = v # ws" by auto
  moreover have "\<forall>x \<in> set w. c \<noteq> x" using 3 by auto
  ultimately show ?case by (simp add: split_on_def split_by_append)
qed simp

lemma join_split_on: "join [c] (split_on c s) = s"
proof (induction s)
  case (Cons x xs)
  have ne: "split_on c ys \<noteq> []" for ys by (cases ys) (auto simp: split_on_def split: list.split)
  obtain w ws where w: "split_on c xs = w # ws" using ne [of xs] by (cases "split_on c xs") auto
  with Cons show ?case
    by (cases ws) (auto simp: split_on_def)
qed (simp add: split_on_def)

text \<open>\<^verbatim>\<open>int(s)\<close>: white space around, an optional sign, groups of digits between underscores.\<close>

definition parse_unsigned :: "string \<Rightarrow> nat res" where
  "parse_unsigned s =
     (let groups = split_on (CHR ''_'') s in
      if list_all (\<lambda>g. g \<noteq> [] \<and> list_all is_digit g) groups
      then Inr (digits_value (concat groups)) else Inl ValueError)"

definition py_int :: "string \<Rightarrow> int res" where
  "py_int s =
     (case strip s of
        [] \<Rightarrow> Inl ValueError
      | c # t \<Rightarrow>
          if c = CHR ''-'' then res_bind (parse_unsigned t) (\<lambda>n. Inr (- int n))
          else if c = CHR ''+'' then res_bind (parse_unsigned t) (\<lambda>n. Inr (int n))
          else res_bind (parse_unsigned (c # t)) (\<lambda>n. Inr (int n)))"

lemma digit_not_special:
  assumes "is_digit c"
  shows "\<not> is_space c" "c \<noteq> CHR ''-''" "c \<noteq> CHR ''+''" "c \<noteq> CHR ''_''" "c \<noteq> CHR ''.''"
    "c \<noteq> CHR ''/''"
  using assms by (auto simp: is_digit_def is_space_def Let_def)

lemma strip_id: "\<forall>c \<in> set s. \<not> is_space c \<Longrightarrow> strip s = s"
proof -
  assume a: "\<forall>c \<in> set s. \<not> is_space c"
  have d: "dropWhile is_space t = t" if "\<forall>c \<in> set t. \<not> is_space c" for t
    using that by (cases t) auto
  from a d [of s] d [of "rev s"] show ?thesis by (simp add: strip_def)
qed

lemma parse_unsigned_str_nat [simp]: "parse_unsigned (str_nat n) = Inr n"
proof -
  have "split_on (CHR ''_'') (str_nat n) = [str_nat n]"
    unfolding split_on_def using str_nat_digits digit_not_special(4) by (intro split_by_none) blast
  then show ?thesis using str_nat_digits by (simp add: parse_unsigned_def list_all_iff)
qed

lemma py_int_str_nat [simp]: "py_int (str_nat n) = Inr (int n)"
proof -
  obtain c t where ct: "str_nat n = c # t" using str_nat_nonempty by (cases "str_nat n") auto
  then have "is_digit c" using str_nat_digits [of n] by simp
  moreover have "strip (str_nat n) = str_nat n"
    using str_nat_digits digit_not_special(1) by (intro strip_id) blast
  ultimately show ?thesis
    using parse_unsigned_str_nat [of n] ct by (simp add: py_int_def digit_not_special)
qed

section \<open>IPv4 addresses\<close>

definition parse_octet :: "string \<Rightarrow> nat res" where
  "parse_octet s =
     (if s = [] \<or> \<not> list_all is_digit s \<or> 3 < length s \<or> (s \<noteq> ''0'' \<and> hd s = CHR ''0'')
      then Inl ValueError
      else let v = digits_value s in if 255 < v then Inl ValueError else Inr v)"

definition parse_ipv4 :: "string \<Rightarrow> int res" where
  "parse_ipv4 s =
     (case split_on (CHR ''.'') s of
        [a, b, c, d] \<Rightarrow>
          res_bind (parse_octet a) (\<lambda>w. res_bind (parse_octet b) (\<lambda>x.
          res_bind (parse_octet c) (\<lambda>y. res_bind (parse_octet d) (\<lambda>z.
          Inr (int (((w * 256 + x) * 256 + y) * 256 + z))))))
      | _ \<Rightarrow> Inl ValueError)"

text \<open>\<^verbatim>\<open>IPv4Address(i)\<close> for an integer, and its \<^verbatim>\<open>str\<close>.\<close>

definition ipv4_of_int :: "int \<Rightarrow> int res" where
  "ipv4_of_int i = (if 0 \<le> i \<and> i < 2 ^ 32 then Inr i else Inl ValueError)"

definition ip_octets :: "int \<Rightarrow> nat list" where
  "ip_octets i = map (\<lambda>k. nat (i div 256 ^ k mod 256)) [3, 2, 1, 0]"

definition ip_str :: "int \<Rightarrow> string" where
  "ip_str i = join ''.'' (map str_nat (ip_octets i))"

lemma str_nat_small: "n < 10 \<Longrightarrow> str_nat n = [digit_char n]"
  by (simp add: str_nat.simps)

lemma str_nat_step: "10 \<le> n \<Longrightarrow> str_nat n = str_nat (n div 10) @ [digit_char (n mod 10)]"
  by (subst str_nat.simps) simp

lemma length_str_nat_le: "n < 10 ^ Suc k \<Longrightarrow> length (str_nat n) \<le> Suc k"
proof (induction k arbitrary: n)
  case 0
  then show ?case by (simp add: str_nat_small)
next
  case (Suc k)
  show ?case
  proof (cases "n < 10")
    case True
    then show ?thesis by (simp add: str_nat_small)
  next
    case False
    from Suc.prems have "n div 10 < 10 ^ Suc k" by (simp add: div_less_iff_less_mult)
    from Suc.IH [OF this] False show ?thesis by (simp add: str_nat_step)
  qed
qed

lemma length_str_nat_octet: "n < 256 \<Longrightarrow> length (str_nat n) \<le> 3"
  using length_str_nat_le [of n 2] by simp

lemma str_nat_no_leading_zero: "0 < n \<Longrightarrow> hd (str_nat n) \<noteq> CHR ''0''"
proof (induction n rule: str_nat.induct)
  case (1 n)
  show ?case
  proof (cases "n < 10")
    case True
    have "(of_char (digit_char n) :: nat) \<noteq> of_char (CHR ''0'')"
      using 1 True by (simp add: of_digit_char)
    then have "digit_char n \<noteq> CHR ''0''" by metis
    with True show ?thesis by (simp add: str_nat_small)
  next
    case False
    with 1 show ?thesis by (simp add: str_nat_step)
  qed
qed

lemma parse_octet_str_nat [simp]:
  assumes "n < 256"
  shows "parse_octet (str_nat n) = Inr n"
proof -
  have "str_nat n = ''0'' \<or> hd (str_nat n) \<noteq> CHR ''0''"
  proof (cases "n = 0")
    case True
    then show ?thesis by (simp add: str_nat_small digit_char_def)
  next
    case False
    then show ?thesis using str_nat_no_leading_zero by blast
  qed
  then show ?thesis
    using assms length_str_nat_octet [OF assms] str_nat_digits
    by (auto simp: parse_octet_def list_all_iff)
qed

lemma ip_octets_value:
  assumes "0 \<le> i" and "i < 2 ^ 32"
  shows "int (((nat (i div 256 ^ 3 mod 256) * 256 + nat (i div 256 ^ 2 mod 256)) * 256 +
    nat (i div 256 ^ 1 mod 256)) * 256 + nat (i div 256 ^ 0 mod 256)) = i"
proof -
  define a where "a = i div 256"
  define b where "b = a div 256"
  define c where "c = b div 256"
  have b2: "i div 256 ^ 2 = b" and c3: "i div 256 ^ 3 = c"
    by (simp_all add: a_def b_def c_def flip: zdiv_zmult2_eq)
  have "i = a * 256 + i mod 256" "a = b * 256 + a mod 256" "b = c * 256 + b mod 256"
    by (simp_all add: a_def b_def c_def)
  moreover have c0: "0 \<le> c"
    unfolding c3 [symmetric] using assms(1) by (intro div_int_pos_iff [THEN iffD2]) simp
  moreover have "c mod 256 = c"
  proof -
    note c0
    moreover have "c < 256" unfolding c3 [symmetric] using assms by (simp add: div_less_iff_less_mult)
    ultimately show ?thesis by simp
  qed
  moreover have "int (nat (x mod 256)) = x mod 256" for x by simp
  ultimately show ?thesis
    unfolding b2 c3 of_nat_add of_nat_mult power_0 power_one_right a_def [symmetric] by simp
qed

lemma split_ip_str: "split_on (CHR ''.'') (ip_str i) = map str_nat (ip_octets i)"
  unfolding ip_str_def
  by (rule split_on_join) (use str_nat_digits digit_not_special(5) in \<open>auto simp: ip_octets_def\<close>)

lemma parse_ip_str:
  assumes "0 \<le> i" and "i < 2 ^ 32"
  shows "parse_ipv4 (ip_str i) = Inr i"
proof -
  have "nat (i div k mod 256) < 256" for k by simp
  then show ?thesis
    using ip_octets_value [OF assms]
    by (simp only: parse_ipv4_def split_ip_str ip_octets_def list.map list.case
        parse_octet_str_nat res_bind_simps)
qed

lemma ip_str_inj:
  "0 \<le> i \<Longrightarrow> i < 2 ^ 32 \<Longrightarrow> 0 \<le> j \<Longrightarrow> j < 2 ^ 32 \<Longrightarrow> ip_str i = ip_str j \<longleftrightarrow> i = j"
  by (metis parse_ip_str sum.inject(2))

lemma set_join: "set (join sep ws) \<subseteq> set sep \<union> \<Union> (set ` set ws)"
  by (induction sep ws rule: join.induct) auto

lemma ip_str_chars:
  assumes "c \<in> set (ip_str i)"
  shows "c = CHR ''.'' \<or> is_digit c"
proof -
  from assms have "c \<in> set ''.'' \<union> \<Union> (set ` set (map str_nat (ip_octets i)))"
    unfolding ip_str_def using set_join by blast
  then show ?thesis using str_nat_digits by auto
qed

lemma ip_str_nonempty [simp]: "ip_str i \<noteq> []"
  by (simp add: ip_str_def ip_octets_def)

lemma length_join:
  "\<forall>w\<in>set ws. length w \<le> k \<Longrightarrow> length (join [c] ws) \<le> length ws * (k + 1)"
  by (induction "[c]" ws rule: join.induct) auto

lemma ip_str_short: "length (ip_str i) \<le> 16"
proof -
  have "\<forall>w\<in>set (map str_nat (ip_octets i)). length w \<le> 3"
    by (auto simp: ip_octets_def intro!: length_str_nat_octet)
  from length_join [OF this, of "CHR ''.''"] show ?thesis by (simp add: ip_str_def ip_octets_def)
qed

lemma ip_str_decode: "utf8_decode (utf8_encode (ip_str i)) = Inr (ip_str i)"
proof (rule utf8_decode_encode_ascii, rule ballI)
  fix c assume "c \<in> set (ip_str i)"
  from ip_str_chars [OF this] show "(of_char c :: nat) < 128" by (auto simp: is_digit_def)
qed

section \<open>IPv4 networks\<close>

text \<open>
  \<^verbatim>\<open>IPv4Network(s, strict=False)\<close>: the part after the slash is a prefix length, else a
  netmask, else a hostmask; without a slash the prefix length is 32.
\<close>

definition prefix_from_string :: "string \<Rightarrow> nat res" where
  "prefix_from_string s =
     (if s = [] \<or> \<not> list_all is_digit s then Inl ValueError
      else let n = digits_value s in if 32 < n then Inl ValueError else Inr n)"

definition prefix_from_mask :: "int \<Rightarrow> nat option" where
  "prefix_from_mask m = List.find (\<lambda>n. m = 2 ^ 32 - 2 ^ (32 - n)) [0..<33]"

definition parse_prefix :: "string \<Rightarrow> nat res" where
  "parse_prefix s =
     (case prefix_from_string s of
        Inr n \<Rightarrow> Inr n
      | Inl _ \<Rightarrow>
          res_bind (parse_ipv4 s) (\<lambda>m.
          case prefix_from_mask m of
            Some n \<Rightarrow> Inr n
          | None \<Rightarrow> of_opt ValueError (prefix_from_mask (2 ^ 32 - 1 - m))))"

record ipv4_network =
  network_address :: int
  prefixlen :: nat

definition broadcast_address :: "ipv4_network \<Rightarrow> int" where
  "broadcast_address n = network_address n + 2 ^ (32 - prefixlen n) - 1"

definition make_network :: "int \<Rightarrow> nat \<Rightarrow> ipv4_network" where
  "make_network ip n = \<lparr>network_address = ip - ip mod 2 ^ (32 - n), prefixlen = n\<rparr>"

definition parse_network :: "string \<Rightarrow> ipv4_network res" where
  "parse_network s =
     (case split_on (CHR ''/'') s of
        [a] \<Rightarrow> res_bind (parse_ipv4 a) (\<lambda>ip. Inr (make_network ip 32))
      | [a, m] \<Rightarrow>
          res_bind (parse_ipv4 a) (\<lambda>ip. res_bind (parse_prefix m) (\<lambda>n. Inr (make_network ip n)))
      | _ \<Rightarrow> Inl ValueError)"

lemma parse_octet_less: "parse_octet s = Inr v \<Longrightarrow> v < 256"
  by (auto simp: parse_octet_def Let_def split: if_splits)

lemma parse_ipv4_range:
  assumes "parse_ipv4 s = Inr i"
  shows "0 \<le> i \<and> i < 2 ^ 32"
proof -
  from assms obtain w x y z where "w < 256" "x < 256" "y < 256" "z < 256"
    and "i = int (((w * 256 + x) * 256 + y) * 256 + z)"
    by (auto simp: parse_ipv4_def res_bind_Inr_iff dest!: parse_octet_less split: list.splits)
  then show ?thesis by simp
qed

lemma prefix_from_mask_le: "prefix_from_mask m = Some n \<Longrightarrow> n \<le> 32"
  by (auto simp: prefix_from_mask_def find_Some_iff)

lemma parse_prefix_le: "parse_prefix s = Inr n \<Longrightarrow> n \<le> 32"
  by (auto simp: parse_prefix_def prefix_from_string_def Let_def res_bind_Inr_iff of_opt_Inr_iff
      dest: prefix_from_mask_le split: sum.splits if_splits option.splits)

lemma make_network_range:
  assumes "0 \<le> ip" and "ip < 2 ^ 32" and "n \<le> 32"
  shows "0 \<le> network_address (make_network ip n)"
    and "broadcast_address (make_network ip n) < 2 ^ 32"
    and "network_address (make_network ip n) \<le> broadcast_address (make_network ip n)"
proof -
  let ?k = "32 - n"
  have eq: "network_address (make_network ip n) = ip div 2 ^ ?k * 2 ^ ?k"
    by (simp add: make_network_def minus_mod_eq_div_mult)
  show "0 \<le> network_address (make_network ip n)"
    unfolding eq using assms by (simp add: pos_imp_zdiv_nonneg_iff)
  have "(2::int) ^ 32 = 2 ^ n * 2 ^ ?k" using assms(3) by (simp flip: power_add)
  moreover have "ip div 2 ^ ?k * 2 ^ ?k \<le> ip"
    using div_mult_mod_eq [of ip "2 ^ ?k"] pos_mod_sign [of "2 ^ ?k" ip] zero_less_power [of "2 :: int" ?k]
    by linarith
  ultimately have "ip div 2 ^ ?k * 2 ^ ?k < 2 ^ n * 2 ^ ?k" using assms(2) by linarith
  then have "ip div 2 ^ ?k < 2 ^ n" by (simp only: mult_less_cancel_right) simp
  then have "(ip div 2 ^ ?k + 1) * 2 ^ ?k \<le> 2 ^ n * 2 ^ ?k" by (intro mult_right_mono) auto
  with \<open>(2::int) ^ 32 = 2 ^ n * 2 ^ ?k\<close> show "broadcast_address (make_network ip n) < 2 ^ 32"
    by (simp add: broadcast_address_def eq algebra_simps)
      (simp add: make_network_def)
  show "network_address (make_network ip n) \<le> broadcast_address (make_network ip n)"
    by (simp add: broadcast_address_def)
qed

lemma parse_network_range:
  assumes "parse_network s = Inr net"
  shows "0 \<le> network_address net" and "broadcast_address net < 2 ^ 32"
    and "network_address net \<le> broadcast_address net" and "prefixlen net \<le> 32"
proof -
  from assms obtain ip n a where net: "net = make_network ip n" and "parse_ipv4 a = Inr ip"
    and "n = 32 \<or> (\<exists>m. parse_prefix m = Inr n)"
    by (auto simp: parse_network_def res_bind_Inr_iff split: list.splits)
  then have "0 \<le> ip" and "ip < 2 ^ 32" and "n \<le> 32"
    using parse_ipv4_range [of a ip] parse_prefix_le by auto
  with net show "0 \<le> network_address net" and "broadcast_address net < 2 ^ 32"
    and "network_address net \<le> broadcast_address net" and "prefixlen net \<le> 32"
    using make_network_range [of ip n] by (simp_all add: make_network_def)
qed

end
