(* ===== verification/Config.thy ===== *)
theory Config
  imports Py_Text
begin

text \<open>
  Configuration: \<^verbatim>\<open>src/config.py\<close> (the \<^verbatim>\<open>Config\<close> dataclass, its validation and the parser of
  OpenVPN-style files), the merge of command-line options of \<^verbatim>\<open>src/cli.py\<close>, and the choice of
  mode and log level of \<^verbatim>\<open>src/app.py\<close>.
\<close>

section \<open>The dataclass\<close>

text \<open>
  Values as the parser stores them. A field annotated as a string may in fact hold the list
  of a directive's arguments, so these fields are dynamic; the others have their type.
\<close>

datatype pyval = PNone | PStr string | PInt int | PBool bool | PList "string list"

record config =
  c_dev :: pyval
  c_proto :: pyval
  c_port :: int
  c_remote :: pyval
  c_ifconfig :: pyval
  c_server :: pyval
  c_ifconfig_pool :: pyval
  c_ca :: pyval
  c_cert :: pyval
  c_key :: pyval
  c_cipher_name :: pyval
  c_use_comp_lzo :: bool
  c_keepalive_interval :: int
  c_keepalive_timeout :: int
  c_verb :: int
  c_redirect_gateway :: bool
  c_status_file :: pyval
  c_user :: pyval
  c_extra_options :: "(string \<times> string list) list"

definition default_config :: config where
  "default_config =
     \<lparr>c_dev = PStr ''tun'', c_proto = PStr ''udp'', c_port = 1194, c_remote = PNone, c_ifconfig = PNone,
      c_server = PNone, c_ifconfig_pool = PNone, c_ca = PNone, c_cert = PNone, c_key = PNone,
      c_cipher_name = PStr ''AES-256-GCM'', c_use_comp_lzo = False, c_keepalive_interval = 10,
      c_keepalive_timeout = 120, c_verb = 1, c_redirect_gateway = False, c_status_file = PNone,
      c_user = PNone, c_extra_options = []\<rparr>"

definition post_init :: "config \<Rightarrow> config res" where
  "post_init c =
     (if c_proto c \<noteq> PStr ''udp'' \<and> c_proto c \<noteq> PStr ''tcp'' then Inl ValueError
      else if \<not> (1 \<le> c_port c \<and> c_port c \<le> 65535) then Inl ValueError
      else if \<not> (0 \<le> c_verb c \<and> c_verb c \<le> 4) then Inl ValueError
      else Inr c)"

definition py_true :: "pyval \<Rightarrow> bool" where
  "py_true v =
     (case v of PNone \<Rightarrow> False | PStr s \<Rightarrow> s \<noteq> [] | PInt i \<Rightarrow> i \<noteq> 0 | PBool b \<Rightarrow> b | PList l \<Rightarrow> l \<noteq> [])"

definition get_mode :: "config \<Rightarrow> string" where
  "get_mode c = (if py_true (c_server c) then ''server'' else ''client'')"

section \<open>The parser\<close>

text \<open>
  The parser's \<^verbatim>\<open>kwargs\<close>: values by field, and the extra options. The table of directives
  maps a name to one field, or \<^verbatim>\<open>keepalive\<close> to two.
\<close>

datatype attr = One string | Two string string

definition DIRECTIVES :: "string \<Rightarrow> attr option" where
  "DIRECTIVES = map_of
     [(''dev'', One ''dev''), (''proto'', One ''proto''), (''port'', One ''port''),
      (''remote'', One ''remote''), (''ifconfig'', One ''ifconfig''), (''server'', One ''server''),
      (''ifconfig-pool'', One ''ifconfig_pool''), (''ca'', One ''ca''), (''cert'', One ''cert''),
      (''key'', One ''key''), (''cipher'', One ''cipher''), (''comp-lzo'', One ''comp_lzo''),
      (''keepalive'', Two ''keepalive_interval'' ''keepalive_timeout''), (''verb'', One ''verb''),
      (''redirect-gateway'', One ''redirect_gateway''), (''status'', One ''status_file''),
      (''user'', One ''user'')]"

definition NETMASK_DIRECTIVES :: "string set" where
  "NETMASK_DIRECTIVES = {''server''}"

definition POOL_DIRECTIVES :: "string set" where
  "POOL_DIRECTIVES = {''ifconfig-pool''}"

datatype field_type = IntField | BoolField | OtherField

definition field_type_of :: "string \<Rightarrow> field_type" where
  "field_type_of k =
     (if k \<in> {''port'', ''keepalive_interval'', ''keepalive_timeout'', ''verb''} then IntField
      else if k \<in> {''comp_lzo'', ''redirect_gateway''} then BoolField
      else OtherField)"

record kwargs =
  vals :: "(string \<times> pyval) list"
  extra :: "(string \<times> string list) list"

definition put :: "string \<Rightarrow> pyval \<Rightarrow> kwargs \<Rightarrow> kwargs" where
  "put k v kw = kw\<lparr>vals := AList.update k v (vals kw)\<rparr>"

definition set_value :: "string \<Rightarrow> pyval \<Rightarrow> kwargs \<Rightarrow> kwargs res" where
  "set_value k v kw =
     (case field_type_of k of
        IntField \<Rightarrow>
          (case v of
             PStr s \<Rightarrow> res_bind (py_int s) (\<lambda>i. Inr (put k (PInt i) kw))
           | _ \<Rightarrow> Inl TypeError)
      | BoolField \<Rightarrow>
          (case v of
             PStr s \<Rightarrow> Inr (put k (PBool (lower s \<in> {''yes'', ''true'', ''1''})) kw)
           | _ \<Rightarrow> Inl AttributeError)
      | OtherField \<Rightarrow> Inr (put k v kw))"

fun popcount :: "nat \<Rightarrow> nat" where
  "popcount n = (if n = 0 then 0 else n mod 2 + popcount (n div 2))"

declare popcount.simps [simp del]

text \<open>The number of \<open>1\<close> digits of \<^verbatim>\<open>f"{int(o):08b}"\<close> over all octets; a sign adds none.\<close>

fun count_ones :: "string list \<Rightarrow> nat res" where
  "count_ones [] = Inr 0"
| "count_ones (w # ws) =
     res_bind (py_int w) (\<lambda>i. res_bind (count_ones ws) (\<lambda>n. Inr (popcount (nat \<bar>i\<bar>) + n)))"

definition netmask_to_cidr :: "string \<Rightarrow> nat res" where
  "netmask_to_cidr netmask = count_ones (split_on (CHR ''.'') netmask)"

definition parse_directive :: "string \<Rightarrow> string list \<Rightarrow> kwargs \<Rightarrow> kwargs res" where
  "parse_directive directive args kw =
     (case DIRECTIVES directive of
        None \<Rightarrow> Inr (kw\<lparr>extra := AList.update directive args (extra kw)\<rparr>)
      | Some (Two a b) \<Rightarrow>
          (case args of
             [] \<Rightarrow> Inr kw
           | [v] \<Rightarrow> set_value a (PStr v) kw
           | v # w # _ \<Rightarrow> res_bind (set_value a (PStr v) kw) (set_value b (PStr w)))
      | Some (One fld) \<Rightarrow>
          if directive \<in> {''comp-lzo'', ''redirect-gateway''} then
            (case args of [] \<Rightarrow> Inr (put fld (PBool True) kw) | v # _ \<Rightarrow> set_value fld (PStr v) kw)
          else if directive \<in> NETMASK_DIRECTIVES \<and> length args = 2 then
            res_bind (netmask_to_cidr (args ! 1)) (\<lambda>prefix.
            Inr (put fld (PStr (args ! 0 @ ''/'' @ str_nat prefix)) kw))
          else if directive \<in> POOL_DIRECTIVES \<and> 2 \<le> length args then
            Inr (put fld (PStr (args ! 0 @ ''-'' @ args ! 1)) kw)
          else
            (case args of [v] \<Rightarrow> set_value fld (PStr v) kw | _ \<Rightarrow> set_value fld (PList args) kw))"

definition parse_line :: "string \<Rightarrow> kwargs \<Rightarrow> kwargs res" where
  "parse_line line0 kw =
     (let line = strip line0 in
      if line = [] \<or> hd line = CHR ''#'' \<or> hd line = CHR '';'' then Inr kw
      else
        case split_ws line of
          [] \<Rightarrow> Inl IndexError
        | directive # args \<Rightarrow> parse_directive directive args kw)"

fun parse_lines :: "string list \<Rightarrow> kwargs \<Rightarrow> kwargs res" where
  "parse_lines [] kw = Inr kw"
| "parse_lines (l # ls) kw = res_bind (parse_line l kw) (parse_lines ls)"

text \<open>\<^verbatim>\<open>Config(**kwargs)\<close>: fields not given have their default.\<close>

definition field_or :: "pyval \<Rightarrow> string \<Rightarrow> kwargs \<Rightarrow> pyval" where
  "field_or d k kw = (case map_of (vals kw) k of None \<Rightarrow> d | Some v \<Rightarrow> v)"

definition int_or :: "int \<Rightarrow> string \<Rightarrow> kwargs \<Rightarrow> int" where
  "int_or d k kw = (case map_of (vals kw) k of Some (PInt i) \<Rightarrow> i | _ \<Rightarrow> d)"

definition bool_or :: "bool \<Rightarrow> string \<Rightarrow> kwargs \<Rightarrow> bool" where
  "bool_or d k kw = (case map_of (vals kw) k of Some (PBool b) \<Rightarrow> b | _ \<Rightarrow> d)"

definition make_config :: "kwargs \<Rightarrow> config res" where
  "make_config kw =
     post_init
      \<lparr>c_dev = field_or (PStr ''tun'') ''dev'' kw, c_proto = field_or (PStr ''udp'') ''proto'' kw,
       c_port = int_or 1194 ''port'' kw, c_remote = field_or PNone ''remote'' kw,
       c_ifconfig = field_or PNone ''ifconfig'' kw, c_server = field_or PNone ''server'' kw,
       c_ifconfig_pool = field_or PNone ''ifconfig_pool'' kw, c_ca = field_or PNone ''ca'' kw,
       c_cert = field_or PNone ''cert'' kw, c_key = field_or PNone ''key'' kw,
       c_cipher_name = field_or (PStr ''AES-256-GCM'') ''cipher'' kw,
       c_use_comp_lzo = bool_or False ''comp_lzo'' kw,
       c_keepalive_interval = int_or 10 ''keepalive_interval'' kw,
       c_keepalive_timeout = int_or 120 ''keepalive_timeout'' kw, c_verb = int_or 1 ''verb'' kw,
       c_redirect_gateway = bool_or False ''redirect_gateway'' kw,
       c_status_file = field_or PNone ''status_file'' kw, c_user = field_or PNone ''user'' kw,
       c_extra_options = extra kw\<rparr>"

definition no_kwargs :: kwargs where
  "no_kwargs = \<lparr>vals = [], extra = []\<rparr>"

text \<open>
  The file's text by path; \<^verbatim>\<open>open\<close> raises where there is none. Text mode ends a line at a
  newline, a carriage return or the pair of them.
\<close>

fun universal_newlines :: "string \<Rightarrow> string" where
  "universal_newlines [] = []"
| "universal_newlines [c] = [if c = CHR 0x0D then CHR ''\<newline>'' else c]"
| "universal_newlines (c # d # cs) =
     (if c = CHR 0x0D then CHR ''\<newline>'' # universal_newlines (if d = CHR ''\<newline>'' then cs else d # cs)
      else c # universal_newlines (d # cs))"

definition parse_config :: "(string \<Rightarrow> string option) \<Rightarrow> string \<Rightarrow> config res" where
  "parse_config files path =
     res_bind (of_opt OSError (files path)) (\<lambda>text.
     res_bind (parse_lines (split_on (CHR ''\<newline>'') (universal_newlines text)) no_kwargs) make_config)"

text \<open>
  The typing invariant that makes \<open>int_or\<close> and \<open>bool_or\<close> total: the parser stores an integer
  in every integer field and a boolean in every boolean field.
\<close>

definition typed_as :: "string \<Rightarrow> pyval \<Rightarrow> bool" where
  "typed_as k v =
     (case field_type_of k of
        IntField \<Rightarrow> (\<exists>i. v = PInt i)
      | BoolField \<Rightarrow> (\<exists>b. v = PBool b)
      | OtherField \<Rightarrow> (\<exists>s. v = PStr s) \<or> (\<exists>l. v = PList l))"

definition kwargs_ok :: "kwargs \<Rightarrow> bool" where
  "kwargs_ok kw \<longleftrightarrow> (\<forall>k v. map_of (vals kw) k = Some v \<longrightarrow> typed_as k v)"

lemma put_ok: "kwargs_ok kw \<Longrightarrow> typed_as k v \<Longrightarrow> kwargs_ok (put k v kw)"
  by (auto simp: kwargs_ok_def put_def map_of_update)

text \<open>What is stored does not depend on what has been stored before.\<close>

lemma set_value_put:
  assumes "set_value k v kw = Inr kw'" and "(\<exists>s. v = PStr s) \<or> (\<exists>l. v = PList l)"
  shows "\<exists>u. typed_as k u \<and> kw' = put k u kw \<and> (\<forall>kx. set_value k v kx = Inr (put k u kx))"
  using assms
  by (auto simp: set_value_def typed_as_def res_bind_Inr_iff
      split: field_type.splits pyval.splits)

text \<open>What one directive does: it stores typed values in the fields of its own entry.\<close>

definition fields_of :: "string \<Rightarrow> string set" where
  "fields_of d = (case DIRECTIVES d of None \<Rightarrow> {} | Some (One a) \<Rightarrow> {a} | Some (Two a b) \<Rightarrow> {a, b})"

lemma typed_as_values:
  "typed_as ''comp_lzo'' (PBool b)" "typed_as ''redirect_gateway'' (PBool b)"
  "typed_as ''server'' (PStr t)" "typed_as ''ifconfig_pool'' (PStr t)"
  by (simp_all add: typed_as_def field_type_of_def)

lemma DIRECTIVES_special:
  "DIRECTIVES ''comp-lzo'' = Some (One ''comp_lzo'')"
  "DIRECTIVES ''redirect-gateway'' = Some (One ''redirect_gateway'')"
  "DIRECTIVES ''server'' = Some (One ''server'')"
  "DIRECTIVES ''ifconfig-pool'' = Some (One ''ifconfig_pool'')"
  by (simp_all add: DIRECTIVES_def)

lemma parse_one_puts:
  assumes "parse_directive d args kw = Inr kw'" and e: "DIRECTIVES d = Some (One a)"
  shows "\<exists>u. typed_as a u \<and> kw' = put a u kw \<and> (\<forall>kx. parse_directive d args kx = Inr (put a u kx))"
proof -
  note sv = set_value_put [of a _ kw kw']
  consider (flag) "d = ''comp-lzo'' \<or> d = ''redirect-gateway''"
    | (net) "d = ''server''" "length args = 2"
    | (range) "d = ''ifconfig-pool''" "2 \<le> length args"
    | (other) "set_value a (case args of [v] \<Rightarrow> PStr v | _ \<Rightarrow> PList args) kw = Inr kw'"
        "\<forall>kx. parse_directive d args kx = set_value a (case args of [v] \<Rightarrow> PStr v | _ \<Rightarrow> PList args) kx"
    using assms
    by (auto simp: parse_directive_def NETMASK_DIRECTIVES_def POOL_DIRECTIVES_def
        split: if_splits list.splits)
  then show ?thesis
  proof cases
    case flag
    then have "typed_as a (PBool True)" using e by (auto simp: DIRECTIVES_special typed_as_values)
    with assms flag sv show ?thesis by (cases args) (auto simp: parse_directive_def)
  next
    case net
    with e have "typed_as a (PStr t)" for t by (auto simp: DIRECTIVES_special typed_as_values(3))
    with assms net show ?thesis
      by (auto simp: parse_directive_def NETMASK_DIRECTIVES_def res_bind_Inr_iff)
  next
    case range
    with e have "typed_as a (PStr t)" for t by (auto simp: DIRECTIVES_special typed_as_values(4))
    with assms range show ?thesis
      by (auto simp: parse_directive_def NETMASK_DIRECTIVES_def POOL_DIRECTIVES_def)
  next
    case other
    then show ?thesis using sv by (auto split: list.splits)
  qed
qed

lemma parse_directive_puts:
  assumes "parse_directive d args kw = Inr kw'"
  shows "\<exists>us. (\<forall>(k, u) \<in> set us. k \<in> fields_of d \<and> typed_as k u) \<and>
    vals kw' = vals (fold (\<lambda>(k, u). put k u) us kw) \<and>
    (\<forall>kx. \<exists>ky. parse_directive d args kx = Inr ky \<and> vals ky = vals (fold (\<lambda>(k, u). put k u) us kx))"
proof (cases "DIRECTIVES d")
  case None
  with assms show ?thesis by (intro exI [of _ "[]"]) (auto simp: parse_directive_def)
next
  case (Some e)
  have one: ?thesis if "kw' = put k u kw" "k \<in> fields_of d" "typed_as k u"
    "\<forall>kx. parse_directive d args kx = Inr (put k u kx)" for k u
    using that by (intro exI [of _ "[(k, u)]"]) simp
  show ?thesis
  proof (cases e)
    case (Two a b)
    then have f: "a \<in> fields_of d" "b \<in> fields_of d" using Some by (simp_all add: fields_of_def)
    consider "args = []" | v where "args = [v]" | v w r where "args = v # w # r"
      by (metis neq_Nil_conv)
    then show ?thesis
    proof cases
      case 1
      with assms Some Two show ?thesis by (intro exI [of _ "[]"]) (simp add: parse_directive_def)
    next
      case (2 v)
      with assms Some Two have "set_value a (PStr v) kw = Inr kw'"
        "\<forall>kx. parse_directive d args kx = set_value a (PStr v) kx" by (simp_all add: parse_directive_def)
      with set_value_put [OF this(1)] f show ?thesis using one by auto
    next
      case (3 v w r)
      with assms Some Two obtain kw1 where kw1: "set_value a (PStr v) kw = Inr kw1" "set_value b (PStr w) kw1 = Inr kw'"
        by (auto simp: parse_directive_def res_bind_Inr_iff)
      from set_value_put [OF kw1(1)] set_value_put [OF kw1(2)] obtain u x where
        "typed_as a u" "kw1 = put a u kw" "typed_as b x" "kw' = put b x kw1"
        "\<forall>kx. set_value a (PStr v) kx = Inr (put a u kx)" "\<forall>kx. set_value b (PStr w) kx = Inr (put b x kx)"
        by blast
      with f 3 Some Two show ?thesis by (intro exI [of _ "[(a, u), (b, x)]"]) (simp add: parse_directive_def)
    qed
  next
    case (One a)
    then have f: "a \<in> fields_of d" using Some by (simp add: fields_of_def)
    from parse_one_puts [OF assms] Some One obtain u where "typed_as a u" "kw' = put a u kw"
      "\<forall>kx. parse_directive d args kx = Inr (put a u kx)" by blast
    with one f show ?thesis by blast
  qed
qed

lemma fold_put_lookup:
  "map_of (vals (fold (\<lambda>(k, u). put k u) us kw)) f =
     (case map_of (rev us) f of None \<Rightarrow> map_of (vals kw) f | Some u \<Rightarrow> Some u)"
  by (induction us arbitrary: kw)
    (auto simp: put_def map_of_update map_add_def split: option.splits)

lemma fold_put_other:
  "(\<forall>(k, u) \<in> set us. k \<noteq> f) \<Longrightarrow>
     map_of (vals (fold (\<lambda>(k, u). put k u) us kw)) f = map_of (vals kw) f"
  by (induction us arbitrary: kw) (auto simp: put_def map_of_update)

lemma fold_put_ok:
  "(\<forall>(k, u) \<in> set us. typed_as k u) \<Longrightarrow> kwargs_ok kw \<Longrightarrow>
     kwargs_ok (fold (\<lambda>(k, u). put k u) us kw)"
  by (induction us arbitrary: kw) (auto simp: put_ok)

text \<open>The directive of a line; a comment or empty line has none.\<close>

definition directive_of :: "string \<Rightarrow> string option" where
  "directive_of line0 =
     (let line = strip line0 in
      if line = [] \<or> hd line = CHR ''#'' \<or> hd line = CHR '';'' then None
      else case split_ws line of [] \<Rightarrow> None | d # _ \<Rightarrow> Some d)"

lemma parse_line_cases:
  assumes "parse_line l kw = Inr kw'"
  shows "kw' = kw \<or> (\<exists>d args. directive_of l = Some d \<and> parse_directive d args kw = Inr kw')"
  using assms by (auto simp: parse_line_def directive_of_def Let_def split: if_splits list.splits)

lemma parse_line_other:
  assumes "parse_line l kw = Inr kw'" and "\<And>d. directive_of l = Some d \<Longrightarrow> f \<notin> fields_of d"
  shows "map_of (vals kw') f = map_of (vals kw) f"
  using parse_line_cases [OF assms(1)]
proof (elim disjE exE conjE)
  fix d args assume d: "directive_of l = Some d" and p: "parse_directive d args kw = Inr kw'"
  from parse_directive_puts [OF p] obtain us
    where us: "\<forall>(k, u) \<in> set us. k \<in> fields_of d \<and> typed_as k u"
      and eq: "vals kw' = vals (fold (\<lambda>(k, u). put k u) us kw)"
    by blast
  from us assms(2) [OF d] have "\<forall>(k, u) \<in> set us. k \<noteq> f" by auto
  then show ?thesis unfolding eq by (rule fold_put_other)
qed simp

lemma parse_line_ok:
  assumes "parse_line l kw = Inr kw'" and "kwargs_ok kw"
  shows "kwargs_ok kw'"
  using parse_line_cases [OF assms(1)]
proof (elim disjE exE conjE)
  fix d args assume "parse_directive d args kw = Inr kw'"
  from parse_directive_puts [OF this] obtain us
    where us: "\<forall>(k, u) \<in> set us. k \<in> fields_of d \<and> typed_as k u"
      and eq: "vals kw' = vals (fold (\<lambda>(k, u). put k u) us kw)"
    by blast
  from us have "\<forall>(k, u) \<in> set us. typed_as k u" by auto
  from fold_put_ok [OF this assms(2)] show ?thesis unfolding kwargs_ok_def eq .
qed (use assms(2) in simp)

text \<open>A line has the same effect wherever it stands: it stores its own values over the others.\<close>

lemma parse_line_alone:
  assumes "parse_line l kw = Inr kw'"
  shows "\<exists>kw1. parse_line l no_kwargs = Inr kw1 \<and>
    map_of (vals kw') f = (case map_of (vals kw1) f of None \<Rightarrow> map_of (vals kw) f | Some v \<Rightarrow> Some v)"
proof -
  let ?line = "strip l"
  show ?thesis
  proof (cases "?line = [] \<or> hd ?line = CHR ''#'' \<or> hd ?line = CHR '';''")
    case True
    with assms show ?thesis by (auto simp: parse_line_def Let_def no_kwargs_def)
  next
    case False
    with assms obtain d args where w: "split_ws ?line = d # args" and p: "parse_directive d args kw = Inr kw'"
      by (auto simp: parse_line_def Let_def split: list.splits)
    from parse_directive_puts [OF p] obtain us where
      eq: "vals kw' = vals (fold (\<lambda>(k, u). put k u) us kw)"
        "\<forall>kx. \<exists>ky. parse_directive d args kx = Inr ky \<and> vals ky = vals (fold (\<lambda>(k, u). put k u) us kx)" by blast
    from eq(2) obtain kw1 where kw1: "parse_directive d args no_kwargs = Inr kw1"
      "vals kw1 = vals (fold (\<lambda>(k, u). put k u) us no_kwargs)" by blast
    have "parse_line l no_kwargs = Inr kw1" using False w kw1(1) by (simp add: parse_line_def Let_def)
    moreover have "map_of (vals no_kwargs) f = None" by (simp add: no_kwargs_def)
    ultimately show ?thesis
      unfolding eq(1) by (intro exI [of _ kw1]) (simp add: kw1(2) fold_put_lookup split: option.split)
  qed
qed

lemma parse_line_one:
  assumes "parse_line l kw = Inr kw'" and "directive_of l = Some d" and "DIRECTIVES d = Some (One f)"
  shows "map_of (vals kw') f \<noteq> None"
proof -
  from assms(1,2) obtain args where "parse_directive d args kw = Inr kw'"
    by (auto simp: parse_line_def directive_of_def Let_def split: if_splits list.splits)
  from parse_one_puts [OF this assms(3)] show ?thesis by (auto simp: put_def map_of_update)
qed

lemma parse_lines_ok: "parse_lines ls kw = Inr kw' \<Longrightarrow> kwargs_ok kw \<Longrightarrow> kwargs_ok kw'"
  by (induction ls arbitrary: kw) (auto simp: res_bind_Inr_iff dest: parse_line_ok)

lemma parse_lines_append:
  "parse_lines (xs @ ys) kw = res_bind (parse_lines xs kw) (parse_lines ys)"
  by (induction xs arbitrary: kw) (auto simp: res_bind_def split: sum.splits)

lemma parse_lines_other:
  "parse_lines ls kw = Inr kw' \<Longrightarrow>
     \<forall>l \<in> set ls. \<forall>d. directive_of l = Some d \<longrightarrow> f \<notin> fields_of d \<Longrightarrow>
     map_of (vals kw') f = map_of (vals kw) f"
proof (induction ls arbitrary: kw)
  case (Cons l ls)
  from Cons.prems(1) obtain kw1 where "parse_line l kw = Inr kw1" and "parse_lines ls kw1 = Inr kw'"
    by (auto simp: res_bind_Inr_iff)
  moreover have "map_of (vals kw1) f = map_of (vals kw) f"
    using Cons.prems(2) calculation(1) by (intro parse_line_other) auto
  ultimately show ?case using Cons.IH [of kw1] Cons.prems(2) by simp
qed simp

section \<open>The command line\<close>

text \<open>
  What \<^verbatim>\<open>argparse\<close> returns for the program's options: each is absent or has a value of its
  declared type (\<^verbatim>\<open>--proto\<close> and \<^verbatim>\<open>--verb\<close> among their choices, the two flags \<open>True\<close>).
\<close>

record namespace =
  ns_config :: "string option"
  ns_remote :: "string option"
  ns_port :: "int option"
  ns_proto :: "string option"
  ns_dev :: "string option"
  ns_server :: "string option"
  ns_ifconfig :: "string option"
  ns_ifconfig_pool :: "string option"
  ns_ca :: "string option"
  ns_cert :: "string option"
  ns_key :: "string option"
  ns_cipher :: "string option"
  ns_comp_lzo :: bool
  ns_keepalive :: "(int \<times> int) option"
  ns_verb :: "int option"
  ns_redirect_gateway :: bool
  ns_status :: "string option"
  ns_user :: "string option"

definition no_options :: namespace where
  "no_options =
     \<lparr>ns_config = None, ns_remote = None, ns_port = None, ns_proto = None, ns_dev = None,
      ns_server = None, ns_ifconfig = None, ns_ifconfig_pool = None, ns_ca = None,
      ns_cert = None, ns_key = None, ns_cipher = None, ns_comp_lzo = False,
      ns_keepalive = None, ns_verb = None, ns_redirect_gateway = False, ns_status = None,
      ns_user = None\<rparr>"

definition namespace_ok :: "namespace \<Rightarrow> bool" where
  "namespace_ok ns \<longleftrightarrow>
     (case ns_proto ns of None \<Rightarrow> True | Some p \<Rightarrow> p = ''udp'' \<or> p = ''tcp'') \<and>
     (case ns_verb ns of None \<Rightarrow> True | Some v \<Rightarrow> 0 \<le> v \<and> v \<le> 4)"

definition override :: "string option \<Rightarrow> pyval \<Rightarrow> pyval" where
  "override v d = (case v of None \<Rightarrow> d | Some s \<Rightarrow> PStr s)"

definition or_else :: "'a option \<Rightarrow> 'a \<Rightarrow> 'a" where
  "or_else v d = (case v of None \<Rightarrow> d | Some x \<Rightarrow> x)"

text \<open>The loop over \<^verbatim>\<open>vars(ns)\<close>: each option given sets its field, no other field changes.\<close>

definition merge :: "namespace \<Rightarrow> config \<Rightarrow> config" where
  "merge ns c =
     c\<lparr>c_remote := override (ns_remote ns) (c_remote c),
       c_port := or_else (ns_port ns) (c_port c),
       c_proto := override (ns_proto ns) (c_proto c),
       c_dev := override (ns_dev ns) (c_dev c),
       c_server := override (ns_server ns) (c_server c),
       c_ifconfig := override (ns_ifconfig ns) (c_ifconfig c),
       c_ifconfig_pool := override (ns_ifconfig_pool ns) (c_ifconfig_pool c),
       c_ca := override (ns_ca ns) (c_ca c),
       c_cert := override (ns_cert ns) (c_cert c),
       c_key := override (ns_key ns) (c_key c),
       c_cipher_name := override (ns_cipher ns) (c_cipher_name c),
       c_use_comp_lzo := (ns_comp_lzo ns \<or> c_use_comp_lzo c),
       c_keepalive_interval := or_else (map_option fst (ns_keepalive ns)) (c_keepalive_interval c),
       c_keepalive_timeout := or_else (map_option snd (ns_keepalive ns)) (c_keepalive_timeout c),
       c_verb := or_else (ns_verb ns) (c_verb c),
       c_redirect_gateway := (ns_redirect_gateway ns \<or> c_redirect_gateway c),
       c_status_file := override (ns_status ns) (c_status_file c),
       c_user := override (ns_user ns) (c_user c)\<rparr>"

definition parse_args :: "(string \<Rightarrow> string option) \<Rightarrow> namespace \<Rightarrow> config res" where
  "parse_args files ns =
     res_bind (if truthy (ns_config ns) then parse_config files (or_empty (ns_config ns))
               else post_init default_config)
       (\<lambda>cfg. Inr (merge ns cfg))"

section \<open>The application entry\<close>

datatype log_level = DEBUG | INFO | WARNING

definition setup_logging :: "int \<Rightarrow> log_level" where
  "setup_logging v = (if v = 0 then WARNING else if v = 1 then INFO else if v = 2 then DEBUG else INFO)"

datatype role = Run_server config | Run_client config

definition main :: "(string \<Rightarrow> string option) \<Rightarrow> namespace \<Rightarrow> (log_level \<times> role) res" where
  "main files ns =
     res_bind (parse_args files ns) (\<lambda>cfg.
     Inr (setup_logging (c_verb cfg),
          if get_mode cfg = ''server'' then Run_server cfg else Run_client cfg))"

end
