(* ===== verification/Os_Effects.thy ===== *)
theory Os_Effects
  imports Py_Text
begin

text \<open>
  What the program does to the operating system: commands run with \<^verbatim>\<open>subprocess.run\<close> and
  files written, recorded in order. The machine itself is the parameter \<open>world\<close>: what a
  command does may depend on everything run before it.
\<close>

datatype proc = Exited int string bytes | Not_started exn

record world =
  sh :: "string list list \<Rightarrow> string list \<Rightarrow> proc"
  writable :: "string \<Rightarrow> bool"

record os =
  commands :: "string list list"
  written :: "(string \<times> string) list"

definition empty_os :: os where
  "empty_os = \<lparr>commands = [], written = []\<rparr>"

definition run_proc :: "world \<Rightarrow> string list \<Rightarrow> os \<Rightarrow> proc \<times> os" where
  "run_proc W cmd s = (sh W (commands s) cmd, s\<lparr>commands := commands s @ [cmd]\<rparr>)"

text \<open>
  \<^verbatim>\<open>subprocess.run(cmd, check=chk, capture_output=True)\<close>; the standard output is returned.
\<close>

definition subprocess_run :: "world \<Rightarrow> bool \<Rightarrow> string list \<Rightarrow> (os, string) meth" where
  "subprocess_run W chk cmd s =
     (case run_proc W cmd s of
        (Not_started e, t) \<Rightarrow> (Inl e, t)
      | (Exited code out err, t) \<Rightarrow>
          if chk \<and> code \<noteq> 0 then (Inl CalledProcessError, t) else (Inr out, t))"

definition write_file :: "world \<Rightarrow> string \<Rightarrow> string \<Rightarrow> (os, unit) meth" where
  "write_file W path text s =
     (if writable W path then (Inr (), s\<lparr>written := written s @ [(path, text)]\<rparr>) else (Inl OSError, s))"

text \<open>\<^verbatim>\<open>try: body except Exception: pass\<close>\<close>

definition ignoring :: "(os, 'a) meth \<Rightarrow> (os, unit) meth" where
  "ignoring m s = (Inr (), snd (m s))"

text \<open>A machine on which every command succeeds silently, for the witnesses.\<close>

definition quiet_world :: world where
  "quiet_world = \<lparr>sh = (\<lambda>_ _. Exited 0 [] []), writable = (\<lambda>_. True)\<rparr>"

lemma run_proc_commands [simp]: "commands (snd (run_proc W cmd s)) = commands s @ [cmd]"
  by (simp add: run_proc_def)

lemma subprocess_run_commands [simp]:
  "commands (snd (subprocess_run W chk cmd s)) = commands s @ [cmd]"
  by (simp add: subprocess_run_def run_proc_def split: proc.split)

lemma write_file_commands [simp]: "commands (snd (write_file W path text s)) = commands s"
  by (simp add: write_file_def)

lemma ignoring_simps [simp]: "fst (ignoring m s) = Inr ()" "snd (ignoring m s) = snd (m s)"
  by (simp_all add: ignoring_def)

end
