(* ===== verification/Tun.thy ===== *)
theory Tun
  imports Os_Effects
begin

text \<open>
  The Linux TUN interface, \<^verbatim>\<open>src/tun.py\<close>: the device's life cycle and configuration
  commands, and \<^verbatim>\<open>prefixlen_to_netmask\<close> (which \<^verbatim>\<open>src/tun_windows.py\<close> repeats). The kernel's side (opening the clone
  device, the \<^verbatim>\<open>ioctl\<close> that attaches it, reads) is a parameter record.
\<close>

unbundle bit_operations_syntax

definition IFF_TUN :: nat where "IFF_TUN = 0x0001"

definition IFF_NO_PI :: nat where "IFF_NO_PI = 0x1000"

definition CLONE_DEVICE :: string where "CLONE_DEVICE = ''/dev/net/tun''"

record kernel =
  has_fcntl :: bool
  path_exists :: "string \<Rightarrow> bool"
  os_open :: "string \<Rightarrow> nat res"
  ioctl_tunsetiff :: "nat \<Rightarrow> bytes \<Rightarrow> unit res"
  os_write :: "nat \<Rightarrow> bytes \<Rightarrow> nat res"

record tun =
  tun_name :: string
  tun_fd :: "nat option"
  tun_os :: os
  tun_written :: "bytes list"

definition new_tun :: "string \<Rightarrow> os \<Rightarrow> tun" where
  "new_tun name s = \<lparr>tun_name = name, tun_fd = None, tun_os = s, tun_written = []\<rparr>"

text \<open>A command on behalf of the interface.\<close>

definition tun_run :: "world \<Rightarrow> bool \<Rightarrow> string list \<Rightarrow> (tun, unit) meth" where
  "tun_run W chk cmd t =
     (case subprocess_run W chk cmd (tun_os t) of
        (Inl e, s) \<Rightarrow> (Inl e, t\<lparr>tun_os := s\<rparr>)
      | (Inr _, s) \<Rightarrow> (Inr (), t\<lparr>tun_os := s\<rparr>))"

definition delete_existing_interface :: "world \<Rightarrow> tun \<Rightarrow> tun" where
  "delete_existing_interface W t =
     snd (tun_run W False [''ip'', ''link'', ''delete'', tun_name t] t)"

text \<open>\<^verbatim>\<open>struct.pack("16sH", name, flags)\<close>: the name cut or padded to 16 bytes, native flags.\<close>

definition ifreq :: "string \<Rightarrow> bytes" where
  "ifreq name =
     (let n = take 16 (utf8_encode name); flags = IFF_TUN OR IFF_NO_PI in
      n @ replicate (16 - length n) 0 @ [word_of_nat (flags mod 256), word_of_nat (flags div 256)])"

definition tun_open :: "world \<Rightarrow> kernel \<Rightarrow> (tun, unit) meth" where
  "tun_open W K t =
     (if \<not> has_fcntl K then (Inl RuntimeError, t)
      else if \<not> path_exists K CLONE_DEVICE then (Inl RuntimeError, t)
      else
        case os_open K CLONE_DEVICE of
          Inl e \<Rightarrow> (Inl e, t)
        | Inr fd \<Rightarrow>
            let u = delete_existing_interface W (t\<lparr>tun_fd := Some fd\<rparr>) in
            (case ioctl_tunsetiff K fd (ifreq (tun_name u)) of
               Inl OSError \<Rightarrow> (Inl OSError, u\<lparr>tun_fd := None\<rparr>)
             | Inl e \<Rightarrow> (Inl e, u)
             | Inr _ \<Rightarrow> (Inr (), u)))"

definition tun_close :: "world \<Rightarrow> tun \<Rightarrow> tun" where
  "tun_close W t = delete_existing_interface W (t\<lparr>tun_fd := None\<rparr>)"

definition tun_fileno :: "tun \<Rightarrow> nat res" where
  "tun_fileno t = of_opt RuntimeError (tun_fd t)"

text \<open>\<^verbatim>\<open>os.read\<close> of a packet the kernel has queued; it truncates to the size asked.\<close>

definition tun_read :: "bytes res \<Rightarrow> nat \<Rightarrow> tun \<Rightarrow> bytes res" where
  "tun_read queued size_max t =
     res_bind (tun_fileno t) (\<lambda>fd. res_bind queued (\<lambda>p. Inr (take size_max p)))"

definition tun_write :: "kernel \<Rightarrow> bytes \<Rightarrow> (tun, nat) meth" where
  "tun_write K packet t =
     (case tun_fd t of
        None \<Rightarrow> (Inl RuntimeError, t)
      | Some fd \<Rightarrow>
          (case os_write K fd packet of
             Inl e \<Rightarrow> (Inl e, t)
           | Inr n \<Rightarrow> (Inr n, t\<lparr>tun_written := tun_written t @ [packet]\<rparr>)))"

definition set_ip :: "world \<Rightarrow> string \<Rightarrow> (tun, unit) meth" where
  "set_ip W cidr t =
     (case split_on (CHR ''/'') cidr of
        [ip, _] \<Rightarrow>
          m_seq (tun_run W True [''ip'', ''addr'', ''add'', cidr, ''dev'', tun_name t])
            (tun_run W True [''ip'', ''link'', ''set'', tun_name t, ''up'']) t
      | _ \<Rightarrow> (Inl ValueError, t))"

definition set_mtu :: "world \<Rightarrow> nat \<Rightarrow> (tun, unit) meth" where
  "set_mtu W mtu t = tun_run W True [''ip'', ''link'', ''set'', tun_name t, ''mtu'', str_nat mtu] t"

text \<open>
  \<^verbatim>\<open>with TunInterface(...)\<close> opens on entry and closes on exit, also when the body raises.
\<close>

definition with_tun :: "world \<Rightarrow> kernel \<Rightarrow> (tun, 'a) meth \<Rightarrow> (tun, 'a) meth" where
  "with_tun W K body t =
     (case tun_open W K t of
        (Inl e, u) \<Rightarrow> (Inl e, u)
      | (Inr _, u) \<Rightarrow> (case body u of (r, v) \<Rightarrow> (r, tun_close W v)))"

definition prefixlen_to_netmask :: "int \<Rightarrow> string res" where
  "prefixlen_to_netmask prefix =
     (if 32 < prefix then Inl ValueError
      else
        let mk = push_bit (nat (32 - prefix)) 0xffffffff AND (0xffffffff :: int) in
        Inr (join ''.'' (map (\<lambda>i. str_int (drop_bit (8 * (3 - i)) mk AND 0xff)) [0, 1, 2, 3])))"

lemma tun_run_frame [simp]:
  "tun_fd (snd (tun_run W chk cmd t)) = tun_fd t"
  "tun_name (snd (tun_run W chk cmd t)) = tun_name t"
  by (simp_all add: tun_run_def split: prod.split sum.split)

lemma delete_existing_frame [simp]:
  "tun_fd (delete_existing_interface W t) = tun_fd t"
  "tun_name (delete_existing_interface W t) = tun_name t"
  by (simp_all add: delete_existing_interface_def)

lemma tun_run_os [simp]:
  "tun_os (snd (tun_run W chk cmd t)) = snd (subprocess_run W chk cmd (tun_os t))"
  by (simp add: tun_run_def split: prod.split sum.split)

lemma delete_existing_os [simp]:
  "commands (tun_os (delete_existing_interface W t)) =
     commands (tun_os t) @ [[''ip'', ''link'', ''delete'', tun_name t]]"
  by (simp add: delete_existing_interface_def)

end
