(* ===== verification/System_Props.thy ===== *)
theory System_Props
  imports Config Tun
begin

text \<open>
  Properties of the configuration, of the command line's precedence and of the TUN
  interface's life cycle.
\<close>

section \<open>Netmasks\<close>

lemma popcount_0 [simp]: "popcount 0 = 0"
  by (simp add: popcount.simps)

lemma popcount_double: "popcount (2 * n) = popcount n"
  by (subst popcount.simps) simp

lemma popcount_double_plus: "popcount (2 * n + 1) = Suc (popcount n)"
  by (subst popcount.simps) simp

lemma popcount_numeral:
  "popcount (numeral (num.Bit0 k)) = popcount (numeral k)"
  "popcount (numeral (num.Bit1 k)) = Suc (popcount (numeral k))"
  "popcount (Suc 0) = 1"
  using popcount_double [of "numeral k"] popcount_double_plus [of "numeral k"]
    popcount_double_plus [of 0]
  by (simp_all add: numeral_Bit0 numeral_Bit1 mult_2)

lemma count_ones_octets:
  "count_ones (map str_int is) = Inr (sum_list (map (\<lambda>i. popcount (nat i)) is))"
    if "\<forall>i \<in> set is. 0 \<le> i" for "is" :: "int list"
  using that by (induction "is") (auto simp: str_int_def)

lemma str_int_no_dot: "0 \<le> i \<Longrightarrow> CHR ''.'' \<notin> set (str_int i)"
  using str_nat_digits digit_not_special(5) by (auto simp: str_int_def)

lemma netmask_octets:
  assumes "0 \<le> a" "0 \<le> b" "0 \<le> c" "0 \<le> d"
  shows "netmask_to_cidr (join ''.'' (map str_int [a, b, c, d])) =
    Inr (popcount (nat a) + popcount (nat b) + popcount (nat c) + popcount (nat d))"
proof -
  have "split_on (CHR ''.'') (join ''.'' (map str_int [a, b, c, d])) = map str_int [a, b, c, d]"
    by (rule split_on_join) (use assms str_int_no_dot in auto)
  with assms count_ones_octets [of "[a, b, c, d]"] show ?thesis by (simp add: netmask_to_cidr_def)
qed

lemma mask_octets:
  "p \<le> 32 \<Longrightarrow> prefixlen_to_netmask p =
     (let mk = push_bit (nat (32 - p)) 0xffffffff AND (0xffffffff :: int) in
      Inr (join ''.'' (map str_int
        [drop_bit 24 mk AND 0xff, drop_bit 16 mk AND 0xff, drop_bit 8 mk AND 0xff, mk AND 0xff])))"
  by (simp add: prefixlen_to_netmask_def Let_def)

lemma netmask_roundtrip_aux:
  "p \<le> 32 \<Longrightarrow> mk = push_bit (nat (32 - p)) 0xffffffff AND (0xffffffff :: int) \<Longrightarrow>
     res_bind (prefixlen_to_netmask p) netmask_to_cidr =
       Inr (popcount (nat (drop_bit 24 mk AND 0xff)) + popcount (nat (drop_bit 16 mk AND 0xff)) +
         popcount (nat (drop_bit 8 mk AND 0xff)) + popcount (nat (mk AND 0xff)))"
  by (simp only: mask_octets Let_def res_bind_simps) (rule netmask_octets; simp)

text \<open>
  The two netmask conversions are inverse: for every prefix length from 0 to 32,
  \<^verbatim>\<open>_netmask_to_cidr\<close> of the dotted mk that \<^verbatim>\<open>prefixlen_to_netmask\<close> prints is that length.
\<close>

theorem netmask_roundtrip:
  assumes "0 \<le> p" and "p \<le> 32"
  shows "res_bind (prefixlen_to_netmask p) netmask_to_cidr = Inr (nat p)"
proof -
  have "p \<in> set [0..32]" using assms by simp
  then have "p \<in> {0, 1, 2, 3, 4, 5, 6, 7, 8, 9, 10, 11, 12, 13, 14, 15, 16, 17, 18, 19, 20, 21,
      22, 23, 24, 25, 26, 27, 28, 29, 30, 31, 32}"
    by (simp add: upto.simps)
  then show ?thesis
    by (elim insertE emptyE; simp add: netmask_roundtrip_aux [OF _ refl] popcount_numeral)
qed

theorem netmask_roundtrip_witness:
  "res_bind (prefixlen_to_netmask 24) netmask_to_cidr = Inr (nat 24)"
  by (rule netmask_roundtrip) simp_all

section \<open>Configuration files\<close>

text \<open>
  Claim C34. The last line of a directive decides: in a file that parses, a line that no line for the
  same field follows (comments, empty lines and other options may) determines the field's value after
  all lines. It is the value this line would store if it were the whole file; only where that is none
  (\<^verbatim>\<open>keepalive\<close> with too few arguments, or a line for another field) the lines before it
  decide. A directive with one field always stores one.
\<close>

theorem config_last_wins:
  assumes "parse_lines (pre @ line # post) no_kwargs = Inr kw"
    and "\<forall>l \<in> set post. \<forall>d. directive_of l = Some d \<longrightarrow> f \<notin> fields_of d"
  shows "\<exists>before alone. parse_lines pre no_kwargs = Inr before \<and> parse_lines [line] no_kwargs = Inr alone \<and>
    map_of (vals kw) f = (case map_of (vals alone) f of Some v \<Rightarrow> Some v | None \<Rightarrow> map_of (vals before) f) \<and>
    (\<forall>d. directive_of line = Some d \<longrightarrow> DIRECTIVES d = Some (One f) \<longrightarrow> map_of (vals alone) f \<noteq> None)"
proof -
  from assms(1) obtain k0 k1 where k: "parse_lines pre no_kwargs = Inr k0" "parse_line line k0 = Inr k1"
    "parse_lines post k1 = Inr kw" by (auto simp: parse_lines_append res_bind_Inr_iff)
  from parse_line_alone [OF k(2), of f] obtain k2 where k2: "parse_line line no_kwargs = Inr k2"
    "map_of (vals k1) f = (case map_of (vals k2) f of None \<Rightarrow> map_of (vals k0) f | Some v \<Rightarrow> Some v)" by blast
  have "map_of (vals kw) f = map_of (vals k1) f" by (rule parse_lines_other [OF k(3) assms(2)])
  moreover have "parse_lines [line] no_kwargs = Inr k2" using k2(1) by simp
  ultimately show ?thesis using k(1) k2(2) parse_line_one [OF k2(1)] by (auto split: option.splits)
qed

lemma toy_lines:
  "parse_lines ([''dev tun0''] @ ''dev tun1'' # [''# dev tun2'', ''ca ca.crt'']) no_kwargs =
     Inr \<lparr>vals = [(''dev'', PStr ''tun1''), (''ca'', PStr ''ca.crt'')], extra = []\<rparr>"
  by code_simp

theorem config_last_wins_witness:
  "\<exists>alone. parse_lines [''dev tun1''] no_kwargs = Inr alone \<and>
     map_of [(''dev'', PStr ''tun1''), (''ca'', PStr ''ca.crt'')] ''dev'' = map_of (vals alone) ''dev''"
proof -
  have d: "directive_of ''# dev tun2'' = None" "directive_of ''ca ca.crt'' = Some ''ca''"
    "directive_of ''dev tun1'' = Some ''dev''" by code_simp+
  then have "\<forall>l \<in> set [''# dev tun2'', ''ca ca.crt'']. \<forall>d.
      directive_of l = Some d \<longrightarrow> ''dev'' \<notin> fields_of d"
    by (simp add: fields_of_def DIRECTIVES_def)
  from config_last_wins [OF toy_lines this] d(3) show ?thesis
    by (auto simp: DIRECTIVES_def split: option.splits)
qed

text \<open>
  Claim C35. Typing of a parsed file: whatever its lines, the parser stores an integer in
  each integer field and a boolean in each flag, or raises; only fields annotated as strings
  can hold something else (the list of a directive's arguments).
\<close>

theorem parsed_fields_typed:
  assumes "parse_lines ls no_kwargs = Inr kw" and "map_of (vals kw) k = Some v"
  shows "typed_as k v"
proof -
  have "kwargs_ok no_kwargs" by (simp add: kwargs_ok_def no_kwargs_def)
  from parse_lines_ok [OF assms(1) this] assms(2) show ?thesis by (simp add: kwargs_ok_def)
qed

theorem parsed_fields_typed_witness:
  "parse_lines [''remote vpn.example.com 1194'', ''port 1195''] no_kwargs =
     Inr \<lparr>vals = [(''remote'', PList [''vpn.example.com'', ''1194'']), (''port'', PInt 1195)], extra = []\<rparr> \<and>
   typed_as ''port'' (PInt 1195)"
proof -
  have "str_nat 1195 = ''1195''" by code_simp
  with py_int_str_nat [of 1195] have i: "py_int ''1195'' = Inr 1195" by simp
  have l: "parse_line ''port 1195'' kw = set_value ''port'' (PStr ''1195'') kw" for kw
    by (simp add: parse_line_def strip_def split_ws_def is_space_def parse_directive_def
        DIRECTIVES_def NETMASK_DIRECTIVES_def POOL_DIRECTIVES_def)
  have r: "parse_line ''remote vpn.example.com 1194'' no_kwargs =
      Inr \<lparr>vals = [(''remote'', PList [''vpn.example.com'', ''1194''])], extra = []\<rparr>"
    by code_simp
  have p: "parse_lines [''remote vpn.example.com 1194'', ''port 1195''] no_kwargs =
     Inr \<lparr>vals = [(''remote'', PList [''vpn.example.com'', ''1194'']), (''port'', PInt 1195)], extra = []\<rparr>"
    by (simp add: r l set_value_def field_type_of_def i put_def)
  from parsed_fields_typed [OF p, of "''port''" "PInt 1195"] p show ?thesis by simp
qed

section \<open>The command line\<close>

definition config_valid :: "config \<Rightarrow> bool" where
  "config_valid c \<longleftrightarrow> (c_proto c = PStr ''udp'' \<or> c_proto c = PStr ''tcp'') \<and> 1 \<le> c_port c \<and>
     c_port c \<le> 65535 \<and> 0 \<le> c_verb c \<and> c_verb c \<le> 4"

lemma post_init_Inr_iff: "post_init c = Inr d \<longleftrightarrow> config_valid c \<and> d = c"
  by (auto simp: post_init_def config_valid_def)

lemma base_config_valid:
  "(if truthy p then parse_config files (or_empty p) else post_init default_config) = Inr c \<Longrightarrow>
     config_valid c"
  by (auto simp: parse_config_def make_config_def res_bind_Inr_iff post_init_Inr_iff
      split: if_splits)

text \<open>
  Claim C36. Validation and the command line: the configuration the program runs with has a
  known protocol and a log level from 0 to 4, and a port from 1 to 65535 unless the port was
  given by \<^verbatim>\<open>--port\<close>, which is stored without \<^verbatim>\<open>Config\<close>'s check.
\<close>

theorem effective_config_valid:
  assumes "parse_args files ns = Inr c" and "namespace_ok ns"
  shows "(c_proto c = PStr ''udp'' \<or> c_proto c = PStr ''tcp'') \<and> 0 \<le> c_verb c \<and> c_verb c \<le> 4 \<and>
    (case ns_port ns of None \<Rightarrow> 1 \<le> c_port c \<and> c_port c \<le> 65535 | Some n \<Rightarrow> c_port c = n)"
proof -
  from assms(1) obtain c0 where b: "(if truthy (ns_config ns) then parse_config files (or_empty (ns_config ns))
      else post_init default_config) = Inr c0" and c: "c = merge ns c0"
    unfolding parse_args_def res_bind_Inr_iff by auto
  have f: "c_proto c = override (ns_proto ns) (c_proto c0)" "c_verb c = or_else (ns_verb ns) (c_verb c0)"
    "c_port c = or_else (ns_port ns) (c_port c0)"
    by (simp_all add: c merge_def)
  from base_config_valid [OF b] assms(2) show ?thesis
    unfolding f config_valid_def namespace_ok_def override_def or_else_def
    by (simp split: option.splits)
qed

theorem effective_config_valid_witness:
  "\<exists>c. parse_args (\<lambda>_. None) (no_options\<lparr>ns_port := Some 70000, ns_server := Some ''10.8.0.0/24''\<rparr>) =
     Inr c \<and> c_port c = 70000 \<and> 0 \<le> c_verb c"
proof -
  let ?ns = "no_options\<lparr>ns_port := Some 70000, ns_server := Some ''10.8.0.0/24''\<rparr>"
  have "parse_args (\<lambda>_. None) ?ns = Inr (merge ?ns default_config)"
    by (simp add: parse_args_def no_options_def post_init_def default_config_def)
  moreover have "namespace_ok ?ns" by (simp add: namespace_ok_def no_options_def)
  ultimately show ?thesis
    using effective_config_valid [of "\<lambda>_. None" ?ns "merge ?ns default_config"] by simp
qed

section \<open>The TUN interface\<close>

text \<open>
  The context manager releases the device: once \<^verbatim>\<open>open\<close> has succeeded, leaving the
  \<^verbatim>\<open>with\<close> block leaves no open descriptor and deletes the interface as the last command,
  whether the body returned or raised.
\<close>

theorem with_tun_releases:
  assumes "with_tun W K body t = (r, v)" and "tun_open W K t = (Inr (), u)"
  shows "tun_fd v = None \<and> fst (body u) = r \<and>
    last (commands (tun_os v)) = [''ip'', ''link'', ''delete'', tun_name v]"
  using assms by (auto simp: with_tun_def tun_close_def split: prod.splits)

definition toy_kernel :: kernel where
  "toy_kernel =
     \<lparr>has_fcntl = True, path_exists = (\<lambda>_. True), os_open = (\<lambda>_. Inr 3),
      ioctl_tunsetiff = (\<lambda>_ _. Inr ()), os_write = (\<lambda>_ p. Inr (length p))\<rparr>"

theorem with_tun_releases_witness:
  "\<exists>r v. with_tun quiet_world toy_kernel (tun_write toy_kernel [1]) (new_tun ''tun0'' empty_os) = (r, v) \<and>
     tun_fd v = None"
proof -
  obtain u where u: "tun_open quiet_world toy_kernel (new_tun ''tun0'' empty_os) = (Inr (), u)"
    by (simp add: tun_open_def toy_kernel_def Let_def)
  obtain r v where w: "with_tun quiet_world toy_kernel (tun_write toy_kernel [1])
      (new_tun ''tun0'' empty_os) = (r, v)"
    by fastforce
  from with_tun_releases [OF w u] w show ?thesis by blast
qed

end
