(* ===== verification/Privileges.thy ===== *)
theory Privileges
  imports Py_Prelude
begin

text \<open>
  Dropping root, \<^verbatim>\<open>src/privileges.py\<close>, on a process identity with the POSIX rules for
  \<^verbatim>\<open>setgroups\<close>, \<^verbatim>\<open>setgid\<close> and \<^verbatim>\<open>setuid\<close>: only a process whose effective user is root may
  take another identity, and even root only where the kernel lets it (a process confined to
  a user namespace may be refused).
\<close>

section \<open>The process identity\<close>

record passwd =
  pw_uid :: nat
  pw_gid :: nat
  pw_dir :: string

record accounts =
  getpwnam :: "string \<Rightarrow> passwd option"
  getgrnam :: "string \<Rightarrow> nat option"

record ident =
  euid :: nat
  egid :: nat
  groups :: "nat list"
  can_setgroups :: bool
  can_setgid :: bool
  can_setuid :: bool
  environ :: "(string \<times> string) list"

definition os_setgroups :: "nat list \<Rightarrow> (ident, unit) meth" where
  "os_setgroups gs s =
     (if euid s = 0 \<and> can_setgroups s then (Inr (), s\<lparr>groups := gs\<rparr>) else (Inl OSError, s))"

definition os_setgid :: "nat \<Rightarrow> (ident, unit) meth" where
  "os_setgid g s = (if euid s = 0 \<and> can_setgid s \<or> egid s = g then (Inr (), s\<lparr>egid := g\<rparr>) else (Inl OSError, s))"

definition os_setuid :: "nat \<Rightarrow> (ident, unit) meth" where
  "os_setuid u s = (if euid s = 0 \<and> can_setuid s \<or> euid s = u then (Inr (), s\<lparr>euid := u\<rparr>) else (Inl OSError, s))"

definition putenv :: "string \<Rightarrow> string \<Rightarrow> (ident, unit) meth" where
  "putenv k v = m_upd (\<lambda>s. s\<lparr>environ := AList.update k v (environ s)\<rparr>)"

section \<open>The functions\<close>

definition DEFAULT_USER :: string where
  "DEFAULT_USER = ''nobody''"

definition is_root :: "ident \<Rightarrow> bool" where
  "is_root s \<longleftrightarrow> euid s = 0"

definition target_gid :: "accounts \<Rightarrow> passwd \<Rightarrow> string option \<Rightarrow> nat res" where
  "target_gid A pw groupname =
     (case groupname of None \<Rightarrow> Inr (pw_gid pw) | Some g \<Rightarrow> of_opt ValueError (getgrnam A g))"

definition try_setgroups :: "(ident, unit) meth" where
  "try_setgroups s =
     (case os_setgroups [] s of (Inl OSError, t) \<Rightarrow> (Inr (), t) | rt \<Rightarrow> rt)"

definition drop_privileges :: "accounts \<Rightarrow> string \<Rightarrow> string option \<Rightarrow> (ident, unit) meth" where
  "drop_privileges A username groupname s =
     (if \<not> is_root s then (Inr (), s)
      else
        (m_bind (m_lift (of_opt ValueError (getpwnam A username))) (\<lambda>pw.
         m_bind (m_lift (target_gid A pw groupname)) (\<lambda>gid.
         m_seq try_setgroups
        (m_seq (os_setgid gid)
        (m_seq (os_setuid (pw_uid pw))
        (m_seq (if pw_dir pw \<noteq> [] then putenv ''HOME'' (pw_dir pw) else m_return ())
         (putenv ''USER'' username))))))) s)"

definition maybe_drop_privileges :: "accounts \<Rightarrow> string option \<Rightarrow> (ident, unit) meth" where
  "maybe_drop_privileges A username s =
     (if \<not> truthy username then (Inr (), s) else drop_privileges A (or_empty username) None s)"

section \<open>Properties\<close>

lemma drop_known:
  assumes "euid s = 0" and "getpwnam A u = Some pw" and "target_gid A pw g = Inr gid"
    and "drop_privileges A u g s = (r, t)"
  shows "r = Inr () \<and> euid t = pw_uid pw \<and> egid t = gid \<and>
      groups t = (if can_setgroups s then [] else groups s) \<and> map_of (environ t) ''USER'' = Some u \<or>
    r = Inl OSError \<and> euid t = 0 \<and> environ t = environ s \<and> \<not> (can_setgid s \<and> can_setuid s)"
  using assms
  by (auto simp: drop_privileges_def is_root_def meth_defs try_setgroups_def os_setgroups_def
      os_setgid_def os_setuid_def putenv_def map_of_update split: if_splits)

text \<open>
  Claim C39. When \<^verbatim>\<open>drop_privileges\<close> returns in a root process, the process has the user's uid
  and the chosen gid, and no supplementary groups unless the kernel refused to clear them;
  it raises \<^verbatim>\<open>ValueError\<close> exactly for an unknown user or group, and then the identity is
  unchanged. The only other exception is an \<^verbatim>\<open>OSError\<close> of a kernel that refuses root to change
  its identity; the process is root then, and its environment unchanged.
\<close>

theorem drop_privileges_complete:
  assumes "is_root s"
  shows "case drop_privileges A u g s of
      (Inl e, t) \<Rightarrow> (if getpwnam A u = None \<or> (\<exists>grp. g = Some grp \<and> getgrnam A grp = None)
        then e = ValueError \<and> t = s
        else e = OSError \<and> \<not> (can_setgid s \<and> can_setuid s) \<and> is_root t \<and> environ t = environ s)
    | (Inr _, t) \<Rightarrow> (\<exists>pw gid. getpwnam A u = Some pw \<and> target_gid A pw g = Inr gid \<and>
        euid t = pw_uid pw \<and> egid t = gid \<and> (can_setgroups s \<longrightarrow> groups t = []))"
proof (cases "getpwnam A u")
  case None
  with assms show ?thesis by (simp add: drop_privileges_def meth_defs)
next
  case (Some pw)
  show ?thesis
  proof (cases "target_gid A pw g")
    case (Inl e)
    with assms Some show ?thesis
      by (auto simp: drop_privileges_def meth_defs target_gid_def of_opt_def split: option.splits)
  next
    case (Inr gid)
    then have known: "\<not> (\<exists>grp. g = Some grp \<and> getgrnam A grp = None)"
      by (auto simp: target_gid_def of_opt_def split: option.splits)
    obtain r t where d: "drop_privileges A u g s = (r, t)" by fastforce
    from drop_known [OF _ Some Inr d] assms Some Inr known d show ?thesis by (auto simp: is_root_def)
  qed
qed

definition toy_accounts :: accounts where
  "toy_accounts =
     \<lparr>getpwnam = map_of [(''nobody'', \<lparr>pw_uid = 65534, pw_gid = 65534, pw_dir = ''/''\<rparr>)],
      getgrnam = map_of [(''nogroup'', 65533)]\<rparr>"

definition toy_root :: ident where
  "toy_root = \<lparr>euid = 0, egid = 0, groups = [0, 27], can_setgroups = True, can_setgid = True, can_setuid = True,
      environ = []\<rparr>"

theorem drop_privileges_complete_witness:
  "\<exists>t. drop_privileges toy_accounts ''nobody'' None toy_root = (Inr (), t) \<and>
     euid t = 65534 \<and> egid t = 65534 \<and> groups t = []"
proof -
  have "is_root toy_root" by (simp add: is_root_def toy_root_def)
  from drop_privileges_complete [OF this, of toy_accounts "''nobody''" None] show ?thesis
    by (auto simp: toy_accounts_def target_gid_def split: prod.splits sum.splits)
      (simp_all add: toy_root_def)
qed

text \<open>
  Dropping is final: after \<^verbatim>\<open>maybe_drop_privileges\<close> to an account other than root
  has returned in a root process, the process is not root and further calls, for any account,
  change nothing. The client makes one at every IP assignment.
\<close>

theorem drop_is_final:
  assumes "maybe_drop_privileges A u s = (Inr (), t)" and "truthy u" and "is_root s"
    and "\<forall>pw. getpwnam A (or_empty u) = Some pw \<longrightarrow> pw_uid pw \<noteq> 0"
  shows "\<not> is_root t \<and> maybe_drop_privileges A v t = (Inr (), t)"
proof -
  from assms(1,2,3) obtain pw where pw: "getpwnam A (or_empty u) = Some pw"
    by (cases "getpwnam A (or_empty u)")
      (auto simp: maybe_drop_privileges_def drop_privileges_def meth_defs)
  from assms(1,2) have "drop_privileges A (or_empty u) None s = (Inr (), t)"
    by (simp add: maybe_drop_privileges_def)
  from drop_known [OF _ pw _ this] assms(3) have "euid t = pw_uid pw" by (simp add: target_gid_def is_root_def)
  with assms(4) pw have "\<not> is_root t" by (simp add: is_root_def)
  then show ?thesis by (simp add: maybe_drop_privileges_def drop_privileges_def)
qed

theorem drop_is_final_witness:
  "\<exists>t. maybe_drop_privileges toy_accounts (Some ''nobody'') toy_root = (Inr (), t) \<and>
     \<not> is_root t \<and> maybe_drop_privileges toy_accounts (Some ''root'') t = (Inr (), t)"
proof -
  obtain t where t: "maybe_drop_privileges toy_accounts (Some ''nobody'') toy_root = (Inr (), t)"
    by (auto simp: maybe_drop_privileges_def drop_privileges_def is_root_def meth_defs try_setgroups_def
        os_setgroups_def os_setgid_def os_setuid_def putenv_def toy_root_def toy_accounts_def target_gid_def)
  have "is_root toy_root" by (simp add: is_root_def toy_root_def)
  moreover have "\<forall>pw. getpwnam toy_accounts (or_empty (Some ''nobody'')) = Some pw \<longrightarrow> pw_uid pw \<noteq> 0"
    by (simp add: toy_accounts_def)
  ultimately show ?thesis using drop_is_final [OF t, of "Some ''root''"] t by simp
qed

end
