(* ===== verification/Settings.thy ===== *)
theory Settings
  imports Config Crypto Tun Privileges
begin

text \<open>
  What the server and the client take from their configuration and their surroundings: the
  settings of a \<^verbatim>\<open>Config\<close> whose string fields hold strings (a list there, see \<open>Config\<close>, is
  outside the model), the record of parameters that stand for the cryptographic package, the
  kernel, the commands of the machine and its accounts, and what is sent to the network.
\<close>

record settings =
  s_dev :: string
  s_proto :: string
  s_port :: int
  s_remote :: "string option"
  s_ifconfig :: "string option"
  s_server :: "string option"
  s_pool :: "string option"
  s_ca :: "string option"
  s_cert :: "string option"
  s_key :: "string option"
  s_comp_lzo :: bool
  s_interval :: int
  s_timeout :: int
  s_redirect :: bool
  s_status :: "string option"
  s_user :: "string option"

definition opt_str :: "pyval \<Rightarrow> string option option" where
  "opt_str v = (case v of PNone \<Rightarrow> Some None | PStr s \<Rightarrow> Some (Some s) | _ \<Rightarrow> None)"

definition settings_of :: "config \<Rightarrow> settings option" where
  "settings_of c =
     (case map opt_str [c_dev c, c_proto c, c_remote c, c_ifconfig c, c_server c, c_ifconfig_pool c, c_ca c,
             c_cert c, c_key c, c_status_file c, c_user c] of
        [Some (Some d), Some (Some p), Some r, Some i, Some s, Some pl, Some a, Some ce, Some k,
           Some st, Some u] \<Rightarrow>
          Some \<lparr>s_dev = d, s_proto = p, s_port = c_port c, s_remote = r, s_ifconfig = i,
                s_server = s, s_pool = pl, s_ca = a, s_cert = ce, s_key = k,
                s_comp_lzo = c_use_comp_lzo c, s_interval = c_keepalive_interval c,
                s_timeout = c_keepalive_timeout c, s_redirect = c_redirect_gateway c,
                s_status = st, s_user = u\<rparr>
      | _ \<Rightarrow> None)"

definition authenticated_mode :: "settings \<Rightarrow> bool" where
  "authenticated_mode c \<longleftrightarrow> truthy (s_ca c) \<and> truthy (s_cert c) \<and> truthy (s_key c)"

text \<open>Peer addresses \<^verbatim>\<open>(host, port)\<close>, their \<^verbatim>\<open>str\<close>, and what leaves the process.\<close>

type_synonym addr = "string \<times> nat"

definition addr_str :: "addr \<Rightarrow> string" where
  "addr_str a = ''('' @ [CHR 0x27] @ fst a @ [CHR 0x27] @ '', '' @ str_nat (snd a) @ '')''"

datatype sent = Udp addr bytes | Tcp nat bytes

text \<open>
  The parameters. \<open>e_drain\<close> is what awaiting the \<^verbatim>\<open>drain\<close> of a connection's writer does, after
  everything the server has sent so far: it may raise when the connection is lost.
\<close>

record ('c, 'k, 's, 'p) env =
  e_pki :: "('c, 'k, 's, 'p) pki"
  e_prims :: prims
  e_world :: world
  e_kernel :: kernel
  e_accounts :: accounts
  e_drain :: "sent list \<Rightarrow> nat \<Rightarrow> unit res"

lemma takeWhile_digits:
  "takeWhile is_digit (rev (str_nat n) @ CHR '' '' # t) = rev (str_nat n)"
proof -
  have "\<not> is_digit (CHR '' '')" by (simp add: is_digit_def)
  then show ?thesis using str_nat_digits by (subst takeWhile_append2) auto
qed

lemma addr_str_inj: "addr_str a = addr_str b \<longleftrightarrow> a = b"
proof
  assume eq: "addr_str a = addr_str b"
  have r: "rev (addr_str x) = CHR '')'' # rev (str_nat (snd x)) @ CHR '' '' # CHR '','' # CHR 0x27 #
      rev (fst x) @ [CHR 0x27, CHR ''('']" for x
    by (simp add: addr_str_def)
  have "takeWhile is_digit (tl (rev (addr_str x))) = rev (str_nat (snd x))" for x
    by (simp add: r takeWhile_digits)
  with eq have "str_nat (snd a) = str_nat (snd b)" by (metis rev_is_rev_conv)
  then have p: "snd a = snd b" by (simp add: str_nat_inj)
  with eq have "fst a = fst b" by (simp add: addr_str_def)
  with p show "a = b" by (simp add: prod_eq_iff)
qed simp

end
