(* ===== verification/Routing.thy ===== *)
theory Routing
  imports Os_Effects
begin

text \<open>
  Address allocation and routes, \<^verbatim>\<open>src/routing.py\<close>. First the interface an address pool
  offers the server, as a locale; then \<^verbatim>\<open>IpPool\<close> and its interpretation; then the functions
  that configure NAT, forwarding and routes through \<^verbatim>\<open>ip\<close> and \<^verbatim>\<open>iptables\<close>.
\<close>

section \<open>What an allocator promises\<close>

datatype 'k pool_op = Allocate 'k | Release 'k

locale ip_allocator =
  fixes inv :: "'s \<Rightarrow> bool"
    and alloc :: "'k \<Rightarrow> 's \<Rightarrow> 'a option \<times> 's"
    and release :: "'k \<Rightarrow> 's \<Rightarrow> 's"
    and free :: "'s \<Rightarrow> 'a set"
    and owner :: "'s \<Rightarrow> 'a \<Rightarrow> 'k option"
  assumes disjoint: "inv s \<Longrightarrow> free s \<inter> dom (owner s) = {}"
    and alloc_some: "inv s \<Longrightarrow> alloc k s = (Some a, t) \<Longrightarrow>
      inv t \<and> a \<in> free s \<and> free t = free s - {a} \<and> owner t = (owner s)(a \<mapsto> k)"
    and alloc_none: "inv s \<Longrightarrow> alloc k s = (None, t) \<Longrightarrow> free s = {} \<and> t = s"
    and release_inv: "inv s \<Longrightarrow> inv (release k s)"
    and release_own: "inv s \<Longrightarrow> \<exists>A. A \<subseteq> {a. owner s a = Some k} \<and>
      free (release k s) = free s \<union> A \<and> owner (release k s) = owner s |` (- A)"
begin

definition do_op :: "'k pool_op \<Rightarrow> 's \<Rightarrow> 's" where
  "do_op oper s = (case oper of Allocate k \<Rightarrow> snd (alloc k s) | Release k \<Rightarrow> release k s)"

lemma do_op_inv: "inv s \<Longrightarrow> inv (do_op oper s)"
proof (cases oper)
  case (Allocate k)
  assume i: "inv s"
  obtain r t where at: "alloc k s = (r, t)" by fastforce
  have "inv t" using alloc_some [OF i] alloc_none [OF i] at i by (cases r) metis+
  with Allocate at show ?thesis by (simp add: do_op_def)
qed (simp add: do_op_def release_inv)

lemma do_op_conserves:
  assumes "inv s"
  shows "free (do_op oper s) \<union> dom (owner (do_op oper s)) = free s \<union> dom (owner s)"
proof (cases oper)
  case (Allocate k)
  obtain r t where at: "alloc k s = (r, t)" by fastforce
  show ?thesis
  proof (cases r)
    case None
    then have "t = s" using alloc_none [OF assms] at by blast
    with at Allocate show ?thesis by (simp add: do_op_def)
  next
    case (Some a)
    with alloc_some [OF assms] at Allocate show ?thesis by (auto simp: do_op_def)
  qed
next
  case (Release k)
  from release_own [OF assms, of k] obtain A where "A \<subseteq> {a. owner s a = Some k}"
    and "free (release k s) = free s \<union> A" and "owner (release k s) = owner s |` (- A)" by blast
  with Release show ?thesis by (auto simp: do_op_def)
qed

lemma run_conserves:
  assumes "inv s"
  shows "inv (fold do_op ops s) \<and>
    free (fold do_op ops s) \<union> dom (owner (fold do_op ops s)) = free s \<union> dom (owner s) \<and>
    free (fold do_op ops s) \<inter> dom (owner (fold do_op ops s)) = {}"
  using assms
proof (induction ops arbitrary: s)
  case Nil
  then show ?case using disjoint by simp
next
  case (Cons oper ops)
  from Cons.IH [OF do_op_inv [OF Cons.prems]] do_op_conserves [OF Cons.prems] show ?case by simp
qed

lemma alloc_fresh:
  assumes "inv s" and "alloc k s = (Some a, t)"
  shows "owner s a = None" and "owner t a = Some k"
  using alloc_some [OF assms] disjoint [OF assms(1)] by auto

end

section \<open>IpPool\<close>

record ip_pool =
  network :: ipv4_network
  pool_server_ip :: string
  available :: "int set"
  allocated :: "(string \<times> int) list"
  allocated_by_int :: "(int \<times> string) list"

definition pool_bounds :: "ipv4_network \<Rightarrow> string option \<Rightarrow> (int \<times> int) res" where
  "pool_bounds net pool_range =
     (if truthy pool_range \<and> CHR ''-'' \<in> set (or_empty pool_range) then
        (case split_on (CHR ''-'') (or_empty pool_range) of
           [start_str, end_str] \<Rightarrow>
             res_bind (parse_ipv4 (strip start_str)) (\<lambda>a.
             res_bind (parse_ipv4 (strip end_str)) (\<lambda>b. Inr (a, b)))
         | _ \<Rightarrow> Inl ValueError)
      else
        res_bind (ipv4_of_int (network_address net + 2)) (\<lambda>a.
        res_bind (ipv4_of_int (broadcast_address net - 1)) (\<lambda>b. Inr (a, b))))"

definition new_pool :: "string \<Rightarrow> string option \<Rightarrow> ip_pool res" where
  "new_pool subnet pool_range =
     res_bind (parse_network subnet) (\<lambda>net.
     res_bind (ipv4_of_int (network_address net + 1)) (\<lambda>server.
     res_bind (pool_bounds net pool_range) (\<lambda>(a, b).
     Inr \<lparr>network = net, pool_server_ip = ip_str server, available = {a..b},
          allocated = [], allocated_by_int = []\<rparr>)))"

definition allocate :: "string \<Rightarrow> (ip_pool, string option) meth" where
  "allocate client_id p =
     (if available p = {} then (Inr None, p)
      else
        let ip_int = Min (available p); q = p\<lparr>available := available p - {ip_int}\<rparr> in
        case ipv4_of_int ip_int of
          Inl e \<Rightarrow> (Inl e, q)
        | Inr ip \<Rightarrow>
            (Inr (Some (ip_str ip)),
             q\<lparr>allocated := AList.update client_id ip_int (allocated q),
               allocated_by_int := AList.update ip_int client_id (allocated_by_int q)\<rparr>))"

definition release :: "string \<Rightarrow> ip_pool \<Rightarrow> ip_pool" where
  "release client_id p =
     (case map_of (allocated p) client_id of
        None \<Rightarrow> p
      | Some ip_int \<Rightarrow>
          p\<lparr>allocated := AList.delete client_id (allocated p),
            allocated_by_int := AList.delete ip_int (allocated_by_int p),
            available := insert ip_int (available p)\<rparr>)"

definition allocated_count :: "ip_pool \<Rightarrow> nat" where
  "allocated_count p = length (allocated p)"

definition allocated_ips :: "ip_pool \<Rightarrow> string list" where
  "allocated_ips p = map ip_str (sort (map fst (allocated_by_int p)))"

definition get_client_ip :: "string \<Rightarrow> ip_pool \<Rightarrow> string option" where
  "get_client_ip client_id p = map_option ip_str (map_of (allocated p) client_id)"

definition get_client_id_by_ip :: "string \<Rightarrow> ip_pool \<Rightarrow> string option res" where
  "get_client_id_by_ip s p =
     res_bind (parse_ipv4 s) (\<lambda>ip_int. Inr (map_of (allocated_by_int p) ip_int))"

lemmas pool_defs = allocate_def release_def get_client_ip_def get_client_id_by_ip_def

text \<open>
  The invariant: addresses are IPv4 addresses, none is both available and held, and a
  client's entry points to an address held for it.
\<close>

definition pool_ok :: "ip_pool \<Rightarrow> bool" where
  "pool_ok p \<longleftrightarrow>
     finite (available p) \<and>
     (\<forall>i \<in> available p \<union> dom (map_of (allocated_by_int p)). 0 \<le> i \<and> i < 2 ^ 32) \<and>
     available p \<inter> dom (map_of (allocated_by_int p)) = {} \<and>
     (\<forall>c i. map_of (allocated p) c = Some i \<longrightarrow> map_of (allocated_by_int p) i = Some c)"

lemma pool_bounds_range:
  assumes "pool_bounds net r = Inr (a, b)"
  shows "0 \<le> a \<and> b < 2 ^ 32"
  using assms parse_ipv4_range
  by (auto simp: pool_bounds_def res_bind_Inr_iff ipv4_of_int_def split: if_splits list.splits)

lemma new_pool_ok: "new_pool subnet r = Inr p \<Longrightarrow> pool_ok p"
  using pool_bounds_range
  by (fastforce simp: new_pool_def res_bind_Inr_iff pool_ok_def)

lemma allocate_cases:
  assumes "pool_ok p"
  obtains "available p = {}" and "allocate c p = (Inr None, p)"
  | i where "i \<in> available p" and "i = Min (available p)" and "0 \<le> i" and "i < 2 ^ 32"
    and "allocate c p = (Inr (Some (ip_str i)),
      p\<lparr>available := available p - {i}, allocated := AList.update c i (allocated p),
        allocated_by_int := AList.update i c (allocated_by_int p)\<rparr>)"
proof (cases "available p = {}")
  case True
  then show ?thesis using that(1) by (simp add: allocate_def)
next
  case False
  let ?i = "Min (available p)"
  from assms False have m: "?i \<in> available p" by (simp add: pool_ok_def)
  with assms have r: "0 \<le> ?i" "?i < 2 ^ 32" by (auto simp: pool_ok_def)
  from False r have "allocate c p = (Inr (Some (ip_str ?i)),
      p\<lparr>available := available p - {?i}, allocated := AList.update c ?i (allocated p),
        allocated_by_int := AList.update ?i c (allocated_by_int p)\<rparr>)"
    by (simp add: allocate_def Let_def ipv4_of_int_def)
  with m r show ?thesis using that(2) by blast
qed

lemma allocate_ok:
  assumes "pool_ok p"
  shows "pool_ok (snd (allocate c p))"
  using assms
  by (cases rule: allocate_cases [OF assms, of c]) (auto simp: pool_ok_def map_of_update)

lemma release_ok:
  assumes "pool_ok p"
  shows "pool_ok (release c p)"
proof (cases "map_of (allocated p) c")
  case (Some i)
  with assms have "map_of (allocated_by_int p) i = Some c" by (simp add: pool_ok_def)
  moreover have "map_of (allocated p) d \<noteq> Some i" if "d \<noteq> c" for d
    using assms calculation that by (auto simp: pool_ok_def)
  ultimately show ?thesis using assms Some
    by (auto simp: pool_ok_def release_def map_of_delete split: if_splits)
qed (use assms in \<open>simp add: release_def\<close>)

text \<open>The pool as an allocator of addresses, by the number its result prints.\<close>

definition alloc_int :: "string \<Rightarrow> ip_pool \<Rightarrow> int option \<times> ip_pool" where
  "alloc_int c p =
     (case allocate c p of
        (Inr (Some s), q) \<Rightarrow> (case parse_ipv4 s of Inr i \<Rightarrow> Some i | Inl e \<Rightarrow> None, q)
      | (_, q) \<Rightarrow> (None, q))"

interpretation pool: ip_allocator pool_ok alloc_int release available "\<lambda>p. map_of (allocated_by_int p)"
proof unfold_locales
  fix s :: ip_pool assume "pool_ok s"
  then show "available s \<inter> dom (map_of (allocated_by_int s)) = {}" by (simp add: pool_ok_def)
next
  fix s t :: ip_pool and k a assume ok: "pool_ok s" and a: "alloc_int k s = (Some a, t)"
  show "pool_ok t \<and> a \<in> available s \<and> available t = available s - {a} \<and>
      map_of (allocated_by_int t) = (map_of (allocated_by_int s))(a \<mapsto> k)"
    using a allocate_ok [OF ok, of k]
    by (cases rule: allocate_cases [OF ok, of k])
      (auto simp: alloc_int_def parse_ip_str map_of_update)
next
  fix s t :: ip_pool and k assume ok: "pool_ok s" and a: "alloc_int k s = (None, t)"
  show "available s = {} \<and> t = s"
    using a by (cases rule: allocate_cases [OF ok, of k]) (auto simp: alloc_int_def parse_ip_str)
next
  fix s :: ip_pool and k assume "pool_ok s"
  then show "pool_ok (release k s)" by (rule release_ok)
next
  fix s :: ip_pool and k assume ok: "pool_ok s"
  show "\<exists>A. A \<subseteq> {a. map_of (allocated_by_int s) a = Some k} \<and>
      available (release k s) = available s \<union> A \<and>
      map_of (allocated_by_int (release k s)) = map_of (allocated_by_int s) |` (- A)"
  proof (cases "map_of (allocated s) k")
    case None
    then show ?thesis by (intro exI [of _ "{}"]) (simp add: release_def restrict_map_def)
  next
    case (Some i)
    with ok have "map_of (allocated_by_int s) i = Some k" by (simp add: pool_ok_def)
    with Some show ?thesis
      by (intro exI [of _ "{i}"]) (auto simp: release_def map_of_delete restrict_map_def)
  qed
qed

section \<open>NAT, forwarding and routes\<close>

text \<open>
  \<^verbatim>\<open>splitlines\<close> may also return empty lines between \<^verbatim>\<open>\r\<close> and \<^verbatim>\<open>\n\<close> here, which have no
  words and so change nothing.
\<close>

definition is_line_break :: "char \<Rightarrow> bool" where
  "is_line_break c = (let n = (of_char c :: nat) in (10 \<le> n \<and> n \<le> 13) \<or> (28 \<le> n \<and> n \<le> 30))"

fun index_of :: "'a \<Rightarrow> 'a list \<Rightarrow> nat" where
  "index_of x [] = 0"
| "index_of x (y # ys) = (if x = y then 0 else Suc (index_of x ys))"

fun find_dev :: "string list \<Rightarrow> string option res" where
  "find_dev [] = Inr None"
| "find_dev (line # lines) =
     (let parts = split_ws line in
      if ''dev'' \<in> set parts
      then res_bind (py_index parts (index_of ''dev'' parts + 1)) (\<lambda>d. Inr (Some d))
      else find_dev lines)"

definition get_default_interface :: "world \<Rightarrow> (os, string option) meth" where
  "get_default_interface W s =
     (case subprocess_run W True [''ip'', ''route'', ''show'', ''default''] s of
        (Inl e, t) \<Rightarrow> (Inr None, t)
      | (Inr out, t) \<Rightarrow> (find_dev (split_by is_line_break out), t))"

definition nat_rule :: "string \<Rightarrow> string \<Rightarrow> string \<Rightarrow> string list" where
  "nat_rule action interface tun_network =
     [''iptables'', ''-t'', ''nat'', action, ''POSTROUTING'',
      ''-s'', tun_network, ''-o'', interface, ''-j'', ''MASQUERADE'']"

definition setup_nat :: "world \<Rightarrow> string \<Rightarrow> string \<Rightarrow> (os, unit) meth" where
  "setup_nat W interface tun_network =
     m_seq (subprocess_run W False (nat_rule ''-C'' interface tun_network))
    (m_seq (subprocess_run W True (nat_rule ''-A'' interface tun_network))
     (m_return ()))"

definition teardown_nat :: "world \<Rightarrow> string \<Rightarrow> string \<Rightarrow> (os, unit) meth" where
  "teardown_nat W interface tun_network =
     m_seq (subprocess_run W False (nat_rule ''-D'' interface tun_network)) (m_return ())"

definition enable_ip_forward :: "world \<Rightarrow> (os, unit) meth" where
  "enable_ip_forward W =
     m_for (\<lambda>path. ignoring (write_file W path ''1''))
       [''/proc/sys/net/ipv4/ip_forward'', ''/proc/sys/net/ipv6/conf/all/forwarding'']"

definition route_cmd ::
  "string \<Rightarrow> string \<Rightarrow> string option \<Rightarrow> string option \<Rightarrow> string list" where
  "route_cmd action net via dev =
     [''ip'', ''route'', action, net] @
     (if truthy via then [''via'', or_empty via] else []) @
     (if truthy dev then [''dev'', or_empty dev] else [])"

text \<open>
  A failing command is logged, but its error text is decoded first, which raises on bytes
  that are not UTF-8; an exception other than \<^verbatim>\<open>CalledProcessError\<close> is not caught.
\<close>

definition add_route ::
  "world \<Rightarrow> string \<Rightarrow> string option \<Rightarrow> string option \<Rightarrow> (os, unit) meth" where
  "add_route W net via dev s =
     (case run_proc W (route_cmd ''add'' net via dev) s of
        (Not_started e, t) \<Rightarrow> (Inl e, t)
      | (Exited code out err, t) \<Rightarrow>
          if code \<noteq> 0 then (res_bind (utf8_decode err) (\<lambda>_. Inr ()), t) else (Inr (), t))"

definition delete_route ::
  "world \<Rightarrow> string \<Rightarrow> string option \<Rightarrow> string option \<Rightarrow> (os, unit) meth" where
  "delete_route W net via dev =
     ignoring (subprocess_run W True (route_cmd ''delete'' net via dev))"

lemma add_route_commands [simp]:
  "commands (snd (add_route W net via dev s)) = commands s @ [route_cmd ''add'' net via dev]"
  by (simp add: add_route_def run_proc_def split: proc.split)

lemma delete_route_commands [simp]:
  "commands (snd (delete_route W net via dev s)) = commands s @ [route_cmd ''delete'' net via dev]"
  by (simp add: delete_route_def)

lemma delete_route_ok [simp]: "fst (delete_route W net via dev s) = Inr ()"
  by (simp add: delete_route_def)

section \<open>Properties of the pool\<close>

text \<open>A sequence of calls on a pool, as the server makes them.\<close>

fun pool_run :: "string pool_op list \<Rightarrow> ip_pool \<Rightarrow> ip_pool" where
  "pool_run [] p = p"
| "pool_run (Allocate c # ops) p = pool_run ops (snd (allocate c p))"
| "pool_run (Release c # ops) p = pool_run ops (release c p)"

lemma snd_alloc_int: "snd (alloc_int c p) = snd (allocate c p)"
  by (auto simp: alloc_int_def split: prod.split sum.split option.split)

lemma pool_run_fold: "pool_run ops p = fold pool.do_op ops p"
  by (induction ops p rule: pool_run.induct) (simp_all add: pool.do_op_def snd_alloc_int)

lemma pool_run_ok: "pool_ok p \<Longrightarrow> pool_ok (pool_run ops p)"
  using pool.run_conserves [of p ops] by (simp add: pool_run_fold)

definition held :: "ip_pool \<Rightarrow> int set" where
  "held p = dom (map_of (allocated_by_int p))"



text \<open>
  Claim C15. \<^verbatim>\<open>allocate\<close> on any reachable pool returns \<^verbatim>\<open>None\<close> exactly when nothing is
  available, and otherwise the smallest available address, which nobody held; afterwards both
  lookups find the client under it, and no other client's entry has changed.
\<close>

theorem allocate_spec:
  assumes "new_pool subnet r = Inr p0" and "pool_run ops p0 = p"
    and "allocate c p = (res, q)"
  shows "(available p = {} \<and> res = Inr None \<and> q = p) \<or>
    (\<exists>i. i \<in> available p \<and> (\<forall>j \<in> available p. i \<le> j) \<and> i \<notin> held p \<and>
       res = Inr (Some (ip_str i)) \<and> available q = available p - {i} \<and>
       get_client_ip c q = Some (ip_str i) \<and>
       get_client_id_by_ip (ip_str i) q = Inr (Some c) \<and>
       (\<forall>d. d \<noteq> c \<longrightarrow> get_client_ip d q = get_client_ip d p))"
proof -
  from assms(1,2) have ok: "pool_ok p" using new_pool_ok pool_run_ok by blast
  from allocate_cases [OF ok, of c] show ?thesis
  proof cases
    case 1
    with assms(3) show ?thesis by simp
  next
    case (2 i)
    have "\<forall>j \<in> available p. i \<le> j" using 2 ok by (simp add: pool_ok_def)
    moreover have "i \<notin> held p" using 2 ok by (auto simp: pool_ok_def held_def)
    ultimately show ?thesis using 2 assms(3)
      by (intro disjI2 exI [of _ i])
        (auto simp: get_client_ip_def get_client_id_by_ip_def parse_ip_str map_of_update)
  qed
qed

text \<open>Pools for the witnesses.\<close>

lemma toy_ip_str: "ip_str 168296449 = ''10.8.0.1''" "ip_str 168296450 = ''10.8.0.2''"
  "ip_str 168296451 = ''10.8.0.3''" "ip_str 168296448 = ''10.8.0.0''" "ip_str 168296453 = ''10.8.0.5''"
  by code_simp+

lemma toy_parse_ipv4: "parse_ipv4 ''10.8.0.0'' = Inr 168296448"
  "parse_ipv4 ''10.8.0.1'' = Inr 168296449" "parse_ipv4 ''10.8.0.5'' = Inr 168296453"
  using parse_ip_str [of 168296448] parse_ip_str [of 168296449] parse_ip_str [of 168296453]
  by (simp_all add: toy_ip_str)

lemma toy_prefix: "parse_prefix ''29'' = Inr 29"
proof -
  have "str_nat 29 = ''29''" by code_simp
  with digits_value_str_nat [of 29] have "digits_value ''29'' = 29" by simp
  then show ?thesis by (simp add: parse_prefix_def prefix_from_string_def is_digit_def)
qed

lemma toy_network:
  "parse_network ''10.8.0.0/29'' = Inr \<lparr>network_address = 168296448, prefixlen = 29\<rparr>"
proof -
  have "split_on (CHR ''/'') ''10.8.0.0/29'' = [''10.8.0.0'', ''29'']" by code_simp
  then show ?thesis by (simp add: parse_network_def toy_parse_ipv4 toy_prefix make_network_def)
qed

definition toy_pool :: ip_pool where
  "toy_pool =
     \<lparr>network = \<lparr>network_address = 168296448, prefixlen = 29\<rparr>, pool_server_ip = ''10.8.0.1'',
      available = {168296450..168296454}, allocated = [], allocated_by_int = []\<rparr>"

lemma new_toy_pool: "new_pool ''10.8.0.0/29'' None = Inr toy_pool"
  by (simp add: new_pool_def toy_network pool_bounds_def ipv4_of_int_def broadcast_address_def
      toy_ip_str toy_pool_def)

lemma Min_atLeastAtMost_int: "a \<le> b \<Longrightarrow> Min {a..b :: int} = a"
  by (rule Min_eqI) auto

lemma toy_allocate: "allocate c toy_pool = (Inr (Some ''10.8.0.2''),
  toy_pool\<lparr>available := {168296451..168296454}, allocated := [(c, 168296450)],
    allocated_by_int := [(168296450, c)]\<rparr>)"
proof -
  have "{168296450..168296454 :: int} - {168296450} = {168296451..168296454}" by auto
  then show ?thesis
    by (simp add: allocate_def toy_pool_def Min_atLeastAtMost_int ipv4_of_int_def toy_ip_str)
qed


theorem allocate_spec_witness:
  "allocate ''a'' toy_pool = (Inr (Some ''10.8.0.2''), snd (allocate ''a'' toy_pool)) \<and>
   get_client_ip ''a'' (snd (allocate ''a'' toy_pool)) = Some ''10.8.0.2''"
proof -
  have e: "allocate ''a'' toy_pool = (Inr (Some ''10.8.0.2''), snd (allocate ''a'' toy_pool))"
    by (simp add: toy_allocate)
  from allocate_spec [OF new_toy_pool pool_run.simps(1) e] e show ?thesis by auto
qed

text \<open>
  Without a range (or with one that has no dash), the pool hands out only host
  addresses of the subnet beyond the server's: never the network address, the server's
  address or the broadcast address.
\<close>

theorem default_pool_excludes:
  assumes "new_pool subnet r = Inr p0" and "\<not> (truthy r \<and> CHR ''-'' \<in> set (or_empty r))"
    and "pool_run ops p0 = p" and "allocate c p = (Inr (Some a), q)"
  shows "\<exists>i. a = ip_str i \<and> network_address (network p0) + 1 < i \<and>
    i < broadcast_address (network p0) \<and> a \<noteq> pool_server_ip p0"
proof -
  from assms(1,2) have av: "available p0 =
      {network_address (network p0) + 2..broadcast_address (network p0) - 1}"
    and sv: "pool_server_ip p0 = ip_str (network_address (network p0) + 1)"
    and nn: "0 \<le> network_address (network p0)" "broadcast_address (network p0) < 2 ^ 32"
    by (auto simp: new_pool_def pool_bounds_def res_bind_Inr_iff ipv4_of_int_def
        dest: parse_network_range split: if_splits)
  have ok0: "pool_ok p0" and ok: "pool_ok p"
    using new_pool_ok [OF assms(1)] pool_run_ok assms(3) by auto
  from pool.run_conserves [OF ok0, of ops] assms(1)
  have sub: "available p \<subseteq> available p0"
    by (auto simp: pool_run_fold assms(3) [symmetric] new_pool_def res_bind_Inr_iff)
  from allocate_cases [OF ok, of c] assms(4) obtain i where i: "i \<in> available p" "a = ip_str i"
    by cases auto
  with sub av have b: "network_address (network p0) + 1 < i" "i < broadcast_address (network p0)"
    by auto
  with nn have "ip_str i \<noteq> ip_str (network_address (network p0) + 1)"
    by (subst ip_str_inj) auto
  with i b sv show ?thesis by auto
qed

definition leaked :: "string \<Rightarrow> int \<Rightarrow> ip_pool \<Rightarrow> bool" where
  "leaked c i p \<longleftrightarrow> pool_ok p \<and> map_of (allocated_by_int p) i = Some c \<and>
     map_of (allocated p) c \<noteq> Some i"

lemma leaked_allocate:
  assumes "leaked c i p"
  shows "leaked c i (snd (allocate d p))"
proof -
  from assms have ok: "pool_ok p" by (simp add: leaked_def)
  from allocate_cases [OF ok, of d] show ?thesis
  proof cases
    case (2 j)
    with assms have "j \<noteq> i" by (auto simp: leaked_def pool_ok_def)
    with 2 assms allocate_ok [OF ok, of d] show ?thesis by (auto simp: leaked_def map_of_update)
  qed (use assms in simp)
qed

lemma leaked_release:
  assumes "leaked c i p"
  shows "leaked c i (release d p)"
proof (cases "map_of (allocated p) d")
  case (Some j)
  from assms have ok: "pool_ok p" by (simp add: leaked_def)
  with Some have "map_of (allocated_by_int p) j = Some d" by (simp add: pool_ok_def)
  with assms Some have "j \<noteq> i" by (auto simp: leaked_def)
  with Some assms release_ok [OF ok, of d] show ?thesis
    by (auto simp: leaked_def release_def map_of_delete)
qed (use assms in \<open>simp add: release_def\<close>)

lemma leaked_run: "leaked c i p \<Longrightarrow> leaked c i (pool_run ops p)"
  by (induction ops p rule: pool_run.induct) (simp_all add: leaked_allocate leaked_release)

text \<open>
  A second \<^verbatim>\<open>allocate\<close> for the same client leaks its first address: whatever is
  called afterwards, releasing the client included, the first address stays registered to
  that client and is never available again.
\<close>

theorem allocate_twice_leaks:
  assumes "new_pool subnet r = Inr p0" and "pool_run before p0 = p"
    and "allocate c p = (Inr (Some a), q)" and "allocate c q = (Inr (Some b), t)"
  shows "\<exists>i. a = ip_str i \<and>
    i \<notin> available (pool_run after t) \<and>
    get_client_id_by_ip a (pool_run after t) = Inr (Some c)"
proof -
  from assms(1,2) have ok: "pool_ok p" using new_pool_ok pool_run_ok by blast
  then have okq: "pool_ok q" using allocate_ok [of p c] assms(3) by simp
  from allocate_cases [OF ok, of c] assms(3) obtain i where a: "a = ip_str i" "0 \<le> i" "i < 2 ^ 32"
    and q: "map_of (allocated_by_int q) i = Some c" "i \<notin> available q"
    by cases (auto simp: map_of_update)
  have "leaked c i t"
    using allocate_ok [OF okq, of c] assms(4) q
    by (cases rule: allocate_cases [OF okq, of c]) (auto simp: leaked_def map_of_update)
  then have "leaked c i (pool_run after t)" by (rule leaked_run)
  with a show ?thesis
    by (intro exI [of _ i]) (auto simp: leaked_def pool_ok_def get_client_id_by_ip_def parse_ip_str)
qed

theorem default_pool_excludes_witness:
  "\<exists>i. ''10.8.0.2'' = ip_str i \<and> network_address (network toy_pool) + 1 < i \<and>
     i < broadcast_address (network toy_pool) \<and> ''10.8.0.2'' \<noteq> pool_server_ip toy_pool"
  by (rule default_pool_excludes [OF new_toy_pool _ pool_run.simps(1) toy_allocate]) simp

theorem allocate_twice_leaks_witness:
  "\<exists>i q b t. allocate ''a'' toy_pool = (Inr (Some ''10.8.0.2''), q) \<and>
     allocate ''a'' q = (Inr (Some b), t) \<and> ''10.8.0.2'' = ip_str i \<and>
     i \<notin> available (pool_run [Release ''a'', Release ''a''] t)"
proof -
  let ?q = "toy_pool\<lparr>available := {168296451..168296454}, allocated := [(''a'', 168296450)],
    allocated_by_int := [(168296450, ''a'')]\<rparr>"
  have "Min {168296451..168296454 :: int} = 168296451" by (simp add: Min_atLeastAtMost_int)
  then obtain t where t: "allocate ''a'' ?q = (Inr (Some ''10.8.0.3''), t)"
    by (simp add: allocate_def Let_def ipv4_of_int_def toy_ip_str)
  from allocate_twice_leaks [OF new_toy_pool pool_run.simps(1) toy_allocate t] toy_allocate t
  show ?thesis by blast
qed

text \<open>
  A configured range is not checked against the subnet or the server's own
  address: with the range \<open>10.8.0.1-10.8.0.5\<close> the first client is given the server's address.
\<close>

lemma toy_range: "pool_bounds net (Some ''10.8.0.1-10.8.0.5'') = Inr (168296449, 168296453)"
proof -
  have "split_on (CHR ''-'') ''10.8.0.1-10.8.0.5'' = [''10.8.0.1'', ''10.8.0.5'']"
    and "strip ''10.8.0.1'' = ''10.8.0.1''" and "strip ''10.8.0.5'' = ''10.8.0.5''"
    by code_simp+
  then show ?thesis by (simp add: pool_bounds_def toy_parse_ipv4)
qed

theorem custom_pool_gives_server_ip:
  "\<exists>p q. new_pool ''10.8.0.0/29'' (Some ''10.8.0.1-10.8.0.5'') = Inr p \<and>
     allocate c p = (Inr (Some (pool_server_ip p)), q)"
  by (simp add: new_pool_def toy_network toy_range ipv4_of_int_def toy_ip_str allocate_def
      Min_atLeastAtMost_int)

section \<open>Properties of the system configuration\<close>

text \<open>
  NAT rules accumulate: the result of the \<^verbatim>\<open>iptables -C\<close> check is ignored, so every
  \<^verbatim>\<open>setup_nat\<close> that returns has appended its MASQUERADE rule, also when the check had just
  found the rule in place, while \<^verbatim>\<open>teardown_nat\<close> deletes one.
\<close>

theorem setup_nat_always_appends:
  assumes "setup_nat W i net s = (Inr (), t)"
  shows "commands t = commands s @ [nat_rule ''-C'' i net, nat_rule ''-A'' i net]"
  using assms
  by (auto simp: setup_nat_def meth_Inr_iff subprocess_run_def run_proc_def
      split: proc.splits if_splits)

theorem setup_nat_always_appends_witness:
  "\<exists>t. setup_nat quiet_world ''eth0'' ''10.8.0.0/24'' empty_os = (Inr (), t) \<and>
     commands t = [] @ [nat_rule ''-C'' ''eth0'' ''10.8.0.0/24'', nat_rule ''-A'' ''eth0'' ''10.8.0.0/24'']"
proof -
  obtain t where t: "setup_nat quiet_world ''eth0'' ''10.8.0.0/24'' empty_os = (Inr (), t)"
    by (simp add: setup_nat_def meth_defs subprocess_run_def run_proc_def quiet_world_def)
  from setup_nat_always_appends [OF t] t show ?thesis by (simp add: empty_os_def)
qed

end
