(* ===== verification/Server.thy ===== *)
theory Server
  imports Settings Control Data_Channel Framing Routing
begin

text \<open>
  The VPN server, \<^verbatim>\<open>src/server.py\<close>: the client table, the dispatch of datagrams, address
  assignment, keepalives, removal of stale clients, the TUN side, startup and shutdown. One
  call of a method is one step: the event loop runs them one after the other, and the clock
  is read once per call. The random draws of a new session are arguments. What is written to
  the sockets is appended to \<open>outbox\<close>.
\<close>

section \<open>State\<close>

record ('c, 's, 'p) client_session =
  cs_addr :: addr
  cs_session :: "('c, 's, 'p) session"
  cs_data :: "data_channel option"
  virtual_ip :: "string option"
  last_seen :: real
  cs_keepalive :: real
  cs_writer :: "nat option"

record ('c, 's, 'p) vpn_server =
  sv_config :: settings
  sv_tun :: tun
  sv_transport :: bool
  sv_clients :: "(addr \<times> ('c, 's, 'p) client_session) list"
  ip_to_addr :: "(string \<times> addr) list"
  sv_running :: bool
  nat_interface :: "string option"
  sv_pool :: "ip_pool option"
  sv_ident :: ident
  outbox :: "sent list"
  closing :: "nat list"

definition new_client_session ::
  "real \<Rightarrow> addr \<Rightarrow> ('c, 's, 'p) session \<Rightarrow> ('c, 's, 'p) client_session" where
  "new_client_session now a s =
     \<lparr>cs_addr = a, cs_session = s, cs_data = None, virtual_ip = None, last_seen = now,
      cs_keepalive = 0, cs_writer = None\<rparr>"

definition is_ready :: "('c, 's, 'p) client_session \<Rightarrow> bool" where
  "is_ready cs \<longleftrightarrow> is_established (cs_session cs) \<and> cs_data cs \<noteq> None"

definition client_id :: "('c, 's, 'p) client_session \<Rightarrow> string" where
  "client_id cs = addr_str (cs_addr cs)"

definition new_server :: "settings \<Rightarrow> os \<Rightarrow> ident \<Rightarrow> ('c, 's, 'p) vpn_server res" where
  "new_server cfg s who =
     res_bind (if truthy (s_server cfg)
               then res_bind (new_pool (or_empty (s_server cfg)) (Some (or_empty (s_pool cfg))))
                      (\<lambda>p. Inr (Some p))
               else Inr None)
      (\<lambda>p. Inr \<lparr>sv_config = cfg, sv_tun = new_tun (s_dev cfg) s, sv_transport = False,
              sv_clients = [], ip_to_addr = [], sv_running = False, nat_interface = None,
              sv_pool = p, sv_ident = who, outbox = [], closing = []\<rparr>)"

definition server_ip :: "settings \<Rightarrow> string res" where
  "server_ip cfg =
     (if truthy (s_server cfg) then
        res_bind (parse_network (or_empty (s_server cfg))) (\<lambda>net.
        res_bind (ipv4_of_int (network_address net + 1)) (\<lambda>ip.
        Inr (ip_str ip @ ''/'' @ str_nat (prefixlen net))))
      else if truthy (s_ifconfig cfg) then Inr (or_empty (s_ifconfig cfg))
      else Inr ''10.8.0.1/24'')"

definition server_network :: "settings \<Rightarrow> string" where
  "server_network cfg = (if truthy (s_server cfg) then or_empty (s_server cfg) else ''10.8.0.0/24'')"

definition is_tcp :: "settings \<Rightarrow> bool" where
  "is_tcp cfg \<longleftrightarrow> s_proto cfg = ''tcp''"

text \<open>Commands the server runs act on the one operating system its TUN interface acts on.\<close>

definition on_os :: "(os, 'a) meth \<Rightarrow> (('c, 's, 'p) vpn_server, 'a) meth" where
  "on_os m sv =
     (case m (tun_os (sv_tun sv)) of (r, s) \<Rightarrow> (r, sv\<lparr>sv_tun := (sv_tun sv)\<lparr>tun_os := s\<rparr>\<rparr>))"

definition on_tun :: "(tun, 'a) meth \<Rightarrow> (('c, 's, 'p) vpn_server, 'a) meth" where
  "on_tun m sv = (case m (sv_tun sv) of (r, t) \<Rightarrow> (r, sv\<lparr>sv_tun := t\<rparr>))"

definition upd_client ::
  "addr \<Rightarrow> (('c, 's, 'p) client_session \<Rightarrow> ('c, 's, 'p) client_session) \<Rightarrow>
   ('c, 's, 'p) vpn_server \<Rightarrow> ('c, 's, 'p) vpn_server" where
  "upd_client a f sv = sv\<lparr>sv_clients := AList.map_entry a f (sv_clients sv)\<rparr>"

section \<open>Sending\<close>

definition sync_send_to ::
  "('c, 's, 'p) client_session \<Rightarrow> bytes \<Rightarrow> (('c, 's, 'p) vpn_server, unit) meth" where
  "sync_send_to cs data sv =
     (if is_tcp (sv_config sv) \<and> cs_writer cs \<noteq> None then
        (case frame_packet data of
           Inl e \<Rightarrow> (Inl e, sv)
         | Inr fr \<Rightarrow> (Inr (), sv\<lparr>outbox := outbox sv @ [Tcp (the (cs_writer cs)) fr]\<rparr>))
      else if sv_transport sv then (Inr (), sv\<lparr>outbox := outbox sv @ [Udp (cs_addr cs) data]\<rparr>)
      else (Inr (), sv))"

definition drain_writer ::
  "('c, 'k, 's, 'p) env \<Rightarrow> ('c, 's, 'p) client_session \<Rightarrow> (('c, 's, 'p) vpn_server, unit) meth" where
  "drain_writer E cs sv =
     (if is_tcp (sv_config sv) \<and> cs_writer cs \<noteq> None then e_drain E (outbox sv) (the (cs_writer cs))
      else Inr (), sv)"

definition send_to ::
  "('c, 'k, 's, 'p) env \<Rightarrow> ('c, 's, 'p) client_session \<Rightarrow> bytes \<Rightarrow>
   (('c, 's, 'p) vpn_server, unit) coroutine" where
  "send_to E cs data = Coroutine (m_seq (sync_send_to cs data) (drain_writer E cs))"

lemma await_send_to_udp [simp]:
  "\<not> is_tcp (sv_config sv) \<Longrightarrow> await (send_to E cs data) sv = sync_send_to cs data sv"
  by (simp add: send_to_def drain_writer_def sync_send_to_def m_seq_def m_bind_def)

definition close_tcp_writer ::
  "('c, 's, 'p) client_session \<Rightarrow> ('c, 's, 'p) vpn_server \<Rightarrow> ('c, 's, 'p) vpn_server" where
  "close_tcp_writer cs sv =
     (case cs_writer cs of
        None \<Rightarrow> sv
      | Some w \<Rightarrow> if w \<in> set (closing sv) then sv else sv\<lparr>closing := closing sv @ [w]\<rparr>)"

definition control_packet :: "bytes \<Rightarrow> MessageType \<Rightarrow> bytes \<Rightarrow> bytes res" where
  "control_packet sid m body =
     res_bind (pack 1 (msg_val m)) (\<lambda>t. res_bind (pack 1 (opcode_val CONTROL)) (\<lambda>h1.
     res_bind (pack 8 (of_be sid)) (\<lambda>h2. Inr (h1 @ h2 @ t @ body))))"

definition keepalive_one ::
  "('c, 'k, 's, 'p) env \<Rightarrow> real \<Rightarrow> addr \<times> ('c, 's, 'p) client_session \<Rightarrow> (('c, 's, 'p) vpn_server, unit) meth" where
  "keepalive_one E now acs =
     (case acs of (a, cs) \<Rightarrow>
        m_bind (m_ask (\<lambda>sv. Inr (real_of_int (s_interval (sv_config sv))))) (\<lambda>iv.
        if is_ready cs \<and> iv \<le> now - cs_keepalive cs then
          m_bind (m_lift (control_packet (session_id (cs_session cs)) KEEPALIVE [])) (\<lambda>packet.
          m_seq (await (send_to E cs packet))
            (m_upd (upd_client a (\<lambda>c. c\<lparr>cs_keepalive := now\<rparr>))))
        else m_return ()))"

definition send_keepalives :: "('c, 'k, 's, 'p) env \<Rightarrow> real \<Rightarrow> (('c, 's, 'p) vpn_server, unit) meth" where
  "send_keepalives E now sv = m_for (keepalive_one E now) (sv_clients sv) sv"

section \<open>Removing clients\<close>

definition remove_client ::
  "('c, 'k, 's, 'p) env \<Rightarrow> addr \<Rightarrow> ('c, 's, 'p) vpn_server \<Rightarrow> ('c, 's, 'p) vpn_server" where
  "remove_client E a sv =
     (case map_of (sv_clients sv) a of
        None \<Rightarrow> sv
      | Some cs \<Rightarrow>
          let sv1 = sv\<lparr>sv_clients := AList.delete a (sv_clients sv)\<rparr>;
              sv2 = (if truthy (virtual_ip cs) \<and>
                        map_of (ip_to_addr sv1) (or_empty (virtual_ip cs)) \<noteq> None
                     then snd (on_os (delete_route (e_world E) (or_empty (virtual_ip cs)) None
                                  (Some (s_dev (sv_config sv1))))
                            (sv1\<lparr>ip_to_addr := AList.delete (or_empty (virtual_ip cs)) (ip_to_addr sv1)\<rparr>))
                     else sv1);
              sv3 = (case sv_pool sv2 of
                       None \<Rightarrow> sv2
                     | Some p \<Rightarrow> if truthy (virtual_ip cs)
                               then sv2\<lparr>sv_pool := Some (release (client_id cs) p)\<rparr> else sv2)
          in close_tcp_writer cs sv3)"

definition is_stale :: "real \<Rightarrow> settings \<Rightarrow> ('c, 's, 'p) client_session \<Rightarrow> bool" where
  "is_stale now cfg cs \<longleftrightarrow>
     (is_established (cs_session cs) \<and> real_of_int (s_timeout cfg) < now - last_seen cs) \<or>
     (\<not> is_established (cs_session cs) \<and> is_expired now HANDSHAKE_TIMEOUT (cs_session cs))"

definition cleanup_stale ::
  "('c, 'k, 's, 'p) env \<Rightarrow> real \<Rightarrow> ('c, 's, 'p) vpn_server \<Rightarrow> ('c, 's, 'p) vpn_server" where
  "cleanup_stale E now sv =
     fold (remove_client E)
       (map fst (filter (\<lambda>(a, cs). is_stale now (sv_config sv) cs) (sv_clients sv))) sv"

section \<open>The TUN side\<close>

definition ipv4_dest :: "bytes \<Rightarrow> string option" where
  "ipv4_dest packet =
     (if length packet < 20 then None
      else
        let ihl = unat (packet ! 0 AND 0x0f) * 4 in
        if length packet < ihl + 4 then None
        else
          let dest = slice packet (ihl + 4) (ihl + 8) in
          if length dest = 4 then Some (join ''.'' (map (\<lambda>b. str_nat (unat b)) dest)) else None)"

text \<open>
  \<^verbatim>\<open>_on_tun_readable\<close> encrypts the packet and calls the coroutine function \<^verbatim>\<open>_send_to\<close> for each
  datagram, without awaiting the coroutine objects it gets.
\<close>

definition on_tun_readable ::
  "('c, 'k, 's, 'p) env \<Rightarrow> (nat \<Rightarrow> bytes) \<Rightarrow> bytes res \<Rightarrow> (('c, 's, 'p) vpn_server, unit) meth" where
  "on_tun_readable E rnd queued sv =
     (case tun_read queued 65536 (sv_tun sv) of
        Inl OSError \<Rightarrow> (Inr (), sv)
      | Inl e \<Rightarrow> (Inl e, sv)
      | Inr packet \<Rightarrow>
          if length packet < 20 then (Inr (), sv)
          else
            case ipv4_dest packet of
              None \<Rightarrow> (Inr (), sv)
            | Some dest_ip \<Rightarrow>
                (case map_of (ip_to_addr sv) dest_ip of
                   None \<Rightarrow> (Inr (), sv)
                 | Some a \<Rightarrow>
                     (case map_of (sv_clients sv) a of
                        None \<Rightarrow> (Inr (), sv)
                      | Some cs \<Rightarrow>
                          if \<not> is_ready cs then (Inr (), sv)
                          else
                            case encrypt (e_prims E) rnd packet (the (cs_data cs)) of
                              (r, ch) \<Rightarrow>
                                m_bind (m_lift r) (\<lambda>wires.
                                m_for (\<lambda>wire. m_bind (m_return (send_to E cs wire)) (\<lambda>_. m_return ())) wires)
                                  (upd_client a (\<lambda>c. c\<lparr>cs_data := Some ch\<rparr>) sv))))"

lemma sends_dropped [simp]:
  "m_for (\<lambda>wire. m_bind (m_return (send_to E cs wire)) (\<lambda>_. m_return ())) wires sv = (Inr (), sv)"
  by (induction wires) (simp_all add: meth_defs)

lemma lifted_sends_dropped [simp]:
  "m_bind (m_lift r) (\<lambda>wires. m_for (\<lambda>wire. m_bind (m_return (send_to E cs wire)) (\<lambda>_. m_return ())) wires) sv =
     (res_bind r (\<lambda>_. Inr ()), sv)"
  by (simp add: m_bind_def m_lift_def split: sum.split)

section \<open>Sessions and addresses\<close>

definition get_or_create_session ::
  "('c, 'k, 's, 'p) env \<Rightarrow> real \<Rightarrow> bytes \<Rightarrow> 's \<Rightarrow> addr \<Rightarrow> nat option \<Rightarrow>
   (('c, 's, 'p) vpn_server, ('c, 's, 'p) client_session) meth" where
  "get_or_create_session E now sid sk a writer sv =
     (case map_of (sv_clients sv) a of
        Some cs \<Rightarrow> (Inr cs, sv)
      | None \<Rightarrow>
          let s0 = new_session (e_pki E) True sid sk now; cfg = sv_config sv;
              (r, s) = (if authenticated_mode cfg
                        then configure (e_pki E) (or_empty (s_ca cfg)) (or_empty (s_cert cfg))
                               (or_empty (s_key cfg)) s0
                        else (Inr (), s0))
          in case r of
               Inl e \<Rightarrow> (Inl e, sv)
             | Inr _ \<Rightarrow>
                 let cs = (new_client_session now a s)\<lparr>cs_writer := writer\<rparr> in
                 (Inr cs, sv\<lparr>sv_clients := AList.update a cs (sv_clients sv)\<rparr>))"

definition assign_ip_to_client ::
  "('c, 'k, 's, 'p) env \<Rightarrow> ('c, 's, 'p) client_session \<Rightarrow>
   (('c, 's, 'p) vpn_server, string option) meth" where
  "assign_ip_to_client E cs sv =
     (case sv_pool sv of
        None \<Rightarrow> (Inr None, sv)
      | Some p \<Rightarrow>
          (case allocate (client_id cs) p of
             (Inl e, q) \<Rightarrow> (Inl e, sv\<lparr>sv_pool := Some q\<rparr>)
           | (Inr None, q) \<Rightarrow> (Inr None, sv\<lparr>sv_pool := Some q\<rparr>)
           | (Inr (Some ip), q) \<Rightarrow>
               let sv1 = upd_client (cs_addr cs)
                     (\<lambda>c. c\<lparr>virtual_ip := Some ip, cs_session := (cs_session c)\<lparr>assigned_ip := Some ip\<rparr>\<rparr>)
                     (sv\<lparr>sv_pool := Some q,
                        ip_to_addr := AList.update ip (cs_addr cs) (ip_to_addr sv)\<rparr>)
               in (m_bind (m_lift (control_packet (session_id (cs_session cs)) IP_ASSIGN (utf8_encode ip)))
                     (\<lambda>packet. m_seq (sync_send_to cs packet)
                       (m_seq (on_os (add_route (e_world E) ip None (Some (s_dev (sv_config sv)))))
                         (m_return (Some ip))))) sv1))"

section \<open>Datagrams\<close>

definition handle_reset ::
  "('c, 'k, 's, 'p) env \<Rightarrow> real \<Rightarrow> bytes \<Rightarrow> 's \<Rightarrow> bytes \<Rightarrow> addr \<Rightarrow>
   (('c, 's, 'p) vpn_server, unit) meth" where
  "handle_reset E now sid sk data a =
     m_bind (get_or_create_session E now sid sk a None) (\<lambda>cs sv.
     case server_handle_reset now data (cs_session cs) of (r, s) \<Rightarrow>
       (m_bind (m_lift r) (m_for (sync_send_to cs)))
         (upd_client a (\<lambda>c. c\<lparr>cs_session := s\<rparr>) sv))"

definition control_handler ::
  "('c, 'k, 's, 'p) pki \<Rightarrow> MessageType \<Rightarrow>
   (bytes \<Rightarrow> ('c, 's, 'p) session \<Rightarrow> bytes list \<times> ('c, 's, 'p) session) option" where
  "control_handler P m =
     (case m of
        CLIENT_HELLO \<Rightarrow> Some (server_handle_client_hello P)
      | CLIENT_FINISHED \<Rightarrow> Some (server_handle_client_finished P)
      | _ \<Rightarrow> None)"

text \<open>After a handshake message: the first time the session is established, open the channel.\<close>

definition open_channel ::
  "('c, 'k, 's, 'p) env \<Rightarrow> addr \<Rightarrow> (('c, 's, 'p) vpn_server, unit) meth" where
  "open_channel E a sv =
     (case map_of (sv_clients sv) a of
        None \<Rightarrow> (Inr (), sv)
      | Some cs \<Rightarrow>
          if is_established (cs_session cs) \<and> cs_data cs = None then
            (case new_data_channel (e_prims E) (session_id (cs_session cs))
                    (or_empty (peer_session_id (cs_session cs))) (cipher (cs_session cs))
                    (s_comp_lzo (sv_config sv)) 64 of
               Inl e \<Rightarrow> (Inl e, sv)
             | Inr ch \<Rightarrow>
                 let cs1 = cs\<lparr>cs_data := Some ch\<rparr> in
                 m_seq (assign_ip_to_client E cs1) (m_return ())
                   (upd_client a (\<lambda>c. c\<lparr>cs_data := Some ch\<rparr>) sv))
          else (Inr (), sv))"

definition handle_control ::
  "('c, 'k, 's, 'p) env \<Rightarrow> bytes \<Rightarrow> addr \<Rightarrow> ('c, 's, 'p) client_session \<Rightarrow>
   (('c, 's, 'p) vpn_server, unit) meth" where
  "handle_control E data a cs =
     (case decode_packet data of
        Inl e \<Rightarrow> if e = ValueError \<or> e = IndexError then m_return () else m_raise e
      | Inr (_, _, payload) \<Rightarrow>
          if length payload < 1 then m_return ()
          else
            m_bind (m_lift (msg_of (unat (payload ! 0)))) (\<lambda>m.
            let inner = drop 1 payload in
            case control_handler (e_pki E) m of
              None \<Rightarrow> m_return ()
            | Some handler \<Rightarrow>
                (case handler inner (cs_session cs) of (packets, s) \<Rightarrow>
                   m_seq (m_upd (upd_client a (\<lambda>c. c\<lparr>cs_session := s\<rparr>)))
                  (m_seq (m_for (sync_send_to cs) packets)
                    (open_channel E a)))))"

definition handle_data ::
  "('c, 'k, 's, 'p) env \<Rightarrow> real \<Rightarrow> bytes \<Rightarrow> addr \<Rightarrow> ('c, 's, 'p) client_session \<Rightarrow>
   (('c, 's, 'p) vpn_server, unit) meth" where
  "handle_data E now data a cs sv =
     (if \<not> is_ready cs then (Inr (), sv)
      else
        case decrypt (e_prims E) now data (the (cs_data cs)) of (r, ch) \<Rightarrow>
          (m_bind (m_lift r) (\<lambda>plain.
             if truthy plain then m_seq (on_tun (tun_write (e_kernel E) (or_empty plain))) (m_return ())
             else m_return ()))
            (upd_client a (\<lambda>c. c\<lparr>cs_data := Some ch\<rparr>) sv))"

definition handle_udp_data ::
  "('c, 'k, 's, 'p) env \<Rightarrow> real \<Rightarrow> bytes \<Rightarrow> 's \<Rightarrow> bytes \<Rightarrow> addr \<Rightarrow>
   (('c, 's, 'p) vpn_server, unit) meth" where
  "handle_udp_data E now sid sk data a sv =
     (if length data < 1 then (Inr (), sv)
      else
        let opcode_v = unat (data ! 0) in
        if opcode_v = opcode_val HARD_RESET_CLIENT then handle_reset E now sid sk data a sv
        else if opcode_v = opcode_val HARD_RESET_SERVER then (Inr (), sv)
        else
          case map_of (sv_clients sv) a of
            None \<Rightarrow> (Inr (), sv)
          | Some cs0 \<Rightarrow>
              let cs = cs0\<lparr>last_seen := now\<rparr>;
                  sv1 = upd_client a (\<lambda>c. c\<lparr>last_seen := now\<rparr>) sv in
              if opcode_v = opcode_val CONTROL then handle_control E data a cs sv1
              else if opcode_v = opcode_val DATA then handle_data E now data a cs sv1
              else (Inr (), sv1))"

section \<open>TCP connections\<close>

text \<open>
  \<^verbatim>\<open>_handle_tcp_client\<close>: its three moments, between which other events may come. The loop tests
  \<^verbatim>\<open>_running\<close> before it waits for a frame: when the connection is new, and after each frame it has
  handled. An exception of the dispatcher (none is a \<^verbatim>\<open>ConnectionError\<close>) leaves through the
  \<^verbatim>\<open>finally\<close> clause, as does the \<^verbatim>\<open>ConnectionError\<close> of a read, which ends the connection like its
  end of file (\<open>None\<close>).
\<close>

definition tcp_closed ::
  "('c, 'k, 's, 'p) env \<Rightarrow> addr \<Rightarrow> ('c, 's, 'p) vpn_server \<Rightarrow> ('c, 's, 'p) vpn_server" where
  "tcp_closed E a sv = remove_client E a sv"

definition tcp_next ::
  "('c, 'k, 's, 'p) env \<Rightarrow> addr \<Rightarrow> ('c, 's, 'p) vpn_server \<Rightarrow> ('c, 's, 'p) vpn_server" where
  "tcp_next E a sv = (if sv_running sv then sv else tcp_closed E a sv)"

definition tcp_connected ::
  "('c, 'k, 's, 'p) env \<Rightarrow> real \<Rightarrow> bytes \<Rightarrow> 's \<Rightarrow> addr \<Rightarrow> nat \<Rightarrow>
   (('c, 's, 'p) vpn_server, unit) meth" where
  "tcp_connected E now sid sk a w =
     m_bind (get_or_create_session E now sid sk a (Some w)) (\<lambda>_. m_upd (tcp_next E a))"

definition tcp_frame ::
  "('c, 'k, 's, 'p) env \<Rightarrow> real \<Rightarrow> bytes \<Rightarrow> 's \<Rightarrow> bytes option \<Rightarrow> addr \<Rightarrow>
   (('c, 's, 'p) vpn_server, unit) meth" where
  "tcp_frame E now sid sk frame a sv =
     (case frame of
        None \<Rightarrow> (Inr (), tcp_closed E a sv)
      | Some data \<Rightarrow>
          (case handle_udp_data E now sid sk data a sv of
             (Inl e, t) \<Rightarrow> (Inl e, tcp_closed E a t)
           | (Inr _, t) \<Rightarrow> (Inr (), tcp_next E a t)))"

section \<open>Running\<close>

definition try_setup_nat ::
  "('c, 'k, 's, 'p) env \<Rightarrow> string \<Rightarrow> (('c, 's, 'p) vpn_server, unit) meth" where
  "try_setup_nat E iface sv =
     (case on_os (setup_nat (e_world E) iface (server_network (sv_config sv))) sv of
        (Inl e, t) \<Rightarrow> (Inr (), t)
      | (Inr _, t) \<Rightarrow> (Inr (), t\<lparr>nat_interface := Some iface\<rparr>))"

definition drop_step :: "('c, 'k, 's, 'p) env \<Rightarrow> (('c, 's, 'p) vpn_server, unit) meth" where
  "drop_step E sv =
     (case maybe_drop_privileges (e_accounts E) (s_user (sv_config sv)) (sv_ident sv) of
        (r, who) \<Rightarrow> (r, sv\<lparr>sv_ident := who\<rparr>))"

text \<open>\<^verbatim>\<open>run\<close> up to its main loop; \<open>bound\<close> is what opening the listening socket does.\<close>

definition startup ::
  "('c, 'k, 's, 'p) env \<Rightarrow> unit res \<Rightarrow> (('c, 's, 'p) vpn_server, unit) meth" where
  "startup E bound sv =
     (let cfg = sv_config sv; W = e_world E in
      (m_bind (m_lift (server_ip cfg)) (\<lambda>ip.
       m_seq (on_tun (tun_open W (e_kernel E)))
      (m_seq (on_tun (set_ip W ip))
      (m_seq (on_tun (set_mtu W 1500))
      (m_seq (on_os (enable_ip_forward W))
      (m_seq (on_os (add_route W (server_network cfg) None (Some (s_dev cfg))))
      (m_bind (on_os (get_default_interface W)) (\<lambda>iface.
       m_seq (if truthy iface then try_setup_nat E (or_empty iface) else m_return ())
      (m_seq (drop_step E)
      (m_seq (m_lift bound)
      (m_seq (m_upd (\<lambda>s. s\<lparr>sv_transport := \<not> is_tcp cfg\<rparr>))
      (m_seq (on_tun (\<lambda>t. (tun_fileno t, t)))
       (m_upd (\<lambda>s. s\<lparr>sv_running := True\<rparr>)))))))))))))) sv)"

text \<open>One turn of the main loop.\<close>

definition cleanup_all_fragments ::
  "real \<Rightarrow> ('c, 's, 'p) vpn_server \<Rightarrow> ('c, 's, 'p) vpn_server" where
  "cleanup_all_fragments now sv =
     sv\<lparr>sv_clients :=
       map (\<lambda>(a, cs). (a, cs\<lparr>cs_data := map_option (cleanup_fragments now) (cs_data cs)\<rparr>)) (sv_clients sv)\<rparr>"

definition tick ::
  "('c, 'k, 's, 'p) env \<Rightarrow> real \<Rightarrow> (('c, 's, 'p) vpn_server, unit) meth" where
  "tick E now =
     m_seq (m_upd (cleanup_stale E now))
    (m_seq (send_keepalives E now)
      (m_upd (cleanup_all_fragments now)))"

definition stop :: "('c, 's, 'p) vpn_server \<Rightarrow> ('c, 's, 'p) vpn_server" where
  "stop sv = sv\<lparr>sv_running := False\<rparr>"

definition cleanup_client ::
  "('c, 'k, 's, 'p) env \<Rightarrow> ('c, 's, 'p) client_session \<Rightarrow> ('c, 's, 'p) vpn_server \<Rightarrow>
   ('c, 's, 'p) vpn_server" where
  "cleanup_client E cs sv =
     close_tcp_writer cs
      (if truthy (virtual_ip cs)
       then snd (on_os (delete_route (e_world E) (or_empty (virtual_ip cs)) None
                   (Some (s_dev (sv_config sv)))) sv)
       else sv)"

definition cleanup ::
  "('c, 'k, 's, 'p) env \<Rightarrow> (('c, 's, 'p) vpn_server, unit) meth" where
  "cleanup E sv =
     (let sv1 = (fold (cleanup_client E) (map snd (sv_clients sv)) sv)\<lparr>sv_clients := [], ip_to_addr := []\<rparr>;
          cfg = sv_config sv1;
          sv2 = snd (on_os (delete_route (e_world E) (server_network cfg) None (Some (s_dev cfg))) sv1)
      in
        case nat_interface sv2 of
          None \<Rightarrow> (Inr (), sv2)
        | Some iface \<Rightarrow>
            if iface = [] then (Inr (), sv2)
            else
              (m_seq (on_os (teardown_nat (e_world E) iface (server_network cfg)))
                (m_upd (\<lambda>s. s\<lparr>nat_interface := None\<rparr>))) sv2)"

text \<open>The \<^verbatim>\<open>finally\<close> block of \<^verbatim>\<open>run\<close>, which surrounds the main loop only.\<close>

definition shutdown :: "('c, 'k, 's, 'p) env \<Rightarrow> (('c, 's, 'p) vpn_server, unit) meth" where
  "shutdown E =
     m_seq (cleanup E)
    (m_seq (on_tun (\<lambda>t. (tun_fileno t, t)))
     (m_upd (\<lambda>s. s\<lparr>sv_tun := tun_close (e_world E) (sv_tun s)\<rparr>)))"

lemmas server_defs =
  handle_udp_data_def handle_reset_def handle_control_def handle_data_def open_channel_def
  assign_ip_to_client_def get_or_create_session_def remove_client_def

end
