(* ===== verification/Server_Inv.thy ===== *)
theory Server_Inv
  imports Server
begin

text \<open>
  The server's reachable states and their invariant: the client table, the address table and
  the pool agree. Every event the loop can deliver is a constructor of the step relation.
\<close>

text \<open>Addresses are pairs, but quantifiers over them stay whole.\<close>

declare split_paired_All [simp del] split_paired_Ex [simp del]

section \<open>Reachable states\<close>

text \<open>
  A turn of the main loop is one step (\<open>sr_tick\<close>) unless it waits: in TCP mode
  \<^verbatim>\<open>_send_keepalives\<close> awaits \<^verbatim>\<open>drain\<close> after each packet, and other events come in between. So
  the parts of the turn are steps of their own as well, with any client \<open>x\<close> that the loop's
  copy of the table may hold.
\<close>

inductive server_reach ::
  "('c, 'k, 's, 'p) env \<Rightarrow> ('c, 's, 'p) vpn_server \<Rightarrow> bool" for E where
  sr_new: "new_server cfg s who = Inr sv \<Longrightarrow> server_reach E sv"
| sr_startup: "server_reach E sv \<Longrightarrow> startup E bound sv = (r, t) \<Longrightarrow> server_reach E t"
| sr_datagram: "server_reach E sv \<Longrightarrow> handle_udp_data E now sid sk data a sv = (r, t) \<Longrightarrow>
    server_reach E t"
| sr_tcp_connected: "server_reach E sv \<Longrightarrow> tcp_connected E now sid sk a w sv = (r, t) \<Longrightarrow>
    server_reach E t"
| sr_tcp_frame: "server_reach E sv \<Longrightarrow> tcp_frame E now sid sk frame a sv = (r, t) \<Longrightarrow>
    server_reach E t"
| sr_tun: "server_reach E sv \<Longrightarrow> on_tun_readable E rnd queued sv = (r, t) \<Longrightarrow> server_reach E t"
| sr_tick: "server_reach E sv \<Longrightarrow> tick E now sv = (r, t) \<Longrightarrow> server_reach E t"
| sr_stale: "server_reach E sv \<Longrightarrow> server_reach E (cleanup_stale E now sv)"
| sr_keepalive: "server_reach E sv \<Longrightarrow> keepalive_one E now x sv = (r, t) \<Longrightarrow> server_reach E t"
| sr_fragments: "server_reach E sv \<Longrightarrow> server_reach E (cleanup_all_fragments now sv)"
| sr_stop: "server_reach E sv \<Longrightarrow> server_reach E (stop sv)"

section \<open>The invariant\<close>

definition ip_of :: "('c, 's, 'p) vpn_server \<Rightarrow> addr \<Rightarrow> string option" where
  "ip_of sv a = Option.bind (map_of (sv_clients sv) a) virtual_ip"

text \<open>The pool holds exactly the clients' addresses, each under the client's id.\<close>

definition pool_matches :: "ip_pool option \<Rightarrow> (addr \<Rightarrow> string option) \<Rightarrow> bool" where
  "pool_matches po ips \<longleftrightarrow>
     (case po of
        None \<Rightarrow> (\<forall>a. ips a = None)
      | Some p \<Rightarrow>
          pool_ok p \<and>
          (\<forall>a. ips a = map_option ip_str (map_of (allocated p) (addr_str a))) \<and>
          (\<forall>c i. map_of (allocated p) c = Some i \<longrightarrow> (\<exists>a. c = addr_str a)) \<and>
          (\<forall>c i. map_of (allocated_by_int p) i = Some c \<longrightarrow> map_of (allocated p) c = Some i))"

definition clients_ok :: "('c, 's, 'p) vpn_server \<Rightarrow> bool" where
  "clients_ok sv \<longleftrightarrow> distinct (map fst (sv_clients sv)) \<and>
     (\<forall>a cs. map_of (sv_clients sv) a = Some cs \<longrightarrow>
        cs_addr cs = a \<and> (cs_data cs = None \<longrightarrow> virtual_ip cs = None))"

definition server_ok :: "('c, 's, 'p) vpn_server \<Rightarrow> bool" where
  "server_ok sv \<longleftrightarrow> clients_ok sv \<and>
     (\<forall>ip a. map_of (ip_to_addr sv) ip = Some a \<longleftrightarrow> ip_of sv a = Some ip) \<and>
     pool_matches (sv_pool sv) (ip_of sv)"

text \<open>What the invariant looks at.\<close>

lemma server_ok_cong:
  "sv_clients sv = sv_clients tv \<Longrightarrow> ip_to_addr sv = ip_to_addr tv \<Longrightarrow> sv_pool sv = sv_pool tv \<Longrightarrow>
     server_ok sv = server_ok tv"
  by (simp add: server_ok_def clients_ok_def ip_of_def [abs_def])

lemma on_os_frame [simp]:
  "sv_clients (snd (on_os m sv)) = sv_clients sv" "ip_to_addr (snd (on_os m sv)) = ip_to_addr sv"
  "sv_pool (snd (on_os m sv)) = sv_pool sv" "sv_config (snd (on_os m sv)) = sv_config sv"
  "outbox (snd (on_os m sv)) = outbox sv"
  by (simp_all add: on_os_def split: prod.split)

lemma on_tun_frame [simp]:
  "sv_clients (snd (on_tun m sv)) = sv_clients sv" "ip_to_addr (snd (on_tun m sv)) = ip_to_addr sv"
  "sv_pool (snd (on_tun m sv)) = sv_pool sv" "sv_config (snd (on_tun m sv)) = sv_config sv"
  "outbox (snd (on_tun m sv)) = outbox sv"
  by (simp_all add: on_tun_def split: prod.split)

lemma sync_send_frame [simp]:
  "sv_clients (snd (sync_send_to cs d sv)) = sv_clients sv"
  "ip_to_addr (snd (sync_send_to cs d sv)) = ip_to_addr sv"
  "sv_pool (snd (sync_send_to cs d sv)) = sv_pool sv"
  "sv_config (snd (sync_send_to cs d sv)) = sv_config sv"
  by (auto simp: sync_send_to_def split: sum.split)

lemma close_writer_frame [simp]:
  "sv_clients (close_tcp_writer cs sv) = sv_clients sv"
  "ip_to_addr (close_tcp_writer cs sv) = ip_to_addr sv"
  "sv_pool (close_tcp_writer cs sv) = sv_pool sv"
  "sv_config (close_tcp_writer cs sv) = sv_config sv"
  by (auto simp: close_tcp_writer_def split: option.split)

lemma keeps_on_os [keeps_intro]: "keeps server_ok (on_os m)"
  by (rule keepsI, subst server_ok_cong) simp_all

lemma keeps_on_tun [keeps_intro]: "keeps server_ok (on_tun m)"
  by (rule keepsI, subst server_ok_cong) simp_all

lemma keeps_send [keeps_intro]: "keeps server_ok (sync_send_to cs d)"
  by (rule keepsI, subst server_ok_cong) simp_all

lemma keeps_async_send:
  "keeps Q (sync_send_to cs d) \<Longrightarrow> keeps Q (await (send_to E cs d))"
  unfolding send_to_def await.simps
  by (intro keeps_intro) (simp_all add: keeps_def drain_writer_def)

text \<open>Changing a client in place keeps the invariant when its address survives.\<close>

lemma upd_client_clients:
  "map_of (sv_clients (upd_client a f sv)) b =
     (if b = a then map_option f (map_of (sv_clients sv) a) else map_of (sv_clients sv) b)"
  by (simp add: upd_client_def map_of_map_entry split: option.split)

lemma upd_client_other [simp]:
  "ip_to_addr (upd_client a f sv) = ip_to_addr sv" "sv_pool (upd_client a f sv) = sv_pool sv"
  "sv_config (upd_client a f sv) = sv_config sv" "outbox (upd_client a f sv) = outbox sv"
  "sv_tun (upd_client a f sv) = sv_tun sv" "sv_transport (upd_client a f sv) = sv_transport sv"
  "sv_running (upd_client a f sv) = sv_running sv"
  by (simp_all add: upd_client_def)

lemma upd_client_ok:
  assumes ok: "server_ok sv"
    and f: "\<And>cs. map_of (sv_clients sv) a = Some cs \<Longrightarrow> cs_addr (f cs) = cs_addr cs \<and>
      virtual_ip (f cs) = virtual_ip cs \<and> (cs_data (f cs) = None \<longrightarrow> cs_data cs = None)"
  shows "server_ok (upd_client a f sv)"
proof -
  have ip: "ip_of (upd_client a f sv) = ip_of sv"
    using f by (cases "map_of (sv_clients sv) a") (auto simp: ip_of_def upd_client_clients fun_eq_iff)
  have "clients_ok (upd_client a f sv)"
    using ok f unfolding server_ok_def clients_ok_def upd_client_clients
    by (auto simp: upd_client_def distinct_map_entry split: if_splits)
  with ok show ?thesis unfolding server_ok_def ip by simp
qed

section \<open>Every step keeps the invariant\<close>

lemma new_pool_empty: "new_pool n r = Inr p \<Longrightarrow> allocated p = [] \<and> allocated_by_int p = []"
  by (auto simp: new_pool_def res_bind_Inr_iff)

lemma new_server_ok: "new_server cfg s who = Inr sv \<Longrightarrow> server_ok sv"
  using new_pool_ok new_pool_empty
  by (auto simp: new_server_def res_bind_Inr_iff server_ok_def clients_ok_def ip_of_def
      pool_matches_def split: if_splits)

lemma virtual_ip_owner:
  assumes "server_ok sv" and "map_of (sv_clients sv) a = Some cs" and "virtual_ip cs = Some ip"
  shows "map_of (ip_to_addr sv) ip = Some a" and "cs_addr cs = a" and "ip \<noteq> []"
    and "\<exists>p i. sv_pool sv = Some p \<and> map_of (allocated p) (addr_str a) = Some i \<and> ip = ip_str i"
proof -
  have ip: "ip_of sv a = Some ip" using assms(2,3) by (simp add: ip_of_def)
  with assms(1) show "map_of (ip_to_addr sv) ip = Some a" by (simp add: server_ok_def)
  from assms show "cs_addr cs = a" by (simp add: server_ok_def clients_ok_def)
  from assms(1) ip show p: "\<exists>p i. sv_pool sv = Some p \<and> map_of (allocated p) (addr_str a) = Some i \<and>
      ip = ip_str i"
    by (auto simp: server_ok_def pool_matches_def split: option.splits)
  then show "ip \<noteq> []" by auto
qed

lemma pool_matches_release:
  assumes "pool_matches (Some p) ips"
  shows "pool_matches (Some (release (addr_str a) p)) (ips(a := None))"
proof (cases "map_of (allocated p) (addr_str a)")
  case None
  with assms have "ips a = None" by (simp add: pool_matches_def)
  then have "ips(a := None) = ips" by auto
  with assms None show ?thesis by (simp add: release_def)
next
  case (Some i)
  from assms have ok: "pool_ok p" by (simp add: pool_matches_def)
  have "map_of (allocated p) d \<noteq> Some i" if "d \<noteq> addr_str a" for d
  proof
    assume "map_of (allocated p) d = Some i"
    with ok Some have "Some d = Some (addr_str a)" unfolding pool_ok_def by metis
    with that show False by simp
  qed
  moreover have "allocated (release (addr_str a) p) = AList.delete (addr_str a) (allocated p)"
    and "allocated_by_int (release (addr_str a) p) = AList.delete i (allocated_by_int p)"
    using Some by (simp_all add: release_def)
  ultimately show ?thesis
    using assms Some release_ok [OF ok, of "addr_str a"]
    by (auto simp: pool_matches_def map_of_delete addr_str_inj)
qed

lemma remove_client_ok:
  assumes ok: "server_ok sv"
  shows "server_ok (remove_client E a sv)"
proof (cases "map_of (sv_clients sv) a")
  case None
  with ok show ?thesis by (simp add: remove_client_def)
next
  case (Some cs)
  let ?t = "remove_client E a sv"
  have cl: "sv_clients ?t = AList.delete a (sv_clients sv)"
    using Some by (auto simp: remove_client_def Let_def split: option.splits)
  then have ip: "ip_of ?t = (ip_of sv)(a := None)"
    by (auto simp: ip_of_def fun_eq_iff map_of_delete)
  have co: "clients_ok ?t"
    using ok unfolding server_ok_def clients_ok_def cl
    by (auto simp: map_of_delete distinct_delete split: if_splits)
  have addr: "cs_addr cs = a" using ok Some by (simp add: server_ok_def clients_ok_def)
  show ?thesis
  proof (cases "virtual_ip cs")
    case None
    with Some have "ip_of sv a = None" by (simp add: ip_of_def)
    then have "ip_of ?t = ip_of sv" using ip by auto
    moreover have "ip_to_addr ?t = ip_to_addr sv" "sv_pool ?t = sv_pool sv"
      using Some None by (auto simp: remove_client_def Let_def split: option.splits)
    ultimately show ?thesis using ok co by (simp add: server_ok_def)
  next
    case v: (Some x)
    note o = virtual_ip_owner(1,3) [OF ok Some v]
    from virtual_ip_owner(4) [OF ok Some v] obtain p where p: "sv_pool sv = Some p" by blast
    have t: "ip_to_addr ?t = AList.delete x (ip_to_addr sv)" "sv_pool ?t = Some (release (addr_str a) p)"
      using Some v o p addr by (simp_all add: remove_client_def Let_def client_id_def)
    from ok p have "pool_matches (Some p) (ip_of sv)" by (simp add: server_ok_def)
    from pool_matches_release [OF this] have "pool_matches (sv_pool ?t) (ip_of ?t)"
      unfolding t ip .
    moreover have tab: "map_of (ip_to_addr sv) y = Some b \<longleftrightarrow> ip_of sv b = Some y" for y b
      using ok by (simp add: server_ok_def)
    have "map_of (ip_to_addr ?t) y = Some b \<longleftrightarrow> ip_of ?t b = Some y" for y b
      using o(1) tab [of x b] tab [of x a] tab [of y b] unfolding t ip by (auto simp: map_of_delete)
    with calculation show ?thesis using co by (simp add: server_ok_def)
  qed
qed

lemma cleanup_stale_ok: "server_ok sv \<Longrightarrow> server_ok (cleanup_stale E now sv)"
proof -
  have "server_ok (fold (remove_client E) as sv)" if "server_ok sv" for as
    using that by (induction as arbitrary: sv) (simp_all add: remove_client_ok)
  then show "server_ok sv \<Longrightarrow> server_ok (cleanup_stale E now sv)" by (simp add: cleanup_stale_def)
qed

lemma get_or_create_ok:
  assumes ok: "server_ok sv"
    and g: "get_or_create_session E now sid sk a w sv = (r, t)"
  shows "server_ok t" and "r = Inr cs \<Longrightarrow> map_of (sv_clients t) a = Some cs"
proof -
  have "server_ok t \<and> (r = Inr cs \<longrightarrow> map_of (sv_clients t) a = Some cs)"
  proof (cases "map_of (sv_clients sv) a")
    case (Some c)
    with ok g show ?thesis by (auto simp: get_or_create_session_def)
  next
    case None
    consider e where "t = sv" "r = Inl e"
      | c where "t = sv\<lparr>sv_clients := AList.update a c (sv_clients sv)\<rparr>" "r = Inr c"
          "cs_addr c = a" "virtual_ip c = None"
      using g None
      by (auto simp: get_or_create_session_def Let_def new_client_session_def
          split: prod.splits sum.splits)
    then show ?thesis
    proof cases
      case (1 e)
      with ok show ?thesis by simp
    next
      case (2 c)
      from None have "ip_of sv a = None" by (simp add: ip_of_def)
      with 2 have ip: "ip_of t = ip_of sv" by (auto simp: ip_of_def fun_eq_iff map_of_update)
      have "clients_ok t" using ok 2 unfolding server_ok_def clients_ok_def
        by (auto simp: map_of_update distinct_update split: if_splits)
      with ok 2 ip show ?thesis by (auto simp: server_ok_def map_of_update)
    qed
  qed
  then show "server_ok t" and "r = Inr cs \<Longrightarrow> map_of (sv_clients t) a = Some cs" by auto
qed

lemma pool_matches_allocate:
  assumes m: "pool_matches (Some p) ips" and new: "ips a = None"
    and al: "allocate (addr_str a) p = (Inr (Some ip), q)"
  shows "pool_matches (Some q) (ips(a \<mapsto> ip))" and "ips b \<noteq> Some ip"
proof -
  from m have ok: "pool_ok p" by (simp add: pool_matches_def)
  from allocate_cases [OF ok, of "addr_str a"] al obtain i where i: "i \<in> available p" "0 \<le> i"
      "i < 2 ^ 32" "ip = ip_str i"
    and q: "allocated q = AList.update (addr_str a) i (allocated p)"
      "allocated_by_int q = AList.update i (addr_str a) (allocated_by_int p)"
    by cases auto
  from i(1) ok have fr: "map_of (allocated_by_int p) i = None" by (auto simp: pool_ok_def)
  from allocate_ok [OF ok, of "addr_str a"] al have "pool_ok q" by simp
  moreover from m new have "map_of (allocated p) (addr_str a) = None" by (simp add: pool_matches_def)
  ultimately show "pool_matches (Some q) (ips(a \<mapsto> ip))"
    using m fr i(4) unfolding pool_matches_def
    by (auto simp: q map_of_update addr_str_inj)
  show "ips b \<noteq> Some ip"
  proof
    assume "ips b = Some ip"
    with m obtain j where j: "map_of (allocated p) (addr_str b) = Some j" "ip_str j = ip"
      by (auto simp: pool_matches_def)
    with ok have bj: "map_of (allocated_by_int p) j = Some (addr_str b)" by (simp add: pool_ok_def)
    then have "j \<in> available p \<union> dom (map_of (allocated_by_int p))" by blast
    with ok have "0 \<le> j" "j < 2 ^ 32" unfolding pool_ok_def by blast+
    with j(2) i(2-4) have "i = j" using ip_str_inj by metis
    with bj fr show False by simp
  qed
qed

lemma assign_ok:
  assumes ok: "server_ok sv" and cs: "map_of (sv_clients sv) a = Some c" "virtual_ip c = None"
      "cs_data c \<noteq> None" "cs_addr cs = a"
  shows "server_ok (snd (assign_ip_to_client E cs sv))"
proof (cases "sv_pool sv")
  case None
  with ok show ?thesis by (simp add: assign_ip_to_client_def)
next
  case (Some p)
  from ok Some have m: "pool_matches (Some p) (ip_of sv)" by (simp add: server_ok_def)
  then have "pool_ok p" by (simp add: pool_matches_def)
  from allocate_cases [OF this, of "addr_str a"] consider "allocate (addr_str a) p = (Inr None, p)"
    | ip q where "allocate (addr_str a) p = (Inr (Some ip), q)" by cases auto
  then show ?thesis
  proof cases
    case 1
    moreover have "server_ok (sv\<lparr>sv_pool := Some p\<rparr>) = server_ok sv"
      by (rule server_ok_cong) (simp_all add: Some)
    ultimately show ?thesis using Some ok cs(4) by (simp add: assign_ip_to_client_def client_id_def)
  next
    case (2 ip q)
    let ?f = "\<lambda>c. c\<lparr>virtual_ip := Some ip, cs_session := (cs_session c)\<lparr>assigned_ip := Some ip\<rparr>\<rparr>"
    let ?t = "upd_client a ?f (sv\<lparr>sv_pool := Some q, ip_to_addr := AList.update ip a (ip_to_addr sv)\<rparr>)"
    from cs have new: "ip_of sv a = None" by (simp add: ip_of_def)
    note al = pool_matches_allocate [OF m new 2]
    have ip: "ip_of ?t = (ip_of sv)(a \<mapsto> ip)"
      using cs(1) by (auto simp: ip_of_def fun_eq_iff upd_client_clients)
    have co: "clients_ok ?t"
      using ok cs unfolding server_ok_def clients_ok_def upd_client_clients
      by (auto simp: upd_client_def distinct_map_entry split: if_splits)
    have "map_of (ip_to_addr sv) y = Some b \<longleftrightarrow> ip_of sv b = Some y" for y b
      using ok by (simp add: server_ok_def)
    then have "server_ok ?t"
      using co al new unfolding server_ok_def ip by (auto simp: map_of_update)
    moreover have k: "keeps server_ok (m_bind (m_lift r) (\<lambda>packet. m_seq (sync_send_to cs packet)
        (m_seq (on_os m) (m_return v))))" for r m v
      by (intro keeps_intro)
    ultimately show ?thesis
      using Some 2 cs(4)
      by (simp add: assign_ip_to_client_def client_id_def Let_def) (intro keepsD [OF k])
  qed
qed

lemma open_channel_keeps [keeps_intro]: "keeps server_ok (open_channel E a)"
proof (rule keepsI)
  fix sv :: "('a, 'b, 'c) vpn_server" assume ok: "server_ok sv"
  show "server_ok (snd (open_channel E a sv))"
  proof (cases "map_of (sv_clients sv) a")
    case None
    with ok show ?thesis by (simp add: open_channel_def)
  next
    case (Some cs)
    show ?thesis
    proof (cases "is_established (cs_session cs) \<and> cs_data cs = None")
      case False
      with ok Some show ?thesis by (auto simp: open_channel_def)
    next
      case True
      with ok Some have v: "virtual_ip cs = None" "cs_addr cs = a"
        by (simp_all add: server_ok_def clients_ok_def)
      have "server_ok (snd (m_seq (assign_ip_to_client E (cs\<lparr>cs_data := Some ch\<rparr>)) (m_return ())
          (upd_client a (\<lambda>c. c\<lparr>cs_data := Some ch\<rparr>) sv)))" for ch
      proof -
        let ?u = "upd_client a (\<lambda>c. c\<lparr>cs_data := Some ch\<rparr>) sv"
        have "server_ok ?u" using ok by (rule upd_client_ok) simp
        then have "server_ok (snd (assign_ip_to_client E (cs\<lparr>cs_data := Some ch\<rparr>) ?u))"
          using Some v by (rule_tac c = "cs\<lparr>cs_data := Some ch\<rparr>" in assign_ok)
            (simp_all add: upd_client_clients)
        then show ?thesis by simp
      qed
      with ok Some True show ?thesis by (auto simp: open_channel_def Let_def split: sum.split)
    qed
  qed
qed

lemma keeps_upd_client [keeps_intro]:
  assumes "\<And>c. cs_addr (f c) = cs_addr c \<and> virtual_ip (f c) = virtual_ip c \<and>
      (cs_data (f c) = None \<longrightarrow> cs_data c = None)"
  shows "keeps server_ok (m_upd (upd_client a f))"
  using assms by (intro keeps_upd upd_client_ok) auto

lemma handle_reset_keeps: "keeps server_ok (handle_reset E now sid sk data a)"
proof (rule keepsI)
  fix sv :: "('a, 'b, 'c) vpn_server" assume ok: "server_ok sv"
  obtain r t where g: "get_or_create_session E now sid sk a None sv = (r, t)" by fastforce
  note t = get_or_create_ok(1) [OF ok g]
  have k: "keeps server_ok (m_bind (m_lift q) (m_for (sync_send_to cs)))" for q cs
    by (intro keeps_intro)
  have "server_ok (upd_client a (\<lambda>c. c\<lparr>cs_session := s\<rparr>) t)" for s
    using t by (rule upd_client_ok) simp
  with t g show "server_ok (snd (handle_reset E now sid sk data a sv))"
    by (cases r) (auto simp: handle_reset_def m_bind_def [of "get_or_create_session E now sid sk a None"]
        split: prod.split intro: keepsD [OF k])
qed

lemma handle_control_keeps: "keeps server_ok (handle_control E data a cs)"
  unfolding handle_control_def Let_def
  by (auto split: sum.split prod.split option.split intro!: keeps_intro)

lemma handle_data_keeps: "keeps server_ok (handle_data E now data a cs)"
proof (rule keepsI)
  fix sv :: "('a, 'b, 'c) vpn_server" assume ok: "server_ok sv"
  have "server_ok (upd_client a (\<lambda>c. c\<lparr>cs_data := Some ch\<rparr>) sv)" for ch
    using ok by (rule upd_client_ok) simp
  moreover have k: "keeps server_ok (m_bind (m_lift r) (\<lambda>plain. if truthy plain
      then m_seq (on_tun (m plain)) (m_return ()) else m_return ()))" for r and m :: "_ \<Rightarrow> (tun, nat) meth"
    by (intro keeps_intro)
  ultimately show "server_ok (snd (handle_data E now data a cs sv))"
    using ok by (auto simp: handle_data_def split: prod.split intro!: keepsD [OF k])
qed

lemma datagram_keeps: "keeps server_ok (handle_udp_data E now sid sk data a)"
proof (rule keepsI)
  fix sv :: "('a, 'b, 'c) vpn_server" assume ok: "server_ok sv"
  then have "server_ok (upd_client a (\<lambda>c. c\<lparr>last_seen := now\<rparr>) sv)"
    by (rule upd_client_ok) simp
  with ok show "server_ok (snd (handle_udp_data E now sid sk data a sv))"
    by (auto simp: handle_udp_data_def Let_def split: option.split
        intro: keepsD [OF handle_reset_keeps] keepsD [OF handle_control_keeps]
          keepsD [OF handle_data_keeps])
qed

lemma keepalive_one_keeps: "keeps server_ok (keepalive_one E now x)"
  unfolding keepalive_one_def by (auto split: prod.split intro!: keeps_intro keeps_async_send)

lemma keepalives_keeps: "keeps server_ok (send_keepalives E now)"
proof (rule keepsI)
  fix sv :: "('a, 'b, 'c) vpn_server" assume "server_ok sv"
  then show "server_ok (snd (send_keepalives E now sv))"
    unfolding send_keepalives_def by (rule keepsD [OF keeps_for [OF keepalive_one_keeps]])
qed

lemma cleanup_fragments_ok:
  assumes "server_ok sv"
  shows "server_ok (cleanup_all_fragments now sv)"
proof -
  let ?g = "\<lambda>cs :: ('a, 'b, 'c) client_session. cs\<lparr>cs_data := map_option (cleanup_fragments now) (cs_data cs)\<rparr>"
  have cl: "map_of (sv_clients (cleanup_all_fragments now sv)) a = map_option ?g (map_of (sv_clients sv) a)" for a
    by (simp add: cleanup_all_fragments_def map_of_map)
  then have ip: "ip_of (cleanup_all_fragments now sv) = ip_of sv"
    by (auto simp: ip_of_def fun_eq_iff cl split: bind_splits option.splits)
  have "map fst (sv_clients (cleanup_all_fragments now sv)) = map fst (sv_clients sv)"
    by (auto simp: cleanup_all_fragments_def)
  then have "clients_ok (cleanup_all_fragments now sv)"
    using assms unfolding server_ok_def clients_ok_def by (auto simp: cl)
  moreover have "ip_to_addr (cleanup_all_fragments now sv) = ip_to_addr sv"
    "sv_pool (cleanup_all_fragments now sv) = sv_pool sv"
    by (simp_all add: cleanup_all_fragments_def)
  ultimately show ?thesis using assms unfolding server_ok_def ip by simp
qed

lemma tick_keeps: "keeps server_ok (tick E now)"
  unfolding tick_def
  by (intro keeps_intro keepalives_keeps cleanup_stale_ok cleanup_fragments_ok)

lemma tun_readable_keeps: "keeps server_ok (on_tun_readable E rnd queued)"
proof (rule keepsI)
  fix sv :: "('a, 'b, 'c) vpn_server" assume ok: "server_ok sv"
  then have "server_ok (upd_client a (\<lambda>c. c\<lparr>cs_data := Some ch\<rparr>) sv)" for a ch
    by (rule upd_client_ok) simp
  with ok show "server_ok (snd (on_tun_readable E rnd queued sv))"
    by (auto simp: on_tun_readable_def split: sum.split exn.split option.split prod.split)
qed

lemma startup_keeps: "keeps server_ok (startup E bound)"
proof (rule keepsI)
  fix sv :: "('a, 'b, 'c) vpn_server" assume ok: "server_ok sv"
  have cong: "keeps server_ok m" if "\<And>s. sv_clients (snd (m s)) = sv_clients s \<and>
      ip_to_addr (snd (m s)) = ip_to_addr s \<and> sv_pool (snd (m s)) = sv_pool s"
    for m :: "(('a, 'b, 'c) vpn_server, unit) meth"
    by (rule keepsI, subst server_ok_cong) (simp_all add: that)
  have nat: "keeps server_ok (try_setup_nat E i :: (('a, 'b, 'c) vpn_server, unit) meth)" for i
    by (rule cong) (auto simp: try_setup_nat_def on_os_def split: prod.split sum.split)
  have drop: "keeps server_ok (drop_step E :: (('a, 'b, 'c) vpn_server, unit) meth)"
    by (rule cong) (auto simp: drop_step_def split: prod.split)
  have fin: "keeps server_ok (m_upd (\<lambda>s :: ('a, 'b, 'c) vpn_server. s\<lparr>sv_transport := b\<rparr>))"
    "keeps server_ok (m_upd (\<lambda>s :: ('a, 'b, 'c) vpn_server. s\<lparr>sv_running := True\<rparr>))" for b
    by (rule cong, simp add: m_upd_def)+
  show "server_ok (snd (startup E bound sv))"
    unfolding startup_def Let_def
    by (rule keepsD [of server_ok, OF _ ok]) (intro keeps_intro nat drop fin)
qed

lemma tcp_next_ok: "server_ok sv \<Longrightarrow> server_ok (tcp_next E a sv)"
  by (simp add: tcp_next_def tcp_closed_def remove_client_ok)

theorem server_reach_ok: "server_reach E sv \<Longrightarrow> server_ok sv"
proof (induction rule: server_reach.induct)
  case (sr_new cfg s who sv)
  then show ?case by (rule new_server_ok)
next
  case (sr_startup sv bound r t)
  show ?case by (rule keeps_step [OF startup_keeps sr_startup.IH sr_startup.hyps(2)])
next
  case (sr_datagram sv now sid sk data a r t)
  show ?case by (rule keeps_step [OF datagram_keeps sr_datagram.IH sr_datagram.hyps(2)])
next
  case (sr_tcp_connected sv now sid sk a w r t)
  then show ?case using get_or_create_ok(1) tcp_next_ok
    by (fastforce simp: tcp_connected_def m_bind_def m_upd_def split: prod.splits sum.splits)
next
  case (sr_tcp_frame sv now sid sk frame a r t)
  then show ?case using keeps_step [OF datagram_keeps]
    by (fastforce simp: tcp_frame_def tcp_closed_def remove_client_ok tcp_next_ok
        split: option.splits prod.splits sum.splits)
next
  case (sr_tun sv rnd queued r t)
  show ?case by (rule keeps_step [OF tun_readable_keeps sr_tun.IH sr_tun.hyps(2)])
next
  case (sr_tick sv now r t)
  show ?case by (rule keeps_step [OF tick_keeps sr_tick.IH sr_tick.hyps(2)])
next
  case (sr_stale sv now)
  show ?case using sr_stale.IH by (rule cleanup_stale_ok)
next
  case (sr_keepalive sv now x r t)
  show ?case by (rule keeps_step [OF keepalive_one_keeps sr_keepalive.IH sr_keepalive.hyps(2)])
next
  case (sr_fragments sv now)
  show ?case using sr_fragments.IH by (rule cleanup_fragments_ok)
next
  case (sr_stop sv)
  then show ?case by (subst server_ok_cong [of _ sv]) (simp_all add: stop_def)
qed

end
