(* ===== verification/Server_Props.thy ===== *)
theory Server_Props
  imports Server_Inv Handshake_Security Channel_Props
begin

text \<open>
  Properties of the server: address assignment, removal of stale clients, which datagrams
  have an effect, and where an unauthenticated peer or a packet from the TUN device is
  treated differently from what the code means to do.
\<close>

declare split_paired_All [simp del] split_paired_Ex [simp del]

section \<open>Addresses\<close>

text \<open>
  Claim C10. Virtual addresses are exclusive: in every reachable server state two clients
  with the same virtual address are the same client, the routing table sends that address
  to it, and the pool has it registered under that client's id.
\<close>

theorem virtual_ips_exclusive:
  assumes "server_reach E sv"
    and "map_of (sv_clients sv) a = Some ca" and "virtual_ip ca = Some ip"
    and "map_of (sv_clients sv) b = Some cb" and "virtual_ip cb = Some ip"
  shows "a = b \<and> map_of (ip_to_addr sv) ip = Some a \<and>
    (\<exists>p. sv_pool sv = Some p \<and> get_client_ip (client_id ca) p = Some ip)"
proof -
  note ok = server_reach_ok [OF assms(1)]
  note va = virtual_ip_owner [OF ok assms(2,3)] and vb = virtual_ip_owner [OF ok assms(4,5)]
  from va(1) vb(1) have "a = b" by simp
  with va show ?thesis by (auto simp: get_client_ip_def client_id_def)
qed

lemma remove_client_table:
  "map_of (sv_clients (remove_client E a sv)) b = (if b = a then None else map_of (sv_clients sv) b)"
  by (auto simp: remove_client_def Let_def map_of_delete split: option.split)

lemma remove_clients_table:
  "map_of (sv_clients (fold (remove_client E) as sv)) b =
     (if b \<in> set as then None else map_of (sv_clients sv) b)"
  by (induction as arbitrary: sv) (auto simp: remove_client_table)

lemma stale_addresses:
  assumes "distinct (map fst cl)"
  shows "a \<in> set (map fst (filter (\<lambda>(a, cs). P cs) cl)) \<longleftrightarrow> (\<exists>cs. map_of cl a = Some cs \<and> P cs)"
proof -
  have "a \<in> set (map fst (filter (\<lambda>(a, cs). P cs) cl)) \<longleftrightarrow> (\<exists>cs. (a, cs) \<in> set cl \<and> P cs)"
    by force
  then show ?thesis using assms by (simp add: map_of_eq_Some_iff)
qed

lemma cleanup_stale_table:
  assumes "server_ok sv"
  shows "map_of (sv_clients (cleanup_stale E now sv)) a =
      (case map_of (sv_clients sv) a of
         None \<Rightarrow> None
       | Some cs \<Rightarrow> if is_stale now (sv_config sv) cs then None else Some cs)"
proof -
  from assms have "distinct (map fst (sv_clients sv))" by (simp add: server_ok_def clients_ok_def)
  from stale_addresses [OF this, of a "is_stale now (sv_config sv)"] show ?thesis
    unfolding cleanup_stale_def remove_clients_table by (auto split: option.splits)
qed

text \<open>
  Claim C13. Cleanup removes exactly the stale clients: after \<^verbatim>\<open>_cleanup_stale\<close> the client
  table is the old one without the established clients that have been silent longer than the
  keepalive timeout and the others whose handshake is older than 30 seconds; the addresses of
  those removed are routed to nobody.
\<close>

theorem cleanup_stale_exact:
  assumes "server_reach E sv" and "cleanup_stale E now sv = t"
  shows "(\<forall>a. map_of (sv_clients t) a =
      (case map_of (sv_clients sv) a of
         None \<Rightarrow> None
       | Some cs \<Rightarrow> if is_stale now (sv_config sv) cs then None else Some cs)) \<and>
    (\<forall>a cs ip. map_of (sv_clients sv) a = Some cs \<and> is_stale now (sv_config sv) cs \<and>
      virtual_ip cs = Some ip \<longrightarrow> map_of (ip_to_addr t) ip = None)"
proof (intro conjI allI impI)
  note ok = server_reach_ok [OF assms(1)]
  note table = cleanup_stale_table [OF ok, of E now, unfolded assms(2)]
  show "map_of (sv_clients t) a = (case map_of (sv_clients sv) a of None \<Rightarrow> None
      | Some cs \<Rightarrow> if is_stale now (sv_config sv) cs then None else Some cs)" for a
    by (rule table)
  fix a cs ip
  assume c: "map_of (sv_clients sv) a = Some cs \<and> is_stale now (sv_config sv) cs \<and>
    virtual_ip cs = Some ip"
  have "ip_of t b \<noteq> Some ip" for b
  proof
    assume b: "ip_of t b = Some ip"
    with table [of b] have "ip_of sv b = Some ip" by (auto simp: ip_of_def split: option.splits if_splits)
    moreover from c have "ip_of sv a = Some ip" by (simp add: ip_of_def)
    ultimately have "b = a" using ok unfolding server_ok_def by (metis option.inject)
    with b table [of a] c show False by (simp add: ip_of_def)
  qed
  with cleanup_stale_ok [OF ok, of E now] assms(2) show "map_of (ip_to_addr t) ip = None"
    unfolding server_ok_def by (metis not_Some_eq)
qed

section \<open>Packets from the TUN device\<close>

lemma encrypt_spends:
  assumes "encrypt P rnd pt ch = (Inr ws, ch')"
  shows "ws \<noteq> [] \<and> packet_counter ch < packet_counter ch'"
proof (cases "length pt \<le> MAX_PAYLOAD")
  case True
  with assms show ?thesis by (auto simp: encrypt_small res_bind_Inr_iff)
next
  case False
  then have n: "0 < num_frags (length pt)" by (auto simp: num_frags_def MAX_PAYLOAD_def)
  from False assms have "length ws = num_frags (length pt)"
    "ch' = ch\<lparr>packet_counter := packet_counter ch + num_frags (length pt)\<rparr>"
    using encrypt_frags_Inr [THEN list_all2_lengthD] by (fastforce simp: encrypt_large)+
  with n show ?thesis by auto
qed

lemma await_sends_udp:
  assumes "\<not> is_tcp (sv_config t)" and "sv_transport t"
  shows "m_for (\<lambda>w. await (send_to E cs w)) ws t =
    (Inr (), t\<lparr>outbox := outbox t @ map (Udp (cs_addr cs)) ws\<rparr>)"
  using assms
  by (induction ws arbitrary: t) (simp_all add: sync_send_to_def)

lemma on_tun_readable_outbox: "outbox (snd (on_tun_readable E rnd queued sv)) = outbox sv"
  by (auto simp: on_tun_readable_def upd_client_def split: sum.split exn.split option.split prod.split)

lemma on_tun_readable_ready:
  assumes "tun_read queued 65536 (sv_tun sv) = Inr packet" and "20 \<le> length packet"
    and "ipv4_dest packet = Some dest" and "map_of (ip_to_addr sv) dest = Some a"
    and "map_of (sv_clients sv) a = Some cs" and "is_ready cs"
    and "encrypt (e_prims E) rnd packet (the (cs_data cs)) = (Inr ws, ch)"
  shows "on_tun_readable E rnd queued sv = (Inr (), upd_client a (\<lambda>c. c\<lparr>cs_data := Some ch\<rparr>) sv)"
  using assms by (simp add: on_tun_readable_def)

text \<open>
  Claim C29. Packets from the TUN device are never sent: whatever the device delivers,
  \<^verbatim>\<open>_on_tun_readable\<close> writes nothing to any socket. Where the packet is for a ready client it
  encrypts it to at least one datagram, spends the packet ids, returns normally and drops the
  datagrams: they are exactly what awaiting the coroutines of \<^verbatim>\<open>_send_to\<close> would have written.
\<close>

theorem tun_packets_never_sent:
  assumes "on_tun_readable E rnd queued sv = (r, t)"
  shows "outbox t = outbox sv \<and>
    (\<forall>packet dest a cs ws ch.
       tun_read queued 65536 (sv_tun sv) = Inr packet \<and> 20 \<le> length packet \<and>
       ipv4_dest packet = Some dest \<and> map_of (ip_to_addr sv) dest = Some a \<and>
       map_of (sv_clients sv) a = Some cs \<and> is_ready cs \<and>
       encrypt (e_prims E) rnd packet (the (cs_data cs)) = (Inr ws, ch) \<longrightarrow>
       r = Inr () \<and> ws \<noteq> [] \<and> packet_counter (the (cs_data cs)) < packet_counter ch \<and>
       map_of (sv_clients t) a = Some (cs\<lparr>cs_data := Some ch\<rparr>) \<and>
       (\<not> is_tcp (sv_config sv) \<and> sv_transport sv \<longrightarrow>
          m_for (\<lambda>w. await (send_to E cs w)) ws t =
            (Inr (), t\<lparr>outbox := outbox sv @ map (Udp (cs_addr cs)) ws\<rparr>)))"
proof (intro conjI allI impI)
  show o: "outbox t = outbox sv" using on_tun_readable_outbox [of E rnd queued sv] assms by simp
  fix packet dest a cs ws ch
  assume h: "tun_read queued 65536 (sv_tun sv) = Inr packet \<and> 20 \<le> length packet \<and>
       ipv4_dest packet = Some dest \<and> map_of (ip_to_addr sv) dest = Some a \<and>
       map_of (sv_clients sv) a = Some cs \<and> is_ready cs \<and>
       encrypt (e_prims E) rnd packet (the (cs_data cs)) = (Inr ws, ch)"
  then have t: "r = Inr ()" "t = upd_client a (\<lambda>c. c\<lparr>cs_data := Some ch\<rparr>) sv"
    using on_tun_readable_ready [of queued sv packet dest a cs E rnd ws ch] assms by simp_all
  show "r = Inr ()" by (rule t(1))
  show "ws \<noteq> []" "packet_counter (the (cs_data cs)) < packet_counter ch"
    using encrypt_spends h by blast+
  show "map_of (sv_clients t) a = Some (cs\<lparr>cs_data := Some ch\<rparr>)"
    using h by (simp add: t(2) upd_client_clients)
  assume "\<not> is_tcp (sv_config sv) \<and> sv_transport sv"
  then show "m_for (\<lambda>w. await (send_to E cs w)) ws t =
      (Inr (), t\<lparr>outbox := outbox sv @ map (Udp (cs_addr cs)) ws\<rparr>)"
    using await_sends_udp [of t E cs ws] o by (simp add: t(2) upd_client_def)
qed

text \<open>
  The destination is read from the wrong place: for an IPv4 packet with a 20-byte
  header, \<^verbatim>\<open>_ipv4_dest\<close> prints bytes 4 to 7 of the payload (and finds nothing if the payload
  is shorter than 8 bytes), and never looks at the destination field of the header.
\<close>

theorem ipv4_dest_reads_payload:
  assumes "length hdr = 20" and "hdr ! 0 = 0x45"
  shows "ipv4_dest (hdr @ payload) =
    (if 8 \<le> length payload
     then Some (join ''.'' (map (\<lambda>b. str_nat (unat b)) (slice payload 4 8)))
     else None)"
proof -
  have "(hdr @ payload) ! 0 AND 0x0f = 5" using assms by (simp add: nth_append)
  moreover have "slice (hdr @ payload) 24 28 = slice payload 4 8"
    using assms(1) by (simp add: slice_def)
  ultimately show ?thesis
    using assms(1) by (auto simp: ipv4_dest_def Let_def length_slice)
qed

theorem ipv4_dest_reads_payload_witness:
  "ipv4_dest ((0x45 # replicate 15 0 @ [10, 8, 0, 2]) @ [0, 0, 0, 0, 9, 9, 9, 9]) = Some ''9.9.9.9''"
proof -
  have "str_nat 9 = ''9''" by code_simp
  with ipv4_dest_reads_payload [of "0x45 # replicate 15 0 @ [10, 8, 0, 2]" "[0, 0, 0, 0, 9, 9, 9, 9]"]
  show ?thesis by (simp add: slice_def)
qed

section \<open>Who can change the server\<close>

text \<open>
  Strangers have one door: a datagram from an address without a session that does
  not start with \<^verbatim>\<open>HARD_RESET_CLIENT\<close> changes nothing and raises nothing.
\<close>

theorem stranger_ignored:
  assumes "map_of (sv_clients sv) a = None"
    and "data = [] \<or> unat (hd data) \<noteq> opcode_val HARD_RESET_CLIENT"
  shows "handle_udp_data E now sid sk data a sv = (Inr (), sv)"
  using assms by (cases data) (auto simp: handle_udp_data_def Let_def)

section \<open>Joining without credentials\<close>

lemma keeps_clients_send [keeps_intro]: "keeps (\<lambda>s. sv_clients s = C) (sync_send_to cs d)"
  by (rule keepsI) simp

lemma keeps_clients_os [keeps_intro]: "keeps (\<lambda>s. sv_clients s = C) (on_os m)"
  by (rule keepsI) simp

text \<open>What only \<^verbatim>\<open>run\<close> and \<^verbatim>\<open>stop\<close> change.\<close>

definition fixed_view :: "('c, 's, 'p) vpn_server \<Rightarrow> settings \<times> bool" where
  "fixed_view sv = (sv_config sv, sv_running sv)"

lemma fixed_view_sends [simp]:
  "fixed_view (snd (sync_send_to cs d s)) = fixed_view s" "fixed_view (snd (on_os m s)) = fixed_view s"
  "fixed_view (snd (on_tun m2 s)) = fixed_view s" "fixed_view (upd_client a f s) = fixed_view s"
  by (auto simp: fixed_view_def sync_send_to_def on_os_def on_tun_def upd_client_def split: sum.split prod.split)

lemma fixed_view_updates [simp]:
  "fixed_view (s\<lparr>sv_clients := x1\<rparr>) = fixed_view s" "fixed_view (s\<lparr>ip_to_addr := x2\<rparr>) = fixed_view s"
  "fixed_view (s\<lparr>sv_pool := x3\<rparr>) = fixed_view s" "fixed_view (s\<lparr>closing := x4\<rparr>) = fixed_view s"
  by (simp_all add: fixed_view_def)

lemma keeps_fixed_os [keeps_intro]: "keeps (\<lambda>s. fixed_view s = c) (on_os m)"
  by (rule keepsI) simp

lemma keeps_fixed_tun [keeps_intro]: "keeps (\<lambda>s. fixed_view s = c) (on_tun m)"
  by (rule keepsI) simp

lemma keeps_fixed_send [keeps_intro]: "keeps (\<lambda>s. fixed_view s = c) (sync_send_to cs d)"
  by (rule keepsI) simp

lemma keeps_fixed_upd [keeps_intro]: "keeps (\<lambda>s. fixed_view s = c) (m_upd (upd_client a f))"
  by (rule keepsI) (simp add: m_upd_def)

lemma keeps_fixed_assign [keeps_intro]: "keeps (\<lambda>s. fixed_view s = c) (assign_ip_to_client E cs)"
proof (rule keepsI)
  fix s :: "('a, 'b, 'c) vpn_server" assume "fixed_view s = c"
  moreover have k: "keeps (\<lambda>s. fixed_view s = d) (m_bind (m_lift r) (\<lambda>packet. m_seq (sync_send_to cs packet)
      (m_seq (on_os m) (m_return v))))" for d r v and m :: "(os, unit) meth"
    by (intro keeps_intro)
  ultimately show "fixed_view (snd (assign_ip_to_client E cs s)) = c"
    by (auto simp: assign_ip_to_client_def Let_def split: option.split sum.split prod.split
        intro!: keepsD [OF k])
qed

lemma keeps_fixed_open [keeps_intro]: "keeps (\<lambda>s. fixed_view s = c) (open_channel E a)"
  by (rule keepsI)
    (auto simp: open_channel_def Let_def split: option.split sum.split intro!: keepsD [OF keeps_fixed_assign])

lemma keeps_fixed_get: "keeps (\<lambda>s. fixed_view s = c) (get_or_create_session E now sid sk a w)"
  by (rule keepsI)
    (auto simp: get_or_create_session_def Let_def split: option.split sum.split prod.split)

lemma keeps_fixed_reset: "keeps (\<lambda>s. fixed_view s = c) (handle_reset E now sid sk d a)"
proof -
  have k: "keeps (\<lambda>s. fixed_view s = e) (m_bind (m_lift r) (m_for (sync_send_to cs)))" for e r cs
    by (intro keeps_intro)
  show ?thesis unfolding handle_reset_def
    by (rule keeps_bind [OF keeps_fixed_get], rule keepsI)
      (auto split: prod.split intro!: keepsD [OF k])
qed

lemma keeps_fixed_data: "keeps (\<lambda>s. fixed_view s = c) (handle_data E now d a cs)"
proof (rule keepsI)
  fix s :: "('a, 'b, 'c) vpn_server" assume "fixed_view s = c"
  moreover have k: "keeps (\<lambda>s. fixed_view s = e) (m_bind (m_lift r) (\<lambda>plain. if truthy plain
      then m_seq (on_tun (m plain)) (m_return ()) else m_return ()))" for e r and m :: "_ \<Rightarrow> (tun, nat) meth"
    by (intro keeps_intro)
  ultimately show "fixed_view (snd (handle_data E now d a cs s)) = c"
    by (auto simp: handle_data_def split: prod.split intro!: keepsD [OF k])
qed

lemma keeps_fixed_control: "keeps (\<lambda>s. fixed_view s = c) (handle_control E d a cs)"
  unfolding handle_control_def Let_def
  by (auto split: sum.split prod.split option.split intro!: keeps_intro)

lemma keeps_fixed_datagram: "keeps (\<lambda>s. fixed_view s = c) (handle_udp_data E now sid sk d a)"
  by (rule keepsI)
    (auto simp: handle_udp_data_def Let_def split: option.split
      intro!: keepsD [OF keeps_fixed_reset] keepsD [OF keeps_fixed_control] keepsD [OF keeps_fixed_data])

lemma datagram_fixed:
  assumes "handle_udp_data E now sid sk d a sv = (r, t)"
  shows "sv_config t = sv_config sv" "sv_running t = sv_running sv"
  using keeps_step [OF keeps_fixed_datagram refl assms] by (simp_all add: fixed_view_def)

lemma tcp_frame_running:
  assumes "sv_running sv" and "handle_udp_data E now sid sk d a sv = (Inr x, t)"
  shows "tcp_frame E now sid sk (Some d) a sv = (Inr (), t)"
  using assms datagram_fixed(2) [OF assms(2)] by (simp add: tcp_frame_def tcp_next_def)

lemma new_data_channel_64:
  "\<exists>ch. new_data_channel P x y c lzo 64 = Inr ch \<and> dc_cipher ch = c"
  by (simp add: new_data_channel_def new_window_def MAX_WINDOW_def)

lemma assign_gives_ip:
  fixes sv :: "('c, 's, 'p) vpn_server"
  assumes "sv_pool sv = Some p" and "pool_ok p" and "available p \<noteq> {}"
    and "map_of (sv_clients sv) a = Some c" and "cs_addr cs = a"
  shows "\<exists>ip. map_of (sv_clients (snd (assign_ip_to_client E cs sv))) a =
    Some (c\<lparr>virtual_ip := Some ip, cs_session := (cs_session c)\<lparr>assigned_ip := Some ip\<rparr>\<rparr>)"
proof -
  from allocate_cases [OF assms(2), of "addr_str a"] assms(3) obtain ip q
    where al: "allocate (addr_str a) p = (Inr (Some ip), q)" by cases auto
  define f where "f = (\<lambda>c :: ('c, 's, 'p) client_session.
    c\<lparr>virtual_ip := Some ip, cs_session := (cs_session c)\<lparr>assigned_ip := Some ip\<rparr>\<rparr>)"
  define t where "t = upd_client a f
    (sv\<lparr>sv_pool := Some q, ip_to_addr := AList.update ip a (ip_to_addr sv)\<rparr>)"
  have k: "keeps (\<lambda>s. sv_clients s = C) (m_bind (m_lift r) (\<lambda>packet. m_seq (sync_send_to cs packet)
      (m_seq (on_os m) (m_return v))))" for C r v and m :: "(os, unit) meth"
    by (intro keeps_intro)
  have "sv_clients (snd (assign_ip_to_client E cs sv)) = sv_clients t"
    using assms(1,5) al
    by (simp add: assign_ip_to_client_def client_id_def Let_def keepsD [OF k] flip: f_def t_def)
  moreover have "map_of (sv_clients t) a = Some (f c)"
    using assms(4) by (simp add: t_def upd_client_clients)
  ultimately show ?thesis unfolding f_def by auto
qed

lemma open_channel_joins:
  assumes ok: "server_ok sv" and c: "map_of (sv_clients sv) a = Some cs"
    and est: "is_established (cs_session cs)" "cs_data cs = None"
    and p: "sv_pool sv = Some p" "available p \<noteq> {}"
  shows "\<exists>c' ip. map_of (sv_clients (snd (open_channel E a sv))) a = Some c' \<and> is_ready c' \<and>
    virtual_ip c' = Some ip \<and> cipher (cs_session c') = cipher (cs_session cs) \<and>
    (\<exists>ch. cs_data c' = Some ch \<and> dc_cipher ch = cipher (cs_session cs))"
proof -
  obtain ch where ch: "new_data_channel (e_prims E) (session_id (cs_session cs))
      (or_empty (peer_session_id (cs_session cs))) (cipher (cs_session cs))
      (s_comp_lzo (sv_config sv)) 64 = Inr ch" "dc_cipher ch = cipher (cs_session cs)"
    using new_data_channel_64 by blast
  from ok p have pk: "pool_ok p" by (simp add: server_ok_def pool_matches_def)
  let ?u = "upd_client a (\<lambda>c. c\<lparr>cs_data := Some ch\<rparr>) sv"
  from ok c have addr: "cs_addr (cs\<lparr>cs_data := Some ch\<rparr>) = a" by (simp add: server_ok_def clients_ok_def)
  from assign_gives_ip [of ?u p a "cs\<lparr>cs_data := Some ch\<rparr>" "cs\<lparr>cs_data := Some ch\<rparr>" E] p pk c addr
  obtain ip where "map_of (sv_clients (snd (assign_ip_to_client E (cs\<lparr>cs_data := Some ch\<rparr>) ?u))) a =
    Some (cs\<lparr>cs_data := Some ch, virtual_ip := Some ip,
      cs_session := (cs_session cs)\<lparr>assigned_ip := Some ip\<rparr>\<rparr>)"
    by (auto simp: upd_client_clients)
  with c est ch show ?thesis
    by (simp add: open_channel_def Let_def is_ready_def is_established_def)
qed

definition empty_finished :: "nat \<Rightarrow> bytes" where
  "empty_finished sid = 3 # be_bytes 8 sid @ [3, 0, 0]"

lemma decode_empty_finished:
  "sid < 256 ^ 8 \<Longrightarrow> decode_packet (empty_finished sid) = Inr (CONTROL, sid, [3, 0, 0])"
  by (simp add: empty_finished_def decode_packet_Cons opcode_of_def)

lemma empty_finished_joins:
  assumes ok: "server_ok sv" and c: "map_of (sv_clients sv) a = Some cs"
    and un: "peer_cert (cs_session cs) = None" "cs_data cs = None"
    and p: "sv_pool sv = Some p" "available p \<noteq> {}" and sid: "sid < 256 ^ 8"
  shows "\<exists>c' ip. map_of (sv_clients (snd (handle_udp_data E now rid rk (empty_finished sid) a sv))) a =
      Some c' \<and> is_ready c' \<and> virtual_ip c' = Some ip \<and>
      cipher (cs_session c') = cipher (cs_session cs) \<and>
      (\<exists>ch. cs_data c' = Some ch \<and> dc_cipher ch = cipher (cs_session cs))"
proof -
  let ?s = "(cs_session cs)\<lparr>state := ESTABLISHED\<rparr>"
  let ?v = "upd_client a (\<lambda>c. c\<lparr>cs_session := ?s\<rparr>) (upd_client a (\<lambda>c. c\<lparr>last_seen := now\<rparr>) sv)"
  have fin: "server_handle_client_finished (e_pki E) [0, 0] (cs_session cs) = ([], ?s)"
    by (rule certless_finished [OF un(1)]) simp
  have h: "handle_udp_data E now rid rk (empty_finished sid) a sv = open_channel E a ?v"
    using c decode_empty_finished [OF sid] fin
    by (simp add: handle_udp_data_def empty_finished_def handle_control_def msg_of_def
        control_handler_def meth_defs Let_def)
  have "server_ok (upd_client a (\<lambda>c. c\<lparr>last_seen := now\<rparr>) sv)" using ok by (rule upd_client_ok) simp
  then have "server_ok ?v" by (rule upd_client_ok) simp
  from open_channel_joins [OF this, of a "cs\<lparr>last_seen := now, cs_session := ?s\<rparr>" p E] c un p
  show ?thesis unfolding h by (simp add: upd_client_clients is_established_def)
qed

lemma server_reset_frame:
  assumes "server_handle_reset now data s = (r, t)"
  shows "peer_cert t = peer_cert s \<and> cipher t = cipher s"
  using assms
  by (auto simp: server_handle_reset_def meth_defs split: sum.splits prod.splits if_splits)

lemma keeps_sends_table: "keeps (\<lambda>s. sv_clients s = C \<and> sv_pool s = D) (m_for (sync_send_to cs) ds)"
  by (intro keeps_for keepsI) simp

definition reset_datagram :: "nat \<Rightarrow> bytes" where
  "reset_datagram sid = 1 # be_bytes 8 sid"

lemma get_or_create_new:
  assumes "map_of (sv_clients sv) a = None"
    and "authenticated_mode (sv_config sv) \<longrightarrow>
      file_bytes (e_pki E) (or_empty (s_cert (sv_config sv))) \<noteq> None"
  shows "\<exists>cs. get_or_create_session E now rid rk a w sv =
      (Inr cs, sv\<lparr>sv_clients := AList.update a cs (sv_clients sv)\<rparr>) \<and>
    peer_cert (cs_session cs) = None \<and> cipher (cs_session cs) = None \<and> cs_data cs = None \<and>
    session_id (cs_session cs) = rid"
  using assms
  by (auto simp: get_or_create_session_def Let_def new_client_session_def configure_def
      new_session_def generate_ephemeral_keypair_def read_file_def split: prod.splits)

lemma reset_creates_client:
  assumes new: "map_of (sv_clients sv) a = None"
    and files: "authenticated_mode (sv_config sv) \<longrightarrow>
      file_bytes (e_pki E) (or_empty (s_cert (sv_config sv))) \<noteq> None"
    and d: "handle_udp_data E now rid rk (reset_datagram sid) a sv = (r, t)"
  shows "\<exists>cs. map_of (sv_clients t) a = Some cs \<and> peer_cert (cs_session cs) = None \<and>
    cipher (cs_session cs) = None \<and> cs_data cs = None \<and> sv_pool t = sv_pool sv"
proof -
  from get_or_create_new [OF new files] obtain cs where
    g: "get_or_create_session E now rid rk a None sv =
      (Inr cs, sv\<lparr>sv_clients := AList.update a cs (sv_clients sv)\<rparr>)" (is "_ = (_, ?u)")
    and cs: "peer_cert (cs_session cs) = None" "cipher (cs_session cs) = None" "cs_data cs = None"
    by blast
  obtain q s where q: "server_handle_reset now (reset_datagram sid) (cs_session cs) = (q, s)" by fastforce
  let ?v = "upd_client a (\<lambda>c. c\<lparr>cs_session := s\<rparr>) ?u"
  have e: "m_bind (m_lift q) (m_for (sync_send_to cs)) ?v = (r, t)"
    unfolding d [symmetric] using g q
    by (simp add: handle_udp_data_def reset_datagram_def handle_reset_def m_bind_def
        [of "get_or_create_session E now rid rk a None"])
  have k: "keeps (\<lambda>x. sv_clients x = sv_clients ?v \<and> sv_pool x = sv_pool ?v)
      (m_bind (m_lift q) (m_for (sync_send_to cs)))"
    by (intro keeps_bind keeps_m keeps_sends_table)
  have "sv_clients t = sv_clients ?v \<and> sv_pool t = sv_pool ?v"
    by (rule keeps_step [OF k _ e]) simp
  moreover have "map_of (sv_clients ?v) a = Some (cs\<lparr>cs_session := s\<rparr>)"
    by (simp add: upd_client_clients map_of_update)
  ultimately show ?thesis using cs server_reset_frame [OF q] by auto
qed

text \<open>
  Claim C25. Joining without credentials: whether or not the server has a CA, a certificate and
  a key configured, a stranger who sends a reset and then an empty CLIENT_FINISHED, and no
  hello at all, becomes a ready client with a virtual address taken from the pool, if the pool
  has room. Its session has no cipher and no certificate, so it cannot exchange data, but it
  holds the address for as long as it keeps sending. A configured CA matters only in that the
  server must be able to read its own certificate.
\<close>

theorem unauthenticated_join:
  assumes "server_reach E sv"
    and "authenticated_mode (sv_config sv) \<longrightarrow>
      file_bytes (e_pki E) (or_empty (s_cert (sv_config sv))) \<noteq> None"
    and "map_of (sv_clients sv) a = None"
    and "sv_pool sv = Some p" and "available p \<noteq> {}" and "sid < 256 ^ 8"
    and "handle_udp_data E now1 rid1 rk1 (reset_datagram sid) a sv = (r1, sv1)"
    and "handle_udp_data E now2 rid2 rk2 (empty_finished sid) a sv1 = (r2, sv2)"
  shows "\<exists>cs ip. map_of (sv_clients sv2) a = Some cs \<and> is_ready cs \<and> virtual_ip cs = Some ip \<and>
    cipher (cs_session cs) = None"
proof -
  from reset_creates_client [OF assms(3,2,7)] obtain cs where
      cs: "map_of (sv_clients sv1) a = Some cs" "peer_cert (cs_session cs) = None"
        "cipher (cs_session cs) = None" "cs_data cs = None" and pool: "sv_pool sv1 = sv_pool sv"
    by blast
  have ok: "server_ok sv1" using server_reach_ok sr_datagram [OF assms(1,7)] by blast
  from empty_finished_joins [OF ok cs(1,2,4) _ assms(5,6), of E now2 rid2 rk2] pool assms(4,8) cs(3)
  show ?thesis by auto
qed

section \<open>A concrete server\<close>

definition toy_settings :: settings where
  "toy_settings =
     \<lparr>s_dev = ''tun'', s_proto = ''udp'', s_port = 1194, s_remote = None, s_ifconfig = None,
      s_server = Some ''10.8.0.0/29'', s_pool = None, s_ca = Some ''ca.crt'',
      s_cert = Some ''server.crt'', s_key = Some ''server.key'', s_comp_lzo = False,
      s_interval = 10, s_timeout = 120, s_redirect = False, s_status = None, s_user = None\<rparr>"

definition toy_env :: "(bytes, bytes, 256 word, 256 word) env" where
  "toy_env =
     \<lparr>e_pki = toy_pki, e_prims = toy_prims, e_world = quiet_world,
      e_kernel = \<lparr>has_fcntl = True, path_exists = (\<lambda>_. True), os_open = (\<lambda>_. Inr 3),
        ioctl_tunsetiff = (\<lambda>_ _. Inr ()), os_write = (\<lambda>_ p. Inr (length p))\<rparr>,
      e_accounts = toy_accounts, e_drain = (\<lambda>_ _. Inr ())\<rparr>"

definition toy_vpn :: "(bytes, 256 word, 256 word) vpn_server" where
  "toy_vpn =
     \<lparr>sv_config = toy_settings, sv_tun = new_tun ''tun'' empty_os, sv_transport = False,
      sv_clients = [], ip_to_addr = [], sv_running = False, nat_interface = None,
      sv_pool = Some toy_pool, sv_ident = toy_root, outbox = [], closing = []\<rparr>"

lemma new_toy_pool': "new_pool ''10.8.0.0/29'' (Some []) = Inr toy_pool"
  using new_toy_pool by (simp add: new_pool_def pool_bounds_def)

lemma toy_reach: "server_reach toy_env toy_vpn"
  by (rule sr_new [of toy_settings empty_os toy_root])
    (simp add: new_server_def toy_settings_def new_toy_pool' toy_vpn_def)

lemma toy_auth: "authenticated_mode (sv_config toy_vpn)"
  "file_bytes (e_pki toy_env) (or_empty (s_cert (sv_config toy_vpn))) \<noteq> None"
  by (simp_all add: authenticated_mode_def toy_vpn_def toy_settings_def toy_env_def toy_pki_def
      toy_files_def)

lemma toy_pool_free: "sv_pool toy_vpn = Some toy_pool" "available toy_pool \<noteq> {}"
  "map_of (sv_clients toy_vpn) a = None"
  by (simp_all add: toy_vpn_def toy_pool_def)

text \<open>The same server without a CA.\<close>

definition toy_open :: "(bytes, 256 word, 256 word) vpn_server" where
  "toy_open = toy_vpn\<lparr>sv_config := toy_settings\<lparr>s_ca := None\<rparr>\<rparr>"

lemma toy_open_reach: "server_reach toy_env toy_open"
  by (rule sr_new [of "toy_settings\<lparr>s_ca := None\<rparr>" empty_os toy_root])
    (simp add: new_server_def toy_settings_def new_toy_pool' toy_vpn_def toy_open_def)

lemma toy_open_mode: "\<not> authenticated_mode (sv_config toy_open)"
  by (simp add: authenticated_mode_def toy_open_def toy_settings_def)

theorem unauthenticated_join_witness:
  "authenticated_mode (sv_config toy_vpn) \<and>
   (\<exists>r1 sv1 r2 sv2 cs ip.
     handle_udp_data toy_env 0 (replicate 8 1) 5 (reset_datagram 7) (''192.0.2.9'', 4000) toy_vpn = (r1, sv1) \<and>
     handle_udp_data toy_env 1 (replicate 8 1) 5 (empty_finished 7) (''192.0.2.9'', 4000) sv1 = (r2, sv2) \<and>
     map_of (sv_clients sv2) (''192.0.2.9'', 4000) = Some cs \<and> is_ready cs \<and> virtual_ip cs = Some ip) \<and>
   \<not> authenticated_mode (sv_config toy_open) \<and>
   (\<exists>r1 sv1 r2 sv2 cs ip.
     handle_udp_data toy_env 0 (replicate 8 1) 5 (reset_datagram 7) (''192.0.2.9'', 4000) toy_open = (r1, sv1) \<and>
     handle_udp_data toy_env 1 (replicate 8 1) 5 (empty_finished 7) (''192.0.2.9'', 4000) sv1 = (r2, sv2) \<and>
     map_of (sv_clients sv2) (''192.0.2.9'', 4000) = Some cs \<and> is_ready cs \<and> virtual_ip cs = Some ip)"
proof -
  have joins: "\<exists>r1 sv1 r2 sv2 cs ip.
     handle_udp_data toy_env 0 (replicate 8 1) 5 (reset_datagram 7) (''192.0.2.9'', 4000) sv = (r1, sv1) \<and>
     handle_udp_data toy_env 1 (replicate 8 1) 5 (empty_finished 7) (''192.0.2.9'', 4000) sv1 = (r2, sv2) \<and>
     map_of (sv_clients sv2) (''192.0.2.9'', 4000) = Some cs \<and> is_ready cs \<and> virtual_ip cs = Some ip"
    if sv: "sv = toy_vpn \<or> sv = toy_open" for sv
  proof -
    obtain r1 sv1 where 1: "handle_udp_data toy_env 0 (replicate 8 1) 5 (reset_datagram 7)
        (''192.0.2.9'', 4000) sv = (r1, sv1)" by fastforce
    obtain r2 sv2 where 2: "handle_udp_data toy_env 1 (replicate 8 1) 5 (empty_finished 7)
        (''192.0.2.9'', 4000) sv1 = (r2, sv2)" by fastforce
    have "server_reach toy_env sv" using sv toy_reach toy_open_reach by blast
    moreover have "authenticated_mode (sv_config sv) \<longrightarrow>
        file_bytes (e_pki toy_env) (or_empty (s_cert (sv_config sv))) \<noteq> None"
      using sv toy_auth(2) toy_open_mode by blast
    moreover have "map_of (sv_clients sv) (''192.0.2.9'', 4000) = None" "sv_pool sv = Some toy_pool"
      using sv toy_pool_free by (auto simp: toy_open_def)
    ultimately show ?thesis
      using unauthenticated_join [OF _ _ _ _ toy_pool_free(2) _ 1 2] 1 2 by auto
  qed
  show ?thesis using joins [of toy_vpn] joins [of toy_open] toy_auth(1) toy_open_mode by blast
qed

text \<open>A client in step with the server, and a packet whose bytes 24 to 27 name its address.\<close>

definition toy_member :: "(bytes, 256 word, 256 word) client_session" where
  "toy_member = (new_client_session 0 (''192.0.2.9'', 4000) (new_session toy_pki True (replicate 8 1) 5 0))
     \<lparr>cs_session := (new_session toy_pki True (replicate 8 1) 5 0)\<lparr>state := ESTABLISHED\<rparr>,
      cs_data := Some toy_channel\<rparr>"

definition toy_up :: "(bytes, 256 word, 256 word) vpn_server" where
  "toy_up = toy_vpn\<lparr>sv_tun := (new_tun ''tun'' empty_os)\<lparr>tun_fd := Some 3\<rparr>, sv_transport := True,
     sv_clients := [((''192.0.2.9'', 4000), toy_member)],
     ip_to_addr := [(''10.8.0.2'', (''192.0.2.9'', 4000))]\<rparr>"

theorem tun_packets_never_sent_witness:
  "let packet = 0x45 # replicate 23 0 @ [10, 8, 0, 2];
       (r, t) = on_tun_readable toy_env toy_nonce (Inr packet) toy_up in
   outbox t = [] \<and>
   (\<exists>w ch. r = Inr () \<and> 0 < packet_counter ch \<and>
      map_of (sv_clients t) (''192.0.2.9'', 4000) = Some (toy_member\<lparr>cs_data := Some ch\<rparr>) \<and>
      outbox (snd (await (send_to toy_env toy_member w) t)) = [Udp (''192.0.2.9'', 4000) w])"
proof -
  let ?p = "0x45 # replicate 23 0 @ [10, 8, 0, 2] :: bytes"
  obtain r t where rt: "on_tun_readable toy_env toy_nonce (Inr ?p) toy_up = (r, t)" by fastforce
  have "str_nat 10 = ''10''" "str_nat 8 = ''8''" "str_nat 0 = ''0''" "str_nat 2 = ''2''" by code_simp+
  moreover have "drop 24 ?p = [10, 8, 0, 2]" by simp
  ultimately have d: "ipv4_dest ?p = Some ''10.8.0.2''"
    by (simp add: ipv4_dest_def slice_def)
  have "is_ok (fst (encrypt toy_prims toy_nonce ?p toy_channel))"
    by (subst encrypt_ok_cipher [of _ "Cipher toy_key"]) (simp_all add: toy_channel_def num_frags_def MAX_PAYLOAD_def)
  then obtain w ch where e: "encrypt toy_prims toy_nonce ?p toy_channel = (Inr [w], ch)"
    by (auto simp: is_ok_iff encrypt_small MAX_PAYLOAD_def res_bind_Inr_iff)
  have r: "is_ready toy_member" "cs_data toy_member = Some toy_channel" "cs_addr toy_member = (''192.0.2.9'', 4000)"
    by (simp_all add: is_ready_def is_established_def toy_member_def new_client_session_def)
  have s: "tun_read (Inr ?p) 65536 (sv_tun toy_up) = Inr ?p" "sv_transport toy_up" "\<not> is_tcp (sv_config toy_up)"
    "map_of (ip_to_addr toy_up) ''10.8.0.2'' = Some (''192.0.2.9'', 4000)" "outbox toy_up = []"
    "map_of (sv_clients toy_up) (''192.0.2.9'', 4000) = Some toy_member" "e_prims toy_env = toy_prims"
    by (simp_all add: toy_up_def toy_vpn_def toy_settings_def is_tcp_def tun_read_def tun_fileno_def toy_env_def)
  from tun_packets_never_sent [OF rt] d e r s have
    "outbox t = [] \<and> r = Inr () \<and> packet_counter toy_channel < packet_counter ch \<and>
     map_of (sv_clients t) (''192.0.2.9'', 4000) = Some (toy_member\<lparr>cs_data := Some ch\<rparr>) \<and>
     m_for (\<lambda>w. await (send_to toy_env toy_member w)) [w] t =
       (Inr (), t\<lparr>outbox := [Udp (''192.0.2.9'', 4000) w]\<rparr>)"
    by simp
  then show ?thesis by (auto simp: rt Let_def split: prod.splits sum.splits intro!: exI [of _ w] exI [of _ ch])
qed

lemma toy_joined:
  "\<exists>sv cs ip. server_reach toy_env sv \<and> sv_config sv = toy_settings \<and>
     map_of (sv_clients sv) (''192.0.2.9'', 4000) = Some cs \<and>
     virtual_ip cs = Some ip \<and> is_ready cs"
proof -
  obtain r1 sv1 where 1: "handle_udp_data toy_env 0 (replicate 8 1) 5 (reset_datagram 7)
      (''192.0.2.9'', 4000) toy_vpn = (r1, sv1)" by fastforce
  obtain r2 sv2 where 2: "handle_udp_data toy_env 1 (replicate 8 1) 5 (empty_finished 7)
      (''192.0.2.9'', 4000) sv1 = (r2, sv2)" by fastforce
  from reset_creates_client [OF toy_pool_free(3) _ 1] toy_auth(2) obtain cs where
      cs: "map_of (sv_clients sv1) (''192.0.2.9'', 4000) = Some cs" "peer_cert (cs_session cs) = None"
        "cs_data cs = None" and pool: "sv_pool sv1 = Some toy_pool"
    by (auto simp: toy_pool_free)
  note reach = sr_datagram [OF sr_datagram [OF toy_reach 1] 2]
  from empty_finished_joins [OF server_reach_ok [OF sr_datagram [OF toy_reach 1]] cs pool
      toy_pool_free(2), of 7 toy_env 1 "replicate 8 1" 5] 2
  obtain c' ip where "map_of (sv_clients sv2) (''192.0.2.9'', 4000) = Some c'" "is_ready c'"
    "virtual_ip c' = Some ip" by auto
  moreover have "sv_config sv2 = toy_settings"
    using datagram_fixed(1) [OF 1] datagram_fixed(1) [OF 2]
    by (simp add: toy_vpn_def)
  ultimately show ?thesis using reach by blast
qed

theorem virtual_ips_exclusive_witness:
  "\<exists>sv cs ip p. server_reach toy_env sv \<and> map_of (sv_clients sv) (''192.0.2.9'', 4000) = Some cs \<and>
     virtual_ip cs = Some ip \<and> sv_pool sv = Some p \<and> get_client_ip (client_id cs) p = Some ip"
proof -
  from toy_joined obtain sv cs ip where s: "server_reach toy_env sv"
    "map_of (sv_clients sv) (''192.0.2.9'', 4000) = Some cs" "virtual_ip cs = Some ip" by blast
  from virtual_ips_exclusive [OF s s(2,3)] s show ?thesis by blast
qed

theorem cleanup_stale_exact_witness:
  "\<exists>sv cs. server_reach toy_env sv \<and> map_of (sv_clients sv) (''192.0.2.9'', 4000) = Some cs \<and>
     map_of (sv_clients (cleanup_stale toy_env (last_seen cs + 121) sv)) (''192.0.2.9'', 4000) = None"
proof -
  from toy_joined obtain sv cs ip where s: "server_reach toy_env sv" "sv_config sv = toy_settings"
    "map_of (sv_clients sv) (''192.0.2.9'', 4000) = Some cs" "virtual_ip cs = Some ip" "is_ready cs"
    by blast
  then have "is_stale (last_seen cs + 121) (sv_config sv) cs"
    by (simp add: is_stale_def is_ready_def toy_settings_def)
  with cleanup_stale_exact [OF s(1) refl, of "last_seen cs + 121"] s show ?thesis by force
qed

theorem stranger_ignored_witness:
  "handle_udp_data toy_env 0 [] 5 [5, 1, 2] (''198.51.100.1'', 9) toy_vpn = (Inr (), toy_vpn)"
  by (rule stranger_ignored) (simp_all add: toy_pool_free)

section \<open>Established clients\<close>

text \<open>
  Claim C27. A spoofed reset ends a session: a single unauthenticated reset datagram that
  carries the address of an established client takes its session out of \<open>ESTABLISHED\<close>, and
  when the session is older than 30 seconds the next cleanup removes the client.
\<close>

theorem spoofed_reset_removes_client:
  assumes "server_reach E sv" and "map_of (sv_clients sv) a = Some cs"
    and "is_established (cs_session cs)" and "30 < now - created_at (cs_session cs)"
    and "sid < 256 ^ 8"
    and "handle_udp_data E now rid rk (reset_datagram sid) a sv = (r, t)"
  shows "(\<exists>c. map_of (sv_clients t) a = Some c \<and> \<not> is_established (cs_session c)) \<and>
    map_of (sv_clients (cleanup_stale E now t)) a = None"
proof -
  obtain q s where q: "server_handle_reset now (reset_datagram sid) (cs_session cs) = (q, s)" by fastforce
  have "decode_packet (reset_datagram sid) = Inr (HARD_RESET_CLIENT, sid, [])"
    using assms(5) decode_packet_Cons [of "be_bytes 8 sid" 1 "[]"]
    by (simp add: reset_datagram_def opcode_of_def)
  with q assms(5) have s: "state s = RESET_RCVD" "created_at s = created_at (cs_session cs)"
    by (auto simp: server_handle_reset_def meth_defs pack_def split: sum.splits)
  let ?v = "upd_client a (\<lambda>c. c\<lparr>cs_session := s\<rparr>) sv"
  have e: "m_bind (m_lift q) (m_for (sync_send_to cs)) ?v = (r, t)"
    unfolding assms(6) [symmetric] using assms(2) q
    by (simp add: handle_udp_data_def reset_datagram_def handle_reset_def get_or_create_session_def
        m_bind_def [of "get_or_create_session E now rid rk a None"])
  have k: "keeps (\<lambda>x. sv_clients x = sv_clients ?v \<and> sv_pool x = sv_pool ?v)
      (m_bind (m_lift q) (m_for (sync_send_to cs)))"
    by (intro keeps_bind keeps_m keeps_sends_table)
  have "sv_clients t = sv_clients ?v \<and> sv_pool t = sv_pool ?v"
    by (rule keeps_step [OF k _ e]) simp
  then have c: "map_of (sv_clients t) a = Some (cs\<lparr>cs_session := s\<rparr>)"
    using assms(2) by (simp add: upd_client_clients)
  moreover have "is_stale now (sv_config t) (cs\<lparr>cs_session := s\<rparr>)"
    using s assms(4) by (simp add: is_stale_def is_established_def is_expired_def HANDSHAKE_TIMEOUT_def)
  moreover have "server_ok t" using server_reach_ok sr_datagram [OF assms(1,6)] by blast
  ultimately show ?thesis
    using cleanup_stale_table [of t E now a] s by (auto simp: is_established_def)
qed

theorem spoofed_reset_removes_client_witness:
  "\<exists>sv cs now r t. server_reach toy_env sv \<and>
     map_of (sv_clients sv) (''192.0.2.9'', 4000) = Some cs \<and> is_ready cs \<and>
     handle_udp_data toy_env now [] 5 (reset_datagram 99) (''192.0.2.9'', 4000) sv = (r, t) \<and>
     map_of (sv_clients (cleanup_stale toy_env now t)) (''192.0.2.9'', 4000) = None"
proof -
  from toy_joined obtain sv cs ip where s: "server_reach toy_env sv"
    "map_of (sv_clients sv) (''192.0.2.9'', 4000) = Some cs" "is_ready cs" by blast
  let ?now = "created_at (cs_session cs) + 31"
  obtain r t where d: "handle_udp_data toy_env ?now [] 5 (reset_datagram 99) (''192.0.2.9'', 4000) sv =
    (r, t)" by fastforce
  from spoofed_reset_removes_client [OF s(1,2) _ _ _ d] s(3)
  have "map_of (sv_clients (cleanup_stale toy_env ?now t)) (''192.0.2.9'', 4000) = None"
    by (simp add: is_ready_def)
  with s d show ?thesis by blast
qed

lemma data_datagram:
  assumes c: "map_of (sv_clients sv) a = Some cs" "is_ready cs" "cs_data cs = Some ch"
    and d: "data \<noteq> []" "unat (hd data) = opcode_val DATA"
    and dec: "decrypt (e_prims E) now data ch = (Inr r, ch')" "r \<noteq> Some []"
    and t: "tun_fd (sv_tun sv) = Some fd" "\<And>p. r = Some p \<Longrightarrow> \<exists>n. os_write (e_kernel E) fd p = Inr n"
  shows "\<exists>t. handle_udp_data E now rid rk data a sv = (Inr (), t) \<and>
    sv_tun t = (sv_tun sv)\<lparr>tun_written := tun_written (sv_tun sv) @ (case r of None \<Rightarrow> [] | Some p \<Rightarrow> [p])\<rparr> \<and>
    map_of (sv_clients t) a = Some (cs\<lparr>last_seen := now, cs_data := Some ch'\<rparr>) \<and>
    (\<forall>b. b \<noteq> a \<longrightarrow> map_of (sv_clients t) b = map_of (sv_clients sv) b) \<and> outbox t = outbox sv \<and>
    sv_running t = sv_running sv"
proof -
  from d have d': "data ! 0 = hd data" "unat (hd data) = 5" by (simp_all add: hd_conv_nth)
  have rd: "is_ready (cs\<lparr>last_seen := now\<rparr>)" using c(2) by (simp add: is_ready_def)
  let ?v = "upd_client a (\<lambda>c. c\<lparr>cs_data := Some ch'\<rparr>) (upd_client a (\<lambda>c. c\<lparr>last_seen := now\<rparr>) sv)"
  have "handle_udp_data E now rid rk data a sv =
      (Inr (), ?v\<lparr>sv_tun := (sv_tun sv)\<lparr>tun_written :=
        tun_written (sv_tun sv) @ (case r of None \<Rightarrow> [] | Some p \<Rightarrow> [p])\<rparr>\<rparr>)"
  proof (cases r)
    case None
    then show ?thesis
      using c(1,3) d(1) dec d' rd by (simp add: handle_udp_data_def handle_data_def Let_def meth_defs)
  next
    case (Some p)
    with t obtain n where "os_write (e_kernel E) fd p = Inr n" by blast
    then show ?thesis
      using c(1,3) d(1) dec t(1) d' rd Some
      by (simp add: handle_udp_data_def handle_data_def Let_def meth_defs on_tun_def tun_write_def)
  qed
  with c(1) show ?thesis by (auto simp: upd_client_clients)
qed

text \<open>
  Data reaches the TUN device: when a ready client's datagram decrypts to a
  non-empty packet, exactly that packet is written to the device, the client's channel state
  advances and its activity is recorded; nothing else changes and nothing is raised.
\<close>

theorem data_delivered:
  assumes "map_of (sv_clients sv) a = Some cs" and "is_ready cs" and "cs_data cs = Some ch"
    and "data \<noteq> []" and "unat (hd data) = opcode_val DATA"
    and "decrypt (e_prims E) now data ch = (Inr (Some plain), ch')" and "plain \<noteq> []"
    and "tun_fd (sv_tun sv) = Some fd" and "os_write (e_kernel E) fd plain = Inr n"
    and "handle_udp_data E now rid rk data a sv = (r, t)"
  shows "r = Inr () \<and> tun_written (sv_tun t) = tun_written (sv_tun sv) @ [plain] \<and>
    map_of (sv_clients t) a = Some (cs\<lparr>last_seen := now, cs_data := Some ch'\<rparr>) \<and>
    (\<forall>b. b \<noteq> a \<longrightarrow> map_of (sv_clients t) b = map_of (sv_clients sv) b) \<and> outbox t = outbox sv"
  using data_datagram [of sv a cs ch data E now "Some plain" ch' fd rid rk, OF assms(1-6)] assms(7-10) by auto

text \<open>A server with one ready client, whose channel is that of the toy sender.\<close>

definition toy_ready :: "(bytes, 256 word, 256 word) vpn_server" where
  "toy_ready = toy_vpn\<lparr>sv_tun := (new_tun ''tun'' empty_os)\<lparr>tun_fd := Some 3\<rparr>,
     sv_clients := [((''192.0.2.9'', 4000),
       (new_client_session 0 (''192.0.2.9'', 4000)
         ((new_session toy_pki True (replicate 8 1) 5 0)\<lparr>state := ESTABLISHED\<rparr>))
         \<lparr>cs_data := Some toy_channel\<rparr>)]\<rparr>"

theorem data_delivered_witness:
  "\<exists>r t. handle_udp_data toy_env 9 [] 5 toy_wire (''192.0.2.9'', 4000) toy_ready = (r, t) \<and>
     r = Inr () \<and> tun_written (sv_tun t) = [[0x45]]"
proof -
  let ?a = "(''192.0.2.9'', 4000 :: nat)"
  obtain w rw where "encrypt toy_prims toy_nonce [0x45] toy_channel =
      (Inr [w], toy_channel\<lparr>packet_counter := packet_counter toy_channel + 1\<rparr>)"
    and dec: "decrypt toy_prims 9 w toy_channel = (Inr (Some [0x45]), toy_channel\<lparr>replay := rw\<rparr>)"
    using small_roundtrip [OF toy_aead_ok toy_lz4_ok toy_paired, of toy_nonce "[0x45]" "{}" 9]
    by (auto simp: MAX_PAYLOAD_def FRAG_MASK_def toy_channel_def toy_window_rel)
  with toy_wire_sent have w: "decrypt toy_prims 9 toy_wire toy_channel =
      (Inr (Some [0x45]), toy_channel\<lparr>replay := rw\<rparr>)" by simp
  obtain r t where d: "handle_udp_data toy_env 9 [] 5 toy_wire ?a toy_ready = (r, t)" by fastforce
  have "map_of (sv_clients toy_ready) ?a = Some ((new_client_session 0 ?a
      ((new_session toy_pki True (replicate 8 1) 5 0)\<lparr>state := ESTABLISHED\<rparr>))\<lparr>cs_data := Some toy_channel\<rparr>)"
    by (simp add: toy_ready_def)
  from data_delivered [OF this _ _ _ _ _ _ _ _ d, of toy_channel "[0x45]" _ 3 1] w d show ?thesis
    by (simp add: is_ready_def new_client_session_def is_established_def toy_wire_def toy_env_def
        toy_ready_def new_tun_def)
qed

end
