(* ===== verification/Status_File.thy ===== *)
theory Status_File
  imports Py_Text
begin

text \<open>
  The status file, \<^verbatim>\<open>src/status.py\<close>: counters, the rate-limited writer and its
  write-then-rename. Time formatting (\<^verbatim>\<open>strftime\<close>) and the clock are arguments; the file
  system is a map from paths to contents, with the paths that may be opened and replaced and
  the bytes that fit into a file before a write fails.
\<close>

record status =
  path :: string
  interval :: real
  start_time :: real
  last_write :: real
  bytes_in :: nat
  bytes_out :: nat
  packets_in :: nat
  packets_out :: nat

definition new_status :: "string \<Rightarrow> real \<Rightarrow> real \<Rightarrow> status" where
  "new_status p iv now =
     \<lparr>path = p, interval = iv, start_time = now, last_write = 0, bytes_in = 0, bytes_out = 0,
      packets_in = 0, packets_out = 0\<rparr>"

definition record_in :: "nat \<Rightarrow> status \<Rightarrow> status" where
  "record_in n s = s\<lparr>bytes_in := bytes_in s + n, packets_in := packets_in s + 1\<rparr>"

definition record_out :: "nat \<Rightarrow> status \<Rightarrow> status" where
  "record_out n s = s\<lparr>bytes_out := bytes_out s + n, packets_out := packets_out s + 1\<rparr>"

type_synonym files = "string \<Rightarrow> string option"

record disk =
  may_open :: "string \<Rightarrow> bool"
  may_replace :: "string \<Rightarrow> bool"
  room :: "string \<Rightarrow> nat"

definition status_text ::
  "(real \<Rightarrow> string) \<Rightarrow> real \<Rightarrow> status \<Rightarrow> string \<Rightarrow> string option \<Rightarrow> string" where
  "status_text fmt now s server_ip virtual_ip =
     join [CHR ''\<newline>'']
       [''OpenVPN CLIENT LIST'',
        ''Updated,'' @ fmt now,
        ''Common Name,Real Address,Bytes Received,Bytes Sent,Connected Since'',
        ''CLIENT_ASSIGNED,'' @ server_ip @ '','' @ str_nat (bytes_in s) @ '','' @
          str_nat (bytes_out s) @ '','' @ fmt (start_time s),
        ''ROUTING TABLE'',
        (if truthy virtual_ip then or_empty virtual_ip else ''N/A'') @ '','' @ server_ip @ '','',
        ''GLOBAL STATS'',
        ''Max bcast/mcast queue length,0'',
        ''END''] @ [CHR ''\<newline>'']"

text \<open>
  The states of the file system that another process can see while \<^verbatim>\<open>_write\<close> runs: after
  opening (which truncates), after each prefix of the text has reached the file, after the
  rename. An \<^verbatim>\<open>OSError\<close> of \<^verbatim>\<open>open\<close>, of a write that finds no room, or of
  \<^verbatim>\<open>replace\<close> ends the sequence and is swallowed.
\<close>

definition write_states :: "disk \<Rightarrow> string \<Rightarrow> string \<Rightarrow> files \<Rightarrow> files list" where
  "write_states D p text fs =
     (let tmp = p @ ''.tmp'' in
      if \<not> may_open D tmp then [fs]
      else
        map (\<lambda>n. fs(tmp \<mapsto> take n text)) [0..<Suc (min (room D tmp) (length text))] @
        (if length text \<le> room D tmp \<and> may_replace D p then [(fs(tmp := None))(p \<mapsto> text)] else []))"

definition write_status ::
  "disk \<Rightarrow> (real \<Rightarrow> string) \<Rightarrow> real \<Rightarrow> string \<Rightarrow> string option \<Rightarrow> status \<Rightarrow> files \<Rightarrow> files" where
  "write_status D fmt now server_ip virtual_ip s fs =
     last (write_states D (path s) (status_text fmt now s server_ip virtual_ip) fs)"

definition maybe_write ::
  "disk \<Rightarrow> (real \<Rightarrow> string) \<Rightarrow> real \<Rightarrow> string \<Rightarrow> string option \<Rightarrow> bool \<Rightarrow> status \<times> files \<Rightarrow>
   status \<times> files" where
  "maybe_write D fmt now server_ip virtual_ip force sf =
     (case sf of (s, fs) \<Rightarrow>
        if \<not> force \<and> now - last_write s < interval s then (s, fs)
        else
          let t = s\<lparr>last_write := now\<rparr> in
          (t, write_status D fmt now server_ip virtual_ip t fs))"

definition close_status :: "disk \<Rightarrow> status \<Rightarrow> files \<Rightarrow> files" where
  "close_status D s fs =
     (if fs (path s) \<noteq> None \<and> may_replace D (path s) then fs(path s := None) else fs)"

text \<open>
  Claim C40. Readers never see half a status file: in every state of the file system that
  occurs while it is rewritten, the status file is either as it was or complete, and no file
  but it and its temporary sibling has changed.
\<close>

theorem status_write_atomic:
  assumes "g \<in> set (write_states D p text fs)"
  shows "(g p = fs p \<or> g p = Some text) \<and> (\<forall>q. q \<noteq> p \<longrightarrow> q \<noteq> p @ ''.tmp'' \<longrightarrow> g q = fs q)"
proof -
  have "p @ ''.tmp'' \<noteq> p" by simp
  with assms show ?thesis by (auto simp: write_states_def Let_def split: if_splits)
qed

definition toy_disk :: disk where
  "toy_disk = \<lparr>may_open = (\<lambda>_. True), may_replace = (\<lambda>_. True), room = (\<lambda>_. 4096)\<rparr>"

theorem status_write_atomic_witness:
  "[''s'' \<mapsto> ''old'', ''s.tmp'' \<mapsto> ''n''] \<in> set (write_states toy_disk ''s'' ''new'' [''s'' \<mapsto> ''old'']) \<and>
   [''s'' \<mapsto> ''old'', ''s.tmp'' \<mapsto> ''n''] ''s'' = Some ''old''"
proof -
  have m: "[''s'' \<mapsto> ''old'', ''s.tmp'' \<mapsto> ''n''] \<in> set (write_states toy_disk ''s'' ''new'' [''s'' \<mapsto> ''old''])"
    by (simp add: write_states_def toy_disk_def Let_def)
  from status_write_atomic [OF m] m show ?thesis by simp
qed

end
