(* ===== verification/Client.thy ===== *)
theory Client
  imports Settings Control Data_Channel Framing Status_File
begin

text \<open>
  The VPN client, \<^verbatim>\<open>src/client.py\<close>: one connection attempt, the turns of its main loop, the
  dispatch of datagrams, the configuration that follows an address assignment, the TUN side,
  and the retry loop of \<^verbatim>\<open>run\<close>. As for the server, one call of a method is one step and the
  clock is read once per call; what is written to the socket is appended to \<open>cl_outbox\<close>.
\<close>

section \<open>State\<close>

text \<open>The client also needs the file system of its status file and the formatting of times.\<close>

record ('c, 'k, 's, 'p) client_env = "('c, 'k, 's, 'p) env" +
  e_disk :: disk
  e_fmt :: "real \<Rightarrow> string"

record ('c, 's, 'p) vpn_client =
  cl_config :: settings
  cl_os :: os
  cl_tun :: "tun option"
  cl_transport :: bool
  cl_writer :: bool
  cl_session :: "('c, 's, 'p) session"
  cl_data :: "data_channel option"
  cl_running :: bool
  cl_handshake_done :: bool
  cl_assigned_ip :: "string option"
  cl_routes :: "string list list"
  cl_last_seen :: real
  cl_connected :: bool
  cl_status :: "status option"
  cl_files :: files
  cl_ident :: ident
  cl_outbox :: "bytes list"

definition new_client ::
  "('c, 'k, 's, 'p) pki \<Rightarrow> settings \<Rightarrow> bytes \<Rightarrow> 's \<Rightarrow> real \<Rightarrow> os \<Rightarrow> files \<Rightarrow> ident \<Rightarrow>
   ('c, 's, 'p) vpn_client" where
  "new_client P cfg sid sk now s fs who =
     \<lparr>cl_config = cfg, cl_os = s, cl_tun = None, cl_transport = False, cl_writer = False,
      cl_session = new_session P False sid sk now, cl_data = None, cl_running = False,
      cl_handshake_done = False, cl_assigned_ip = None, cl_routes = [], cl_last_seen = now,
      cl_connected = False,
      cl_status = (if truthy (s_status cfg) then Some (new_status (or_empty (s_status cfg)) 10 now) else None),
      cl_files = fs, cl_ident = who, cl_outbox = []\<rparr>"

definition client_is_tcp :: "settings \<Rightarrow> bool" where
  "client_is_tcp cfg \<longleftrightarrow> s_proto cfg = ''tcp''"

definition client_ip :: "('c, 's, 'p) vpn_client \<Rightarrow> string" where
  "client_ip c =
     (if truthy (cl_assigned_ip c) then or_empty (cl_assigned_ip c)
      else if truthy (s_ifconfig (cl_config c)) then or_empty (s_ifconfig (cl_config c))
      else ''10.8.0.2/24'')"

text \<open>
  Calls of the objects a client holds. The interface and the client run their commands on
  the same machine.
\<close>

definition cl_on_os :: "(os, 'a) meth \<Rightarrow> (('c, 's, 'p) vpn_client, 'a) meth" where
  "cl_on_os m c = (case m (cl_os c) of (r, s) \<Rightarrow> (r, c\<lparr>cl_os := s\<rparr>))"

definition cl_on_tun :: "(tun, 'a) meth \<Rightarrow> (('c, 's, 'p) vpn_client, 'a) meth" where
  "cl_on_tun m c =
     (case cl_tun c of
        None \<Rightarrow> (Inl AttributeError, c)
      | Some t \<Rightarrow>
          (case m (t\<lparr>tun_os := cl_os c\<rparr>) of (r, u) \<Rightarrow> (r, c\<lparr>cl_tun := Some u, cl_os := tun_os u\<rparr>)))"

definition cl_on_session ::
  "(('c, 's, 'p) session, 'a) meth \<Rightarrow> (('c, 's, 'p) vpn_client, 'a) meth" where
  "cl_on_session m c = (case m (cl_session c) of (r, s) \<Rightarrow> (r, c\<lparr>cl_session := s\<rparr>))"

definition remote_text :: "settings \<Rightarrow> string" where
  "remote_text cfg = or_empty (s_remote cfg) @ '':'' @ str_int (s_port cfg)"

definition cl_write_status ::
  "('c, 'k, 's, 'p) client_env \<Rightarrow> real \<Rightarrow> bool \<Rightarrow> ('c, 's, 'p) vpn_client \<Rightarrow>
   ('c, 's, 'p) vpn_client" where
  "cl_write_status E now force c =
     (case cl_status c of
        None \<Rightarrow> c
      | Some s \<Rightarrow>
          (case maybe_write (e_disk E) (e_fmt E) now (remote_text (cl_config c)) (cl_assigned_ip c) force
                  (s, cl_files c) of
             (t, fs) \<Rightarrow> c\<lparr>cl_status := Some t, cl_files := fs\<rparr>))"

section \<open>Sending\<close>

definition client_sync_send :: "bytes \<Rightarrow> (('c, 's, 'p) vpn_client, unit) meth" where
  "client_sync_send data c =
     (if client_is_tcp (cl_config c) \<and> cl_writer c then
        (case frame_packet data of
           Inl e \<Rightarrow> (Inl e, c)
         | Inr fr \<Rightarrow> (Inr (), c\<lparr>cl_outbox := cl_outbox c @ [fr]\<rparr>))
      else if cl_transport c then (Inr (), c\<lparr>cl_outbox := cl_outbox c @ [data]\<rparr>)
      else (Inr (), c))"

text \<open>\<^verbatim>\<open>_send\<close>; \<open>drained\<close> is what awaiting the writer's \<^verbatim>\<open>drain\<close> does.\<close>

definition send ::
  "unit res \<Rightarrow> bytes \<Rightarrow> (('c, 's, 'p) vpn_client, unit) coroutine" where
  "send drained data =
     Coroutine (m_seq (client_sync_send data)
       (\<lambda>c. (if client_is_tcp (cl_config c) \<and> cl_writer c then drained else Inr (), c)))"

lemma await_send_drained [simp]: "await (send (Inr ()) w) = client_sync_send w"
  by (rule ext) (simp add: send_def client_sync_send_def m_seq_def m_bind_def split: sum.split)

lemma await_send_udp [simp]:
  "\<not> client_is_tcp (cl_config c) \<Longrightarrow> await (send drained w) c = client_sync_send w c"
  by (simp add: send_def client_sync_send_def m_seq_def m_bind_def)

definition send_wire :: "bytes \<Rightarrow> (('c, 's, 'p) vpn_client, unit) meth" where
  "send_wire w =
     m_seq (client_sync_send w)
       (m_upd (\<lambda>c. c\<lparr>cl_status := map_option (record_out (length w)) (cl_status c)\<rparr>))"

definition client_tun_readable ::
  "('c, 'k, 's, 'p) client_env \<Rightarrow> (nat \<Rightarrow> bytes) \<Rightarrow> bytes res \<Rightarrow>
   (('c, 's, 'p) vpn_client, unit) meth" where
  "client_tun_readable E rnd queued c =
     (if \<not> cl_handshake_done c \<or> cl_data c = None \<or> \<not> truthy (cl_assigned_ip c) then (Inr (), c)
      else
        case cl_tun c of
          None \<Rightarrow> (Inl AttributeError, c)
        | Some t \<Rightarrow>
            (case tun_read queued 65536 t of
               Inl OSError \<Rightarrow> (Inr (), c)
             | Inl e \<Rightarrow> (Inl e, c)
             | Inr packet \<Rightarrow>
                 if packet = [] then (Inr (), c)
                 else
                   (case encrypt (e_prims E) rnd packet (the (cl_data c)) of
                      (r, ch) \<Rightarrow> m_bind (m_lift r) (m_for send_wire) (c\<lparr>cl_data := Some ch\<rparr>))))"

section \<open>The address assignment\<close>

definition assigned_cidr :: "settings \<Rightarrow> string \<Rightarrow> string" where
  "assigned_cidr cfg ip =
     (if CHR ''/'' \<in> set ip then ip
      else
        ip @ ''/'' @
          (if truthy (s_ifconfig cfg) \<and> CHR ''/'' \<in> set (or_empty (s_ifconfig cfg))
           then split_on (CHR ''/'') (or_empty (s_ifconfig cfg)) ! 1 else ''24''))"

definition server_prefix :: "settings \<Rightarrow> string" where
  "server_prefix cfg =
     before_last (CHR ''.'')
       (if truthy (s_ifconfig cfg) then hd (split_on (CHR ''/'') (or_empty (s_ifconfig cfg)))
        else ''10.8.0.0'')"

definition run_route ::
  "('c, 'k, 's, 'p) client_env \<Rightarrow> string list \<Rightarrow> (('c, 's, 'p) vpn_client, unit) meth" where
  "run_route E cmd =
     m_seq (cl_on_os (subprocess_run (e_world E) False cmd))
       (m_upd (\<lambda>c. c\<lparr>cl_routes := cl_routes c @ [cmd]\<rparr>))"

definition handle_ip_assign ::
  "('c, 'k, 's, 'p) client_env \<Rightarrow> real \<Rightarrow> string \<Rightarrow> (('c, 's, 'p) vpn_client, unit) meth" where
  "handle_ip_assign E now ip c0 =
     (let cfg = cl_config c0; net = server_prefix cfg in
      (m_seq (m_upd (\<lambda>c. c\<lparr>cl_assigned_ip := Some ip, cl_connected := True\<rparr>))
      (m_seq (m_upd (cl_write_status E now True))
      (m_seq (cl_on_tun (set_ip (e_world E) (assigned_cidr cfg ip)))
      (m_seq (run_route E [''ip'', ''route'', ''add'', net @ ''.0/24'', ''dev'', s_dev cfg])
      (m_seq (if s_redirect cfg
              then run_route E [''ip'', ''route'', ''add'', ''default'', ''via'', net @ ''.1'',
                     ''dev'', s_dev cfg, ''metric'', ''50'']
              else m_return ())
       (\<lambda>c. case maybe_drop_privileges (e_accounts E) (s_user cfg) (cl_ident c) of
              (r, who) \<Rightarrow> (r, c\<lparr>cl_ident := who\<rparr>))))))) c0)"

section \<open>Datagrams\<close>

definition client_control ::
  "('c, 'k, 's, 'p) client_env \<Rightarrow> real \<Rightarrow> bytes \<Rightarrow> (('c, 's, 'p) vpn_client, unit) meth" where
  "client_control E now data =
     (case decode_packet data of
        Inl e \<Rightarrow> if e = ValueError \<or> e = IndexError then m_return () else m_raise e
      | Inr (_, _, payload) \<Rightarrow>
          if length payload < 1 then m_return ()
          else
            m_bind (m_lift (msg_of (unat (payload ! 0)))) (\<lambda>m.
            let inner = drop 1 payload in
            case m of
              SERVER_HELLO \<Rightarrow>
                m_bind (cl_on_session (\<lambda>s. case client_handle_server_hello (e_pki E) inner s of
                          (ps, t) \<Rightarrow> (Inr ps, t)))
                  (m_for client_sync_send)
            | IP_ASSIGN \<Rightarrow> m_bind (m_lift (utf8_decode inner)) (handle_ip_assign E now)
            | KEEPALIVE \<Rightarrow>
                m_bind (m_ask (\<lambda>c. encode_packet CONTROL (of_be (session_id (cl_session c)))
                                     [word_of_nat (msg_val KEEPALIVE)]))
                  client_sync_send
            | _ \<Rightarrow> m_return ()))"

definition client_datagram ::
  "('c, 'k, 's, 'p) client_env \<Rightarrow> real \<Rightarrow> bytes \<Rightarrow> (('c, 's, 'p) vpn_client, unit) meth" where
  "client_datagram E now data c0 =
     (if length data < 1 then (Inr (), c0)
      else
        let c = c0\<lparr>cl_last_seen := now, cl_status := map_option (record_in (length data)) (cl_status c0)\<rparr>;
            opcode_v = unat (data ! 0) in
        if opcode_v = opcode_val HARD_RESET_SERVER then
          m_bind (cl_on_session (client_handle_reset_ack (e_pki E) data)) (m_for client_sync_send) c
        else if opcode_v = opcode_val CONTROL then client_control E now data c
        else if opcode_v = opcode_val DATA \<and> cl_data c \<noteq> None then
          (case decrypt (e_prims E) now data (the (cl_data c)) of
             (r, ch) \<Rightarrow>
               m_bind (m_lift r) (\<lambda>plain.
                 if truthy plain
                 then m_seq (cl_on_tun (tun_write (e_kernel E) (or_empty plain))) (m_return ())
                 else m_return ())
               (c\<lparr>cl_data := Some ch\<rparr>))
        else (Inr (), c))"

text \<open>
  \<^verbatim>\<open>_tcp_read_loop\<close> when its read returns; \<open>False\<close> ends the loop. \<^verbatim>\<open>_running\<close> is tested again
  before the next read.
\<close>

definition tcp_read_turn ::
  "('c, 'k, 's, 'p) client_env \<Rightarrow> real \<Rightarrow> bytes option \<Rightarrow> (('c, 's, 'p) vpn_client, bool) meth" where
  "tcp_read_turn E now frame c =
     (if \<not> cl_writer c then (Inr False, c)
      else
        case frame of
          None \<Rightarrow> (Inr False, c)
        | Some data \<Rightarrow> m_seq (client_datagram E now data) (m_ask (\<lambda>d. Inr (cl_running d))) c)"

section \<open>Connecting\<close>

text \<open>The body of the retry loop before \<^verbatim>\<open>_connect\<close>.\<close>

definition begin_attempt ::
  "('c, 'k, 's, 'p) client_env \<Rightarrow> bytes \<Rightarrow> 's \<Rightarrow> real \<Rightarrow> (('c, 's, 'p) vpn_client, unit) meth" where
  "begin_attempt E sid sk now =
     m_seq (m_upd (\<lambda>c. c\<lparr>cl_running := True, cl_handshake_done := False, cl_assigned_ip := None,
                        cl_data := None, cl_session := new_session (e_pki E) False sid sk now\<rparr>))
    (m_bind (m_ask (\<lambda>c. Inr (cl_config c))) (\<lambda>cfg.
     m_seq (if authenticated_mode cfg
            then cl_on_session (configure (e_pki E) (or_empty (s_ca cfg)) (or_empty (s_cert cfg))
                   (or_empty (s_key cfg)))
            else m_return ())
    (m_bind (m_ask (\<lambda>c. Inr (cl_tun c))) (\<lambda>t.
     if t = None then
       m_seq (m_upd (\<lambda>c. c\<lparr>cl_tun := Some (new_tun (s_dev cfg) (cl_os c))\<rparr>))
      (m_seq (cl_on_tun (tun_open (e_world E) (e_kernel E)))
       (cl_on_tun (set_mtu (e_world E) 1500)))
     else m_return ()))))"

text \<open>
  \<^verbatim>\<open>_connect\<close> up to its main loop; \<open>False\<close> when the TCP connection fails. \<open>conn\<close> is what
  opening the socket does, \<open>drained\<close> what draining the writer after the first message does.
\<close>

definition connect ::
  "('c, 'k, 's, 'p) client_env \<Rightarrow> unit res \<Rightarrow> unit res \<Rightarrow> (('c, 's, 'p) vpn_client, bool) meth" where
  "connect E conn drained c =
     (if client_is_tcp (cl_config c) \<and> conn = Inl OSError then (Inr False, c\<lparr>cl_connected := False\<rparr>)
      else
        (m_seq (m_lift conn)
        (m_seq (m_upd (\<lambda>c. if client_is_tcp (cl_config c) then c\<lparr>cl_writer := True\<rparr>
                           else c\<lparr>cl_transport := True\<rparr>))
        (m_seq (cl_on_tun (\<lambda>t. (tun_fileno t, t)))
        (m_bind (cl_on_session client_start_handshake) (\<lambda>packets.
         m_seq (m_for (\<lambda>p. await (send drained p)) packets)
          (m_return True)))))) c)"

definition open_data_channel ::
  "('c, 'k, 's, 'p) client_env \<Rightarrow> (('c, 's, 'p) vpn_client, unit) meth" where
  "open_data_channel E c =
     (if \<not> cl_handshake_done c \<and> is_established (cl_session c) then
        (let d = c\<lparr>cl_handshake_done := True\<rparr> in
         case new_data_channel (e_prims E) (session_id (cl_session c))
                (or_empty (peer_session_id (cl_session c))) (cipher (cl_session c))
                (s_comp_lzo (cl_config c)) 64 of
           Inl e \<Rightarrow> (Inl e, d)
         | Inr ch \<Rightarrow> (Inr (), d\<lparr>cl_data := Some ch\<rparr>))
      else (Inr (), c))"

definition timed_out :: "real \<Rightarrow> ('c, 's, 'p) vpn_client \<Rightarrow> bool" where
  "timed_out now c \<longleftrightarrow>
     (if cl_handshake_done c \<and> truthy (cl_assigned_ip c)
      then real_of_int (s_timeout (cl_config c)) < now - cl_last_seen c
      else cl_handshake_done c \<and> real_of_int (s_timeout (cl_config c)) < now - cl_last_seen c)"

text \<open>One turn of the main loop of \<^verbatim>\<open>_connect\<close>; \<open>False\<close> leaves the loop.\<close>

definition connect_turn ::
  "('c, 'k, 's, 'p) client_env \<Rightarrow> real \<Rightarrow> (('c, 's, 'p) vpn_client, bool) meth" where
  "connect_turn E now c =
     (if \<not> cl_running c then (Inr False, c)
      else
        (m_seq (m_upd (\<lambda>c. c\<lparr>cl_data := map_option (cleanup_fragments now) (cl_data c)\<rparr>))
        (m_seq (m_upd (cl_write_status E now False))
        (m_seq (open_data_channel E)
         (\<lambda>d. if timed_out now d then (Inr False, d\<lparr>cl_connected := False\<rparr>) else (Inr True, d))))) c)"

definition undo_route :: "string list \<Rightarrow> string list" where
  "undo_route cmd = [''ip'', ''route'', ''delete''] @ drop 3 cmd"

definition client_cleanup ::
  "('c, 'k, 's, 'p) client_env \<Rightarrow> (('c, 's, 'p) vpn_client, unit) meth" where
  "client_cleanup E c =
     m_seq (m_for (\<lambda>cmd. m_seq (cl_on_os (subprocess_run (e_world E) False (undo_route cmd))) (m_return ()))
              (rev (cl_routes c)))
       (m_upd (\<lambda>d. d\<lparr>cl_routes := []\<rparr>)) c"

text \<open>The \<^verbatim>\<open>finally\<close> block of \<^verbatim>\<open>_connect\<close>.\<close>

definition connect_end ::
  "('c, 'k, 's, 'p) client_env \<Rightarrow> (('c, 's, 'p) vpn_client, unit) meth" where
  "connect_end E =
     m_seq (client_cleanup E)
    (m_seq (cl_on_tun (\<lambda>t. (tun_fileno t, t)))
     (m_upd (\<lambda>c. case cl_status c of
                    None \<Rightarrow> c | Some s \<Rightarrow> c\<lparr>cl_files := close_status (e_disk E) s (cl_files c)\<rparr>)))"

definition client_stop :: "('c, 's, 'p) vpn_client \<Rightarrow> ('c, 's, 'p) vpn_client" where
  "client_stop c = c\<lparr>cl_running := False, cl_connected := False\<rparr>"

section \<open>The retry loop\<close>

text \<open>
  Where \<^verbatim>\<open>run\<close> is: at the top of its loop (first entry, or sleeping before a retry), in the
  main loop of \<^verbatim>\<open>_connect\<close>, or returned, after its \<^verbatim>\<open>finally\<close> has closed the device.
\<close>

datatype phase = Top | Looping | Done

definition close_run ::
  "('c, 'k, 's, 'p) client_env \<Rightarrow> ('c, 's, 'p) vpn_client \<Rightarrow> ('c, 's, 'p) vpn_client" where
  "close_run E c =
     (if cl_tun c = None then c else snd (cl_on_tun (\<lambda>t. (Inr (), tun_close (e_world E) t)) c))"

definition after_connect ::
  "('c, 'k, 's, 'p) client_env \<Rightarrow> ('c, 's, 'p) vpn_client \<Rightarrow> phase \<times> ('c, 's, 'p) vpn_client" where
  "after_connect E c =
     (if \<not> cl_running c then (Done, close_run E c)
      else if cl_connected c then (Done, close_run E c)
      else (Top, c))"

definition attempt ::
  "('c, 'k, 's, 'p) client_env \<Rightarrow> bytes \<Rightarrow> 's \<Rightarrow> real \<Rightarrow> unit res \<Rightarrow> unit res \<Rightarrow> ('c, 's, 'p) vpn_client \<Rightarrow>
   phase \<times> ('c, 's, 'p) vpn_client" where
  "attempt E sid sk now conn drained c =
     (if \<not> truthy (s_remote (cl_config c)) then (Done, c)
      else if \<not> (cl_running c \<or> \<not> cl_connected c) then (Done, close_run E c)
      else
        case m_seq (begin_attempt E sid sk now) (connect E conn drained) c of
          (Inl e, d) \<Rightarrow> (Done, close_run E d)
        | (Inr True, d) \<Rightarrow> (Looping, d)
        | (Inr False, d) \<Rightarrow> after_connect E d)"

definition turn ::
  "('c, 'k, 's, 'p) client_env \<Rightarrow> real \<Rightarrow> ('c, 's, 'p) vpn_client \<Rightarrow>
   phase \<times> ('c, 's, 'p) vpn_client" where
  "turn E now c =
     (case connect_turn E now c of
        (Inr True, d) \<Rightarrow> (Looping, d)
      | (Inr False, d) \<Rightarrow>
          (case connect_end E d of
             (Inl e, u) \<Rightarrow> (Done, close_run E u)
           | (Inr _, u) \<Rightarrow> after_connect E u)
      | (Inl e, d) \<Rightarrow> (Done, close_run E (snd (connect_end E d))))"

end
