(* ===== verification/Client_Props.thy ===== *)
theory Client_Props
  imports Client Toy_Env Channel_Props
begin

text \<open>
  Properties of the client: the routes it adds and removes, what an address assignment does
  and who may send one, when it gives up a connection, and what it does with the packets of
  its TUN device.
\<close>

section \<open>Runs\<close>

text \<open>
  The states a client process can reach, with the place \<^verbatim>\<open>run\<close> is at. Datagrams and TUN
  packets are delivered by the event loop while \<^verbatim>\<open>_connect\<close> is in its main loop (an exception
  of a handler is logged by the event loop); the signal handler may run at any time.
\<close>

inductive client_reach ::
  "('c, 'k, 's, 'p) client_env \<Rightarrow> phase \<Rightarrow> ('c, 's, 'p) vpn_client \<Rightarrow> bool" for E where
  cr_new: "commands s = [] \<Longrightarrow> client_reach E Top (new_client (e_pki E) cfg sid sk now s fs who)"
| cr_attempt: "client_reach E Top c \<Longrightarrow> attempt E sid sk now conn drained c = (p, d) \<Longrightarrow> client_reach E p d"
| cr_turn: "client_reach E Looping c \<Longrightarrow> turn E now c = (p, d) \<Longrightarrow> client_reach E p d"
| cr_datagram: "client_reach E Looping c \<Longrightarrow> client_datagram E now data c = (r, d) \<Longrightarrow>
    client_reach E Looping d"
| cr_tun: "client_reach E Looping c \<Longrightarrow> client_tun_readable E rnd queued c = (r, d) \<Longrightarrow>
    client_reach E Looping d"
| cr_stop: "client_reach E p c \<Longrightarrow> client_reach E p (client_stop c)"

section \<open>Routes\<close>

definition added :: "string list \<Rightarrow> string list" where
  "added x = [''ip'', ''route'', ''add''] @ x"

definition deleted :: "string list \<Rightarrow> string list" where
  "deleted x = [''ip'', ''route'', ''delete''] @ x"

definition is_route :: "string list \<Rightarrow> bool" where
  "is_route cmd \<longleftrightarrow> take 2 cmd = [''ip'', ''route'']"

text \<open>What the balance looks at: the route commands run so far and the routes to be undone.\<close>

definition route_view :: "('c, 's, 'p) vpn_client \<Rightarrow> string list list \<times> string list list" where
  "route_view c = (filter is_route (commands (cl_os c)), cl_routes c)"

fun view_ok :: "string list list \<times> string list list \<Rightarrow> bool" where
  "view_ok (cs, rs) \<longleftrightarrow>
     (\<forall>x. count_list cs (added x) = count_list cs (deleted x) + count_list rs (added x)) \<and>
     (\<forall>r \<in> set rs. \<exists>x. r = added x)"

definition balanced :: "('c, 's, 'p) vpn_client \<Rightarrow> bool" where
  "balanced c \<longleftrightarrow> view_ok (route_view c)"

text \<open>Every program the machine is asked to run exists.\<close>

definition programs_start :: "world \<Rightarrow> bool" where
  "programs_start W \<longleftrightarrow> (\<forall>cs cmd. \<exists>code out err. sh W cs cmd = Exited code out err)"

lemma route_words [simp]:
  "is_route (added x)" "is_route (deleted x)" "added x \<noteq> deleted y" "deleted y \<noteq> added x"
  "added x = added y \<longleftrightarrow> x = y" "deleted x = deleted y \<longleftrightarrow> x = y" "drop 3 (added x) = x"
  by (simp_all add: added_def deleted_def is_route_def)

lemma count_filter: "P x \<Longrightarrow> count_list (filter P xs) x = count_list xs x"
  by (induction xs) auto

lemma balanced_commands:
  "balanced c \<Longrightarrow> count_list (commands (cl_os c)) (added x) =
     count_list (commands (cl_os c)) (deleted x) + count_list (cl_routes c) (added x)"
  by (simp add: balanced_def route_view_def count_filter)

section \<open>Methods that touch no route\<close>

lemma run_not_started:
  "programs_start W \<Longrightarrow> \<exists>out. subprocess_run W False cmd s = (Inr out, s\<lparr>commands := commands s @ [cmd]\<rparr>)"
  unfolding programs_start_def subprocess_run_def run_proc_def
  by (metis (mono_tags, lifting) case_prod_conv proc.simps(5))

lemma not_route [simp]:
  "\<not> is_route (a # ''link'' # x)" "\<not> is_route (a # ''addr'' # x)"
  by (simp_all add: is_route_def)

text \<open>The commands of the TUN interface are not route commands.\<close>

definition tun_log :: "tun \<Rightarrow> string list list" where
  "tun_log t = filter is_route (commands (tun_os t))"

lemma keeps_tun_run [keeps_intro]:
  "\<not> is_route cmd \<Longrightarrow> keeps (\<lambda>t. tun_log t = v) (tun_run W chk cmd)"
  by (rule keepsI) (simp add: tun_log_def)

lemma keeps_tun_ops [keeps_intro]:
  "keeps (\<lambda>t. tun_log t = v) (set_ip W ip)" "keeps (\<lambda>t. tun_log t = v) (set_mtu W n)"
  "keeps (\<lambda>t. tun_log t = v) (tun_write K p)" "keeps (\<lambda>t. tun_log t = v) (tun_open W K)"
  "keeps (\<lambda>t. tun_log t = v) (\<lambda>t. (tun_fileno t, t))"
  "keeps (\<lambda>t. tun_log t = v) (\<lambda>t. (Inr (), tun_close W t))"
proof -
  have k: "keeps (\<lambda>t. tun_log t = w) (m_seq (tun_run W True [''ip'', ''addr'', ''add'', ip, ''dev'', n])
      (tun_run W True [''ip'', ''link'', ''set'', n, ''up'']))" for n w
    by (intro keeps_intro) simp_all
  show "keeps (\<lambda>t. tun_log t = v) (set_ip W ip)"
    by (auto intro!: keepsI keepsD [OF k] simp: set_ip_def split: list.split)
qed (auto intro!: keepsI simp: tun_log_def set_mtu_def tun_write_def tun_close_def tun_open_def Let_def
      split: option.split sum.split exn.split)

section \<open>Methods of the client that touch no route\<close>

lemma route_view_on_tun [keeps_intro]:
  assumes "\<And>w. keeps (\<lambda>t. tun_log t = w) m"
  shows "keeps (\<lambda>c. route_view c = v) (cl_on_tun m)"
proof (rule keepsI)
  fix c :: "('b, 'c, 'd) vpn_client" assume v: "route_view c = v"
  show "route_view (snd (cl_on_tun m c)) = v"
  proof (cases "cl_tun c")
    case None
    with v show ?thesis by (simp add: cl_on_tun_def)
  next
    case (Some t)
    have "tun_log (snd (m (t\<lparr>tun_os := cl_os c\<rparr>))) = filter is_route (commands (cl_os c))"
      by (rule keepsD [OF assms]) (simp add: tun_log_def)
    with Some v show ?thesis
      by (auto simp: cl_on_tun_def route_view_def tun_log_def split: prod.split)
  qed
qed

lemma route_view_on_session [keeps_intro]: "keeps (\<lambda>c. route_view c = v) (cl_on_session m)"
  by (rule keepsI) (auto simp: cl_on_session_def route_view_def split: prod.split)

lemma route_view_send [keeps_intro]: "keeps (\<lambda>c. route_view c = v) (client_sync_send d)"
  by (rule keepsI) (auto simp: client_sync_send_def route_view_def split: sum.split)

lemma route_view_async [keeps_intro]: "keeps (\<lambda>c. route_view c = v) (await (send drained d))"
  unfolding send_def await.simps
  by (intro keeps_intro keepsI) (auto split: if_split)

lemma route_view_status [simp]: "route_view (cl_write_status E now force c) = route_view c"
  by (auto simp: cl_write_status_def route_view_def split: option.split prod.split)

lemma route_view_upd [simp]:
  "route_view (c\<lparr>cl_data := x1\<rparr>) = route_view c" "route_view (c\<lparr>cl_connected := x2\<rparr>) = route_view c"
  "route_view (c\<lparr>cl_status := x3\<rparr>) = route_view c" "route_view (c\<lparr>cl_assigned_ip := x4\<rparr>) = route_view c"
  "route_view (c\<lparr>cl_files := x5\<rparr>) = route_view c" "route_view (c\<lparr>cl_last_seen := x6\<rparr>) = route_view c"
  "route_view (c\<lparr>cl_ident := x7\<rparr>) = route_view c" "route_view (c\<lparr>cl_tun := x8\<rparr>) = route_view c"
  "route_view (c\<lparr>cl_session := x9\<rparr>) = route_view c" "route_view (c\<lparr>cl_running := y1\<rparr>) = route_view c"
  "route_view (c\<lparr>cl_handshake_done := y2\<rparr>) = route_view c"
  "route_view (c\<lparr>cl_writer := y3\<rparr>) = route_view c" "route_view (c\<lparr>cl_transport := y4\<rparr>) = route_view c"
  by (simp_all add: route_view_def)

lemma route_view_wire [keeps_intro]: "keeps (\<lambda>c. route_view c = v) (send_wire w)"
  unfolding send_wire_def by (intro keeps_intro) simp

lemma route_view_begin: "keeps (\<lambda>c. route_view c = v) (begin_attempt E sid sk now)"
  unfolding begin_attempt_def by (intro keeps_intro) simp_all

lemma route_view_connect:
  fixes E :: "('c, 'k, 's, 'p) client_env"
  shows "keeps (\<lambda>c. route_view c = v) (connect E conn drained)"
proof (rule keepsI)
  fix c :: "('c, 's, 'p) vpn_client" assume v: "route_view c = v"
  have k: "keeps (\<lambda>c. route_view c = w) (m_seq (m_lift conn)
        (m_seq (m_upd (\<lambda>c. if client_is_tcp (cl_config c) then c\<lparr>cl_writer := True\<rparr>
                           else c\<lparr>cl_transport := True\<rparr>))
        (m_seq (cl_on_tun (\<lambda>t. (tun_fileno t, t)))
        (m_bind (cl_on_session client_start_handshake) (\<lambda>packets.
         m_seq (m_for (\<lambda>p. await (send drained p)) packets)
          (m_return True))))))" for w
    by (intro keeps_intro) (simp add: route_view_def)
  from v show "route_view (snd (connect E conn drained c)) = v"
    unfolding connect_def by (auto intro!: keepsD [OF k])
qed

lemma route_view_open [keeps_intro]: "keeps (\<lambda>c. route_view c = v) (open_data_channel E)"
  by (rule keepsI) (auto simp: open_data_channel_def route_view_def Let_def split: sum.split)

lemma route_view_turn:
  fixes E :: "('c, 'k, 's, 'p) client_env"
  shows "keeps (\<lambda>c. route_view c = v) (connect_turn E now)"
proof (rule keepsI)
  fix c :: "('c, 's, 'p) vpn_client" assume v: "route_view c = v"
  have "keeps (\<lambda>c. route_view c = w) (\<lambda>d.
      if timed_out now d then (Inr False, d\<lparr>cl_connected := False\<rparr>) else (Inr True, d))" for w
    by (rule keepsI) (simp add: route_view_def)
  then have k: "keeps (\<lambda>c. route_view c = w)
      (m_seq (m_upd (\<lambda>c. c\<lparr>cl_data := map_option (cleanup_fragments now) (cl_data c)\<rparr>))
        (m_seq (m_upd (cl_write_status E now False))
        (m_seq (open_data_channel E)
         (\<lambda>d. if timed_out now d then (Inr False, d\<lparr>cl_connected := False\<rparr>) else (Inr True, d)))))" for w
    by (intro keeps_intro) simp_all
  from v show "route_view (snd (connect_turn E now c)) = v"
    unfolding connect_turn_def by (auto intro!: keepsD [OF k])
qed

lemma route_view_tun_readable:
  fixes E :: "('c, 'k, 's, 'p) client_env"
  shows "keeps (\<lambda>c. route_view c = v) (client_tun_readable E rnd queued)"
proof (rule keepsI)
  fix c :: "('c, 's, 'p) vpn_client" assume v: "route_view c = v"
  have k: "keeps (\<lambda>c. route_view c = w) (m_bind (m_lift r) (m_for send_wire))" for r w
    by (intro keeps_intro)
  from v show "route_view (snd (client_tun_readable E rnd queued c)) = v"
    by (auto simp: client_tun_readable_def split: option.split sum.split exn.split prod.split
        intro!: keepsD [OF k])
qed

lemma route_view_close [simp]: "route_view (close_run E c) = route_view c"
proof -
  have "keeps (\<lambda>d. route_view d = route_view c) (cl_on_tun (\<lambda>t. (Inr (), tun_close (e_world E) t)))"
    by (intro keeps_intro)
  from keepsD [OF this refl] show ?thesis by (simp add: close_run_def)
qed

section \<open>The balance\<close>

lemma keeps_balanced_view:
  assumes "\<And>v. keeps (\<lambda>c. route_view c = v) m"
  shows "keeps balanced m"
  by (rule keepsI) (use keepsD [OF assms refl] in \<open>simp add: balanced_def\<close>)

lemma run_route_eq:
  "programs_start (e_world E) \<Longrightarrow> run_route E cmd c =
     (Inr (), c\<lparr>cl_os := (cl_os c)\<lparr>commands := commands (cl_os c) @ [cmd]\<rparr>, cl_routes := cl_routes c @ [cmd]\<rparr>)"
  using run_not_started [of "e_world E" cmd "cl_os c"]
  by (auto simp: run_route_def cl_on_os_def meth_defs)

lemma count_list_snoc: "count_list (xs @ ys) x = count_list xs x + count_list ys x"
  by (induction xs) auto

lemma run_route_balanced:
  fixes E :: "('c, 'k, 's, 'p) client_env"
  assumes "programs_start (e_world E)"
  shows "keeps balanced (run_route E (added x))"
proof (rule keepsI)
  fix c :: "('c, 's, 'p) vpn_client" assume "balanced c"
  then show "balanced (snd (run_route E (added x) c))"
    unfolding run_route_eq [OF assms] balanced_def route_view_def by (auto simp: count_list_snoc)
qed

lemma ip_assign_balanced:
  fixes E :: "('c, 'k, 's, 'p) client_env"
  assumes "programs_start (e_world E)"
  shows "keeps balanced (handle_ip_assign E now ip)"
proof (rule keepsI)
  fix c :: "('c, 's, 'p) vpn_client" assume b: "balanced c"
  let ?cfg = "cl_config c" and ?net = "server_prefix (cl_config c)"
  have r: "[''ip'', ''route'', ''add'', a] @ x = added (a # x)" for a x by (simp add: added_def)
  have u: "keeps balanced (m_upd f)"
    if "\<And>c. route_view (f c) = route_view c" for f :: "('c, 's, 'p) vpn_client \<Rightarrow> _"
    using that by (intro keeps_upd) (simp add: balanced_def)
  have t: "keeps balanced (cl_on_tun (set_ip (e_world E) s) :: (('c, 's, 'p) vpn_client, unit) meth)" for s
    by (intro keeps_balanced_view keeps_intro)
  have d: "keeps balanced (\<lambda>c. case maybe_drop_privileges (e_accounts E) u (cl_ident c) of
      (r, who) \<Rightarrow> (r, c\<lparr>cl_ident := who\<rparr>))" for u
    by (rule keepsI) (auto simp: balanced_def split: prod.split)
  note route = run_route_balanced [OF assms, of "a # x" for a x, unfolded added_def append.simps]
  show "balanced (snd (handle_ip_assign E now ip c))"
    unfolding handle_ip_assign_def Let_def
    by (rule keepsD [where I = balanced, OF _ b], intro keeps_seq u t keeps_if route d keeps_m) simp_all
qed

lemma control_balanced:
  "programs_start (e_world E) \<Longrightarrow> keeps balanced (client_control E now data)"
  unfolding client_control_def Let_def
  by (auto split: sum.split prod.split MessageType.split
      intro!: keeps_bind keeps_m keeps_for ip_assign_balanced keeps_balanced_view [OF route_view_on_session]
        keeps_balanced_view [OF route_view_send])

lemma datagram_balanced:
  fixes E :: "('c, 'k, 's, 'p) client_env"
  assumes "programs_start (e_world E)"
  shows "keeps balanced (client_datagram E now data)"
proof (rule keepsI)
  fix c :: "('c, 's, 'p) vpn_client" assume b: "balanced c"
  have 1: "keeps balanced (m_bind (cl_on_session m) (m_for client_sync_send)
      :: (('c, 's, 'p) vpn_client, unit) meth)" for m
    by (intro keeps_balanced_view keeps_intro)
  have 2: "keeps balanced (m_bind (m_lift r) (\<lambda>plain. if truthy plain
      then m_seq (cl_on_tun (tun_write (e_kernel E) (or_empty plain))) (m_return ())
      else m_return ()) :: (('c, 's, 'p) vpn_client, unit) meth)" for r
    by (intro keeps_balanced_view keeps_intro)
  from b show "balanced (snd (client_datagram E now data c))"
    by (auto simp: client_datagram_def Let_def balanced_def split: prod.split
        intro!: keepsD [OF 1, unfolded balanced_def] keepsD [OF 2, unfolded balanced_def]
          keepsD [OF control_balanced [OF assms], unfolded balanced_def])
qed

lemma cleanup_eq:
  assumes "programs_start (e_world E)"
  shows "client_cleanup E c =
    (Inr (), c\<lparr>cl_os := (cl_os c)\<lparr>commands := commands (cl_os c) @
        map undo_route (rev (cl_routes c))\<rparr>, cl_routes := []\<rparr>)"
proof -
  let ?f = "\<lambda>cmd. m_seq (cl_on_os (subprocess_run (e_world E) False (undo_route cmd))) (m_return ())"
  have f: "?f r d = (Inr (), d\<lparr>cl_os := (cl_os d)\<lparr>commands := commands (cl_os d) @ [undo_route r]\<rparr>\<rparr>)"
    for r and d :: "('a, 'c, 'd) vpn_client"
    using run_not_started [OF assms, of "undo_route r" "cl_os d"]
    by (auto simp: meth_defs cl_on_os_def)
  have "m_for ?f rs d =
      (Inr (), d\<lparr>cl_os := (cl_os d)\<lparr>commands := commands (cl_os d) @ map undo_route rs\<rparr>\<rparr>)"
    for rs and d :: "('a, 'c, 'd) vpn_client"
    by (induction rs arbitrary: d) (simp_all add: f)
  then show ?thesis by (simp add: client_cleanup_def meth_defs)
qed

lemma undo_added [simp]: "undo_route (added x) = deleted x"
  by (simp add: undo_route_def deleted_def)

lemma count_deleted:
  assumes "\<forall>r \<in> set rs. \<exists>x. r = added x"
  shows "count_list (map undo_route rs) (deleted x) = count_list rs (added x) \<and>
    count_list (map undo_route rs) (added x) = 0 \<and>
    filter is_route (map undo_route rs) = map undo_route rs"
  using assms by (induction rs) auto

lemma count_list_rev: "count_list (rev xs) x = count_list xs x"
  by (induction xs) (auto simp: count_list_snoc)

lemma cleanup_balanced:
  assumes "programs_start (e_world E)" and "balanced c"
  shows "balanced (snd (client_cleanup E c)) \<and> cl_routes (snd (client_cleanup E c)) = []"
proof -
  from assms(2) have "\<forall>r \<in> set (rev (cl_routes c)). \<exists>x. r = added x"
    by (simp add: balanced_def route_view_def)
  note d = count_deleted [OF this]
  from assms(2) show ?thesis
    unfolding cleanup_eq [OF assms(1)] balanced_def route_view_def
    by (simp add: count_list_snoc count_list_rev d del: rev_map)
qed

lemma balanced_view: "route_view d = route_view c \<Longrightarrow> balanced d = balanced c"
  by (simp add: balanced_def)

lemma routes_view: "route_view d = route_view c \<Longrightarrow> cl_routes d = cl_routes c"
  by (simp add: route_view_def)

lemma connect_end_balanced:
  assumes "programs_start (e_world E)" and "balanced c"
  shows "balanced (snd (connect_end E c)) \<and> cl_routes (snd (connect_end E c)) = []"
proof -
  let ?d = "snd (client_cleanup E c)"
  have k: "keeps (\<lambda>d. route_view d = v) (m_seq (cl_on_tun (\<lambda>t. (tun_fileno t, t)))
      (m_upd (\<lambda>c. case cl_status c of
                    None \<Rightarrow> c | Some s \<Rightarrow> c\<lparr>cl_files := close_status (e_disk E) s (cl_files c)\<rparr>)))" for v
    by (intro keeps_intro) (auto split: option.split)
  have "route_view (snd (connect_end E c)) = route_view ?d"
    using keepsD [OF k refl, of ?d] cleanup_eq [OF assms(1), of c]
    by (simp add: connect_end_def m_seq_def [of "client_cleanup E"] m_bind_def [of "client_cleanup E"])
  from balanced_view [OF this] routes_view [OF this] cleanup_balanced [OF assms] show ?thesis by simp
qed

lemma after_connect_view: "after_connect E c = (p, d) \<Longrightarrow> route_view d = route_view c \<and> p \<noteq> Looping"
  by (auto simp: after_connect_def split: if_splits)

lemma attempt_view: "attempt E sid sk now conn drained c = (p, d) \<Longrightarrow> route_view d = route_view c"
proof -
  have k: "keeps (\<lambda>d. route_view d = v) (m_seq (begin_attempt E sid sk now) (connect E conn drained))" for v
    by (intro keeps_seq route_view_begin route_view_connect)
  obtain r u where u: "m_seq (begin_attempt E sid sk now) (connect E conn drained) c = (r, u)" by fastforce
  from keepsD [OF k refl, of c] u have "route_view u = route_view c" by simp
  then show "attempt E sid sk now conn drained c = (p, d) \<Longrightarrow> route_view d = route_view c"
    using u by (auto simp: attempt_def split: if_splits sum.splits bool.splits dest: after_connect_view)
qed

lemma turn_balanced:
  assumes "programs_start (e_world E)" and "balanced c" and "turn E now c = (p, d)"
  shows "balanced d \<and> (p \<noteq> Looping \<longrightarrow> cl_routes d = [])"
proof -
  obtain r u where u: "connect_turn E now c = (r, u)" by fastforce
  have b: "balanced u" using assms(2) balanced_view keepsD [OF route_view_turn refl, of E now c] u by force
  obtain q v where v: "connect_end E u = (q, v)" by fastforce
  from connect_end_balanced [OF assms(1) b] v have bv: "balanced v" "cl_routes v = []" by simp_all
  have same: "balanced w \<and> cl_routes w = []" if "route_view w = route_view v" for w
    using that bv balanced_view routes_view by metis
  show ?thesis
    using assms(3) u v b same
    by (auto simp: turn_def split: sum.splits bool.splits dest!: after_connect_view)
qed

lemma client_reach_balanced:
  "client_reach E p c \<Longrightarrow> programs_start (e_world E) \<Longrightarrow>
     balanced c \<and> (p \<noteq> Looping \<longrightarrow> cl_routes c = [])"
proof (induction rule: client_reach.induct)
  case (cr_new s cfg sid sk now fs who)
  then show ?case by (simp add: new_client_def balanced_def route_view_def)
next
  case (cr_attempt c sid sk now conn p d)
  from attempt_view [OF cr_attempt.hyps(2)] cr_attempt.IH [OF cr_attempt.prems] show ?case
    using balanced_view routes_view by (metis phase.distinct(1))
next
  case (cr_turn c now p d)
  with turn_balanced show ?case by blast
next
  case (cr_datagram c now data r d)
  then show ?case using keeps_step [OF datagram_balanced] by blast
next
  case (cr_tun c rnd queued r d)
  then show ?case using keeps_step [OF keeps_balanced_view [OF route_view_tun_readable]] by blast
next
  case (cr_stop p c)
  then show ?case by (simp add: client_stop_def balanced_def)
qed

text \<open>
  Claim C18. The client cleans up after itself: on a machine where programs can be started, in
  every reachable state every route the process has added is either still on its list or has
  been deleted as often as it was added; and whenever \<^verbatim>\<open>run\<close> is back at its retry loop or has
  returned, the list is empty, so additions and deletions match exactly.
\<close>

theorem client_routes_balanced:
  assumes "client_reach E p c" and "programs_start (e_world E)"
  shows "(\<forall>x. count_list (commands (cl_os c)) (added x) =
      count_list (commands (cl_os c)) (deleted x) + count_list (cl_routes c) (added x)) \<and>
    (p \<noteq> Looping \<longrightarrow>
      (\<forall>x. count_list (commands (cl_os c)) (added x) = count_list (commands (cl_os c)) (deleted x)))"
proof -
  from client_reach_balanced [OF assms] have b: "balanced c" and r: "p \<noteq> Looping \<longrightarrow> cl_routes c = []"
    by simp_all
  from balanced_commands [OF b] r show ?thesis by simp
qed

section \<open>Address assignment\<close>

definition all_succeed :: "world \<Rightarrow> bool" where
  "all_succeed W \<longleftrightarrow> (\<forall>cs cmd. \<exists>out err. sh W cs cmd = Exited 0 out err)"

lemma run_succeeds:
  "all_succeed W \<Longrightarrow> \<exists>out. subprocess_run W chk cmd s = (Inr out, s\<lparr>commands := commands s @ [cmd]\<rparr>)"
proof -
  assume "all_succeed W"
  then obtain out err where "sh W (commands s) cmd = Exited 0 out err" unfolding all_succeed_def by blast
  then show ?thesis by (simp add: subprocess_run_def run_proc_def)
qed

lemma all_succeed_start: "all_succeed W \<Longrightarrow> programs_start W"
  unfolding all_succeed_def programs_start_def by metis

lemma tun_run_succeeds:
  "all_succeed W \<Longrightarrow> tun_run W chk cmd t =
     (Inr (), t\<lparr>tun_os := (tun_os t)\<lparr>commands := commands (tun_os t) @ [cmd]\<rparr>\<rparr>)"
  using run_succeeds [of W chk cmd "tun_os t"] by (auto simp: tun_run_def)

lemma split_pieces: "\<forall>w \<in> set (split_by p s). \<forall>x \<in> set w. \<not> p x"
proof (induction s)
  case (Cons a s)
  then show ?case by (cases "split_by p s") auto
qed simp

lemma split_by_nonempty: "split_by p s \<noteq> []"
proof (induction s)
  case (Cons a s)
  then show ?case by (cases "split_by p s") auto
qed simp

lemma split_second:
  assumes "c \<in> set s"
  shows "c \<notin> set (split_on c s ! 1)"
proof -
  from split_list_first [OF assms] obtain a b where s: "s = a @ c # b" and a: "c \<notin> set a" by blast
  then have e: "split_on c s = a # split_on c b"
    unfolding split_on_def s by (intro split_by_append) auto
  obtain w ws where w: "split_on c b = w # ws"
    using split_by_nonempty [of "(=) c" b] unfolding split_on_def neq_Nil_conv by blast
  with split_pieces [of "(=) c" b] have "c \<notin> set w" by (auto simp: split_on_def)
  with e w show ?thesis by simp
qed

lemma split_cidr:
  assumes "CHR ''/'' \<notin> set ip"
  shows "\<exists>p. assigned_cidr cfg ip = ip @ ''/'' @ p \<and> split_on (CHR ''/'') (assigned_cidr cfg ip) = [ip, p]"
proof -
  let ?p = "if truthy (s_ifconfig cfg) \<and> CHR ''/'' \<in> set (or_empty (s_ifconfig cfg))
    then split_on (CHR ''/'') (or_empty (s_ifconfig cfg)) ! 1 else ''24''"
  define q where "q = ?p"
  have "CHR ''/'' \<notin> set q" using split_second by (simp add: q_def)
  with assms have "split_on (CHR ''/'') (ip @ CHR ''/'' # q) = [ip, q]"
    unfolding split_on_def
    by (subst split_by_append) (auto intro: split_by_none)
  moreover have "assigned_cidr cfg ip = ip @ CHR ''/'' # q"
    using assms by (simp add: assigned_cidr_def q_def)
  ultimately show ?thesis by (metis append_Cons append_Nil)
qed

lemma write_status_frame [simp]:
  "cl_running (cl_write_status E now force c) = cl_running c"
  "cl_session (cl_write_status E now force c) = cl_session c"
  "cl_handshake_done (cl_write_status E now force c) = cl_handshake_done c"
  "cl_tun (cl_write_status E now force c) = cl_tun c"
  "cl_os (cl_write_status E now force c) = cl_os c"
  "cl_config (cl_write_status E now force c) = cl_config c"
  "cl_last_seen (cl_write_status E now force c) = cl_last_seen c"
  "cl_routes (cl_write_status E now force c) = cl_routes c"
  "cl_outbox (cl_write_status E now force c) = cl_outbox c"
  "cl_assigned_ip (cl_write_status E now force c) = cl_assigned_ip c"
  "cl_data (cl_write_status E now force c) = cl_data c"
  "cl_transport (cl_write_status E now force c) = cl_transport c"
  "cl_writer (cl_write_status E now force c) = cl_writer c"
  "cl_connected (cl_write_status E now force c) = cl_connected c"
  "cl_ident (cl_write_status E now force c) = cl_ident c"
  by (auto simp: cl_write_status_def split: option.split prod.split)

text \<open>The parts of a client that an assignment does not touch.\<close>

definition same_client :: "('c, 's, 'p) vpn_client \<Rightarrow> ('c, 's, 'p) vpn_client \<Rightarrow> bool" where
  "same_client c d \<longleftrightarrow> cl_session d = cl_session c \<and> cl_data d = cl_data c \<and> cl_config d = cl_config c \<and>
     cl_running d = cl_running c \<and> cl_handshake_done d = cl_handshake_done c \<and>
     cl_transport d = cl_transport c \<and> cl_writer d = cl_writer c \<and> cl_outbox d = cl_outbox c \<and> cl_last_seen d = cl_last_seen c \<and>
     map_option tun_fd (cl_tun d) = map_option tun_fd (cl_tun c)"

text \<open>What an accepted assignment leaves in the client and runs on the machine.\<close>

lemma ip_assign_effect:
  assumes W: "all_succeed (e_world E)" and ip: "CHR ''/'' \<notin> set ip"
    and t: "cl_tun c = Some t" and u: "s_user (cl_config c) = None"
  shows "\<exists>d. handle_ip_assign E now ip c = (Inr (), d) \<and> cl_assigned_ip d = Some ip \<and> cl_connected d \<and>
    same_client c d \<and> commands (cl_os d) = commands (cl_os c) @
      [[''ip'', ''addr'', ''add'', assigned_cidr (cl_config c) ip, ''dev'', tun_name t],
       [''ip'', ''link'', ''set'', tun_name t, ''up''],
       added [server_prefix (cl_config c) @ ''.0/24'', ''dev'', s_dev (cl_config c)]] @
      (if s_redirect (cl_config c)
       then [added [''default'', ''via'', server_prefix (cl_config c) @ ''.1'', ''dev'', s_dev (cl_config c),
               ''metric'', ''50'']] else [])"
proof -
  let ?c = "cl_write_status E now True (c\<lparr>cl_assigned_ip := Some ip, cl_connected := True\<rparr>)"
  have f: "cl_tun ?c = Some t" "cl_os ?c = cl_os c" "cl_assigned_ip ?c = Some ip" "cl_connected ?c"
    "cl_session ?c = cl_session c" "cl_config ?c = cl_config c"
    using t by (auto simp: cl_write_status_def split: option.split prod.split)
  from split_cidr [OF ip] obtain p where p: "split_on (CHR ''/'') (assigned_cidr (cl_config c) ip) = [ip, p]"
    by blast
  have m: "maybe_drop_privileges A None who = (Inr (), who)" for A who
    by (simp add: maybe_drop_privileges_def)
  show ?thesis
    using f p
    by (simp add: handle_ip_assign_def Let_def meth_defs cl_on_tun_def set_ip_def tun_run_succeeds [OF W]
        run_route_eq [OF all_succeed_start [OF W]] u m added_def same_client_def)
qed

lemma ip_assign_datagram:
  assumes "length sid = 8" and "utf8_decode body = Inr ip"
  shows "client_datagram E now (3 # sid @ 6 # body) c =
    handle_ip_assign E now ip (c\<lparr>cl_last_seen := now,
      cl_status := map_option (record_in (length (3 # sid @ 6 # body))) (cl_status c)\<rparr>)"
proof -
  have "decode_packet (3 # sid @ 6 # body) = Inr (CONTROL, of_be sid, 6 # body)"
    using assms(1) by (simp add: decode_packet_Cons opcode_of_def)
  then show ?thesis
    using assms(2) by (simp add: client_datagram_def client_control_def Let_def msg_of_def meth_defs)
qed

text \<open>
  Claim C26. Anyone who can reach the client's socket configures its machine: whatever the
  state of the handshake and whether or not certificates are configured, an \<^verbatim>\<open>IP_ASSIGN\<close>
  packet, which carries no authentication, makes the client take any text without a slash as
  its address, consider itself connected, and run the commands that set the address and the
  routes, the default route included when \<^verbatim>\<open>redirect-gateway\<close> is set.
\<close>

theorem ip_assign_unauthenticated:
  assumes "all_succeed (e_world E)" and "cl_tun c = Some t" and "s_user (cl_config c) = None"
    and "length sid = 8" and "utf8_decode body = Inr ip" and "CHR ''/'' \<notin> set ip"
    and "client_datagram E now (3 # sid @ 6 # body) c = (r, d)"
  shows "r = Inr () \<and> cl_assigned_ip d = Some ip \<and> cl_connected d \<and> cl_session d = cl_session c \<and>
    commands (cl_os d) = commands (cl_os c) @
      [[''ip'', ''addr'', ''add'', assigned_cidr (cl_config c) ip, ''dev'', tun_name t],
       [''ip'', ''link'', ''set'', tun_name t, ''up''],
       added [server_prefix (cl_config c) @ ''.0/24'', ''dev'', s_dev (cl_config c)]] @
      (if s_redirect (cl_config c)
       then [added [''default'', ''via'', server_prefix (cl_config c) @ ''.1'', ''dev'', s_dev (cl_config c),
               ''metric'', ''50'']] else [])"
proof -
  let ?n = "length (3 # sid @ 6 # body)"
  let ?c = "c\<lparr>cl_last_seen := now, cl_status := map_option (record_in ?n) (cl_status c)\<rparr>"
  from assms(2,3) have "cl_tun ?c = Some t" "s_user (cl_config ?c) = None" by simp_all
  note eff = ip_assign_effect [OF assms(1,6) this, of now]
  from ip_assign_datagram [OF assms(4,5), of E now c] assms(7) eff show ?thesis
    by (auto simp: same_client_def)
qed

section \<open>Giving up a connection\<close>

text \<open>Turns of the main loop at the given times, as long as it goes on.\<close>

fun turns ::
  "('c, 'k, 's, 'p) client_env \<Rightarrow> real list \<Rightarrow> ('c, 's, 'p) vpn_client \<Rightarrow>
   phase \<times> ('c, 's, 'p) vpn_client" where
  "turns E [] c = (Looping, c)"
| "turns E (t # ts) c =
     (case turn E t c of (Looping, d) \<Rightarrow> turns E ts d | (p, d) \<Rightarrow> (p, d))"

lemma turn_waiting:
  assumes "cl_running c" and "\<not> is_established (cl_session c)" and "\<not> cl_handshake_done c"
  shows "\<exists>d. turn E now c = (Looping, d) \<and> cl_running d \<and> cl_session d = cl_session c \<and>
    \<not> cl_handshake_done d \<and> cl_outbox d = cl_outbox c"
  using assms by (simp add: turn_def connect_turn_def meth_defs open_data_channel_def timed_out_def)

text \<open>
  Claim C28. A handshake that never completes is never given up: as long as no message
  establishes the session, the main loop goes on for any number of turns, however much time
  passes between them, without sending anything again; a lost reset or hello is not repeated
  and the client does not return to its retry loop.
\<close>

theorem no_handshake_timeout:
  assumes "cl_running c" and "\<not> is_established (cl_session c)" and "\<not> cl_handshake_done c"
  shows "\<exists>d. turns E nows c = (Looping, d) \<and> cl_session d = cl_session c \<and> cl_outbox d = cl_outbox c"
  using assms
proof (induction nows arbitrary: c)
  case (Cons t nows)
  from turn_waiting [OF Cons.prems, of E t] obtain d where d: "turn E t c = (Looping, d)"
    "cl_running d" "cl_session d = cl_session c" "\<not> cl_handshake_done d" "cl_outbox d = cl_outbox c"
    by blast
  from Cons.IH [of d] d Cons.prems(2) show ?case by simp
qed simp

lemma turn_timed_out:
  assumes W: "programs_start (e_world E)" and c: "cl_running c" "cl_handshake_done c"
    and late: "real_of_int (s_timeout (cl_config c)) < now - cl_last_seen c"
    and t: "cl_tun c = Some t" "tun_fd t = Some fd"
  shows "\<exists>d. turn E now c = (Top, d) \<and> cl_running d \<and> \<not> cl_connected d \<and> cl_routes d = [] \<and>
    cl_config d = cl_config c \<and> cl_outbox d = cl_outbox c \<and> (\<exists>u. cl_tun d = Some u \<and> tun_fd u = Some fd)"
proof -
  let ?d = "(cl_write_status E now False (c\<lparr>cl_data := map_option (cleanup_fragments now) (cl_data c)\<rparr>))
    \<lparr>cl_connected := False\<rparr>"
  have "connect_turn E now c = (Inr False, ?d)"
    using c late by (simp add: connect_turn_def meth_defs open_data_channel_def timed_out_def)
  moreover have "\<exists>e. connect_end E ?d = (Inr (), e) \<and> cl_running e \<and> \<not> cl_connected e \<and>
    cl_routes e = [] \<and> cl_config e = cl_config c \<and> cl_outbox e = cl_outbox c \<and>
    (\<exists>u. cl_tun e = Some u \<and> tun_fd u = Some fd)"
    using c t by (auto simp: connect_end_def cleanup_eq [OF W] meth_defs cl_on_tun_def tun_fileno_def
        split: option.split)
  ultimately show ?thesis by (auto simp: turn_def after_connect_def)
qed

lemma configure_fresh:
  assumes "file_bytes P cert \<noteq> None"
  shows "\<exists>u. configure P ca cert key s = (Inr (), u) \<and> session_id u = session_id s \<and>
    cipher u = cipher s"
  using assms by (auto simp: configure_def Let_def read_file_def)

lemma begin_restarts:
  assumes "cl_tun c = Some t" and files: "authenticated_mode (cl_config c) \<longrightarrow>
      file_bytes (e_pki E) (or_empty (s_cert (cl_config c))) \<noteq> None"
  shows "\<exists>u. begin_attempt E sid sk now c = (Inr (), c\<lparr>cl_running := True, cl_handshake_done := False,
      cl_assigned_ip := None, cl_data := None, cl_session := u\<rparr>) \<and> session_id u = sid \<and> cipher u = None"
proof -
  let ?s = "new_session (e_pki E) False sid sk now" and ?cfg = "cl_config c"
  have s: "session_id ?s = sid" "cipher ?s = None"
    by (simp_all add: new_session_def generate_ephemeral_keypair_def)
  show ?thesis
  proof (cases "authenticated_mode ?cfg")
    case True
    with files obtain u where "configure (e_pki E) (or_empty (s_ca ?cfg)) (or_empty (s_cert ?cfg))
        (or_empty (s_key ?cfg)) ?s = (Inr (), u)" "session_id u = sid" "cipher u = None"
      using configure_fresh s by metis
    with True assms(1) show ?thesis
      by (intro exI [of _ u]) (simp add: begin_attempt_def meth_defs cl_on_session_def)
  next
    case False
    with assms(1) s show ?thesis by (intro exI [of _ ?s]) (simp add: begin_attempt_def meth_defs)
  qed
qed

lemma attempt_restarts:
  assumes c: "truthy (s_remote (cl_config c))" "\<not> cl_connected c" "\<not> client_is_tcp (cl_config c)"
    and t: "cl_tun c = Some t" "tun_fd t = Some fd" and sid: "length sid = 8"
    and files: "authenticated_mode (cl_config c) \<longrightarrow>
      file_bytes (e_pki E) (or_empty (s_cert (cl_config c))) \<noteq> None"
  shows "\<exists>e. attempt E sid sk now (Inr ()) dr c = (Looping, e) \<and> state (cl_session e) = RESET_SENT \<and>
    cipher (cl_session e) = None \<and> cl_data e = None \<and>
    cl_assigned_ip e = None \<and> cl_outbox e = cl_outbox c @ [1 # sid]"
proof -
  have "of_be sid < 256 ^ 8" using of_be_bound [of sid] sid by simp
  moreover have "be_bytes 8 (of_be sid) = sid" using sid by (rule be_bytes_of_be_length)
  ultimately have e: "encode_packet HARD_RESET_CLIENT (of_be sid) [] = Inr (1 # sid)"
    by (simp add: encode_packet_eq)
  from begin_restarts [OF t(1) files, of sid sk now] obtain u where
    u: "begin_attempt E sid sk now c = (Inr (), c\<lparr>cl_running := True, cl_handshake_done := False,
      cl_assigned_ip := None, cl_data := None, cl_session := u\<rparr>)" "session_id u = sid" "cipher u = None"
    by blast
  show ?thesis
    using c t e u(2,3)
    by (simp add: attempt_def m_seq_def [of "begin_attempt E sid sk now"]
        m_bind_def [of "begin_attempt E sid sk now"] u(1) connect_def meth_defs cl_on_session_def
        cl_on_tun_def tun_fileno_def client_start_handshake_def client_sync_send_def)
qed

text \<open>
  Claim C19. An established connection that falls silent is retried: the first turn later than
  the keepalive timeout after the last packet leaves the main loop with the routes removed and
  the device kept open, and the next attempt, if its socket opens, starts a new handshake: a
  new session, no key, no address, and a reset with the new session id on the wire.
\<close>

theorem silent_connection_retried:
  assumes "programs_start (e_world E)" and "cl_running c" and "cl_handshake_done c"
    and "real_of_int (s_timeout (cl_config c)) < now - cl_last_seen c"
    and "cl_tun c = Some t" and "tun_fd t = Some fd"
    and "truthy (s_remote (cl_config c))" and "\<not> client_is_tcp (cl_config c)"
    and "authenticated_mode (cl_config c) \<longrightarrow>
      file_bytes (e_pki E) (or_empty (s_cert (cl_config c))) \<noteq> None"
    and "length sid = 8"
  shows "\<exists>d e. turn E now c = (Top, d) \<and> cl_routes d = [] \<and> \<not> cl_connected d \<and>
    attempt E sid sk later (Inr ()) drained d = (Looping, e) \<and> state (cl_session e) = RESET_SENT \<and>
    cipher (cl_session e) = None \<and> cl_data e = None \<and> cl_assigned_ip e = None \<and>
    cl_outbox e = cl_outbox c @ [1 # sid]"
proof -
  from turn_timed_out [OF assms(1-6)] obtain d u where d: "turn E now c = (Top, d)"
    "\<not> cl_connected d" "cl_routes d = []" "cl_config d = cl_config c" "cl_outbox d = cl_outbox c"
    and u: "cl_tun d = Some u" "tun_fd u = Some fd" by blast
  from attempt_restarts [OF _ d(2) _ u assms(10), of E sk later] assms(7-9) d show ?thesis by auto
qed

section \<open>Concrete runs\<close>

definition toy_client_settings :: settings where
  "toy_client_settings =
     \<lparr>s_dev = ''tun'', s_proto = ''udp'', s_port = 1194, s_remote = Some ''192.0.2.1'', s_ifconfig = None,
      s_server = None, s_pool = None, s_ca = None, s_cert = None, s_key = None, s_comp_lzo = False,
      s_interval = 10, s_timeout = 120, s_redirect = True, s_status = None, s_user = None\<rparr>"

definition toy_client_env :: "(bytes, bytes, 256 word, 256 word) client_env" where
  "toy_client_env =
     \<lparr>e_pki = toy_pki, e_prims = toy_prims, e_world = quiet_world,
      e_kernel = \<lparr>has_fcntl = True, path_exists = (\<lambda>_. True), os_open = (\<lambda>_. Inr 3),
        ioctl_tunsetiff = (\<lambda>_ _. Inr ()), os_write = (\<lambda>_ p. Inr (length p))\<rparr>,
      e_accounts = \<lparr>getpwnam = (\<lambda>_. None), getgrnam = (\<lambda>_. None)\<rparr>, e_drain = (\<lambda>_ _. Inr ()),
      e_disk = toy_disk, e_fmt = (\<lambda>_. [])\<rparr>"

definition toy_start :: "(bytes, 256 word, 256 word) vpn_client" where
  "toy_start = new_client toy_pki toy_client_settings (replicate 8 1) 11 0 empty_os (\<lambda>_. None)
     \<lparr>euid = 0, egid = 0, groups = [], can_setgroups = True, can_setgid = True, can_setuid = True, environ = []\<rparr>"

lemma toy_world [simp]: "all_succeed (e_world toy_client_env)" "programs_start (e_world toy_client_env)"
proof -
  show a: "all_succeed (e_world toy_client_env)"
    by (simp add: all_succeed_def toy_client_env_def quiet_world_def)
  then show "programs_start (e_world toy_client_env)" by (rule all_succeed_start)
qed

lemma toy_attempt:
  "\<exists>e t. attempt toy_client_env (replicate 8 2) 11 1 (Inr ()) (Inr ()) toy_start = (Looping, e) \<and>
     cl_running e \<and> cl_config e = toy_client_settings \<and> cl_tun e = Some t \<and> tun_fd t = Some 3 \<and>
     \<not> is_established (cl_session e) \<and> \<not> cl_handshake_done e \<and> cl_last_seen e = 0 \<and>
     commands (cl_os e) = [[''ip'', ''link'', ''delete'', ''tun''], [''ip'', ''link'', ''set'', ''tun'', ''mtu'', str_nat 1500]]"
proof -
  have "of_be (replicate 8 (2 :: byte)) < 256 ^ 8" using of_be_bound [of "replicate 8 (2 :: byte)"] by simp
  then have e: "\<exists>w. encode_packet HARD_RESET_CLIENT (of_be (replicate 8 2)) [] = Inr w"
    by (simp add: encode_packet_eq)
  have d: "subprocess_run quiet_world chk cmd s = (Inr [], s\<lparr>commands := commands s @ [cmd]\<rparr>)" for chk cmd s
    by (simp add: subprocess_run_def run_proc_def quiet_world_def)
  have b: "begin_attempt toy_client_env (replicate 8 2) 11 1 toy_start =
    (Inr (), toy_start\<lparr>cl_running := True,
       cl_session := new_session toy_pki False (replicate 8 2) 11 1,
       cl_tun := Some \<lparr>tun_name = ''tun'', tun_fd = Some 3,
         tun_os = \<lparr>commands = [[''ip'', ''link'', ''delete'', ''tun''],
            [''ip'', ''link'', ''set'', ''tun'', ''mtu'', str_nat 1500]], written = []\<rparr>, tun_written = []\<rparr>,
       cl_os := \<lparr>commands = [[''ip'', ''link'', ''delete'', ''tun''],
            [''ip'', ''link'', ''set'', ''tun'', ''mtu'', str_nat 1500]], written = []\<rparr>\<rparr>)"
    by (simp add: begin_attempt_def meth_defs toy_start_def new_client_def toy_client_settings_def
        authenticated_mode_def toy_client_env_def cl_on_tun_def tun_open_def delete_existing_interface_def
        tun_run_def d Let_def new_tun_def empty_os_def set_mtu_def)
  have st: "cl_config toy_start = toy_client_settings" "\<not> cl_connected toy_start" "cl_last_seen toy_start = 0"
    "\<not> cl_handshake_done toy_start" "truthy (s_remote toy_client_settings)"
    "\<not> client_is_tcp toy_client_settings"
    by (simp_all add: toy_start_def new_client_def toy_client_settings_def client_is_tcp_def)
  show ?thesis using e st
    by (auto simp: attempt_def m_seq_def [of "begin_attempt E sid sk now" for E sid sk now]
        m_bind_def [of "begin_attempt E sid sk now" for E sid sk now] b connect_def meth_defs
        cl_on_session_def cl_on_tun_def tun_fileno_def client_start_handshake_def client_sync_send_def new_session_def
        generate_ephemeral_keypair_def is_established_def)
qed

lemma toy_assigned:
  "\<exists>d. client_reach toy_client_env Looping d \<and> cl_assigned_ip d = Some ''10.8.0.2'' \<and>
     count_list (commands (cl_os d)) (added [''10.8.0.0/24'', ''dev'', ''tun'']) = 1"
proof -
  from toy_attempt obtain e t where e:
    "attempt toy_client_env (replicate 8 2) 11 1 (Inr ()) (Inr ()) toy_start = (Looping, e)"
    "cl_config e = toy_client_settings" "cl_tun e = Some t"
    "commands (cl_os e) = [[''ip'', ''link'', ''delete'', ''tun''], [''ip'', ''link'', ''set'', ''tun'', ''mtu'', str_nat 1500]]"
    by blast
  have "client_reach toy_client_env Top toy_start"
    unfolding toy_start_def using cr_new [of empty_os toy_client_env]
    by (simp add: empty_os_def toy_client_env_def)
  then have r: "client_reach toy_client_env Looping e" using e(1) by (rule cr_attempt)
  have u: "utf8_decode (utf8_encode ''10.8.0.2'') = Inr ''10.8.0.2''"
    by (rule utf8_decode_encode_ascii) (simp add: of_char_def)
  have us: "s_user (cl_config e) = None" by (simp add: e(2) toy_client_settings_def)
  obtain q d where d: "client_datagram toy_client_env 2 (3 # replicate 8 0 @ 6 # utf8_encode ''10.8.0.2'') e =
    (q, d)" by fastforce
  let ?c = "e\<lparr>cl_last_seen := 2, cl_status := map_option
    (record_in (length (3 # replicate 8 0 @ 6 # utf8_encode ''10.8.0.2''))) (cl_status e)\<rparr>"
  have "cl_tun ?c = Some t" "s_user (cl_config ?c) = None" using e(3) us by simp_all
  from ip_assign_effect [OF toy_world(1) _ this, of "''10.8.0.2''" 2]
    ip_assign_datagram [OF _ u, of "replicate 8 0" toy_client_env 2 e] d
  have "cl_assigned_ip d = Some ''10.8.0.2''" and cmds: "commands (cl_os d) = commands (cl_os e) @
      [[''ip'', ''addr'', ''add'', assigned_cidr (cl_config e) ''10.8.0.2'', ''dev'', tun_name t],
       [''ip'', ''link'', ''set'', tun_name t, ''up''],
       added [server_prefix (cl_config e) @ ''.0/24'', ''dev'', s_dev (cl_config e)]] @
      (if s_redirect (cl_config e)
       then [added [''default'', ''via'', server_prefix (cl_config e) @ ''.1'', ''dev'', s_dev (cl_config e),
               ''metric'', ''50'']] else [])"
    by auto
  moreover have "server_prefix (cl_config e) = ''10.8.0''"
    by (simp add: e(2) server_prefix_def toy_client_settings_def before_last_def)
  ultimately show ?thesis
    using cr_datagram [OF r d] e(2,4) by (auto simp: added_def toy_client_settings_def)
qed

theorem client_routes_balanced_witness:
  "\<exists>c. client_reach toy_client_env Looping c \<and> cl_assigned_ip c = Some ''10.8.0.2'' \<and>
     count_list (commands (cl_os c)) (deleted [''10.8.0.0/24'', ''dev'', ''tun'']) +
       count_list (cl_routes c) (added [''10.8.0.0/24'', ''dev'', ''tun'']) = 1"
  using toy_assigned client_routes_balanced [OF _ toy_world(2)] by metis

theorem ip_assign_unauthenticated_witness:
  "\<exists>e r d. attempt toy_client_env (replicate 8 2) 11 1 (Inr ()) (Inr ()) toy_start = (Looping, e) \<and>
     \<not> is_established (cl_session e) \<and>
     client_datagram toy_client_env 2 (3 # replicate 8 0 @ 6 # utf8_encode ''10.8.0.2'') e = (r, d) \<and>
     r = Inr () \<and> cl_assigned_ip d = Some ''10.8.0.2'' \<and> cl_connected d"
proof -
  from toy_attempt obtain e t where e:
    "attempt toy_client_env (replicate 8 2) 11 1 (Inr ()) (Inr ()) toy_start = (Looping, e)"
    "cl_config e = toy_client_settings" "cl_tun e = Some t" "\<not> is_established (cl_session e)" by blast
  have u: "utf8_decode (utf8_encode ''10.8.0.2'') = Inr ''10.8.0.2''"
    by (rule utf8_decode_encode_ascii) (simp add: of_char_def)
  have us: "s_user (cl_config e) = None" by (simp add: e(2) toy_client_settings_def)
  obtain r d where d: "client_datagram toy_client_env 2 (3 # replicate 8 0 @ 6 # utf8_encode ''10.8.0.2'') e =
    (r, d)" by fastforce
  from ip_assign_unauthenticated [OF toy_world(1) e(3) us _ u _ d] e(1,4) d show ?thesis by auto
qed

theorem no_handshake_timeout_witness:
  "\<exists>e d. attempt toy_client_env (replicate 8 2) 11 1 (Inr ()) (Inr ()) toy_start = (Looping, e) \<and>
     turns toy_client_env [10, 1000, 100000] e = (Looping, d) \<and> cl_outbox d = cl_outbox e"
proof -
  from toy_attempt obtain e where e:
    "attempt toy_client_env (replicate 8 2) 11 1 (Inr ()) (Inr ()) toy_start = (Looping, e)" "cl_running e"
    "\<not> is_established (cl_session e)" "\<not> cl_handshake_done e" by blast
  from no_handshake_timeout [OF e(2-4), of toy_client_env "[10, 1000, 100000]"] e(1) show ?thesis by blast
qed

theorem silent_connection_retried_witness:
  "\<exists>e d u. attempt toy_client_env (replicate 8 2) 11 1 (Inr ()) (Inr ()) toy_start = (Looping, e) \<and>
     turn toy_client_env 121 (e\<lparr>cl_handshake_done := True\<rparr>) = (Top, d) \<and>
     attempt toy_client_env (replicate 8 3) 11 126 (Inr ()) (Inr ()) d = (Looping, u) \<and>
     state (cl_session u) = RESET_SENT"
proof -
  from toy_attempt obtain e t where e:
    "attempt toy_client_env (replicate 8 2) 11 1 (Inr ()) (Inr ()) toy_start = (Looping, e)" "cl_running e"
    "cl_config e = toy_client_settings" "cl_tun e = Some t" "tun_fd t = Some 3" "cl_last_seen e = 0" by blast
  from silent_connection_retried [OF toy_world(2), of "e\<lparr>cl_handshake_done := True\<rparr>" 121 t 3 "replicate 8 3" 11 126 "Inr ()"] e
  show ?thesis
    by (auto simp: toy_client_settings_def client_is_tcp_def authenticated_mode_def)
qed

end
