(* ===== verification/Flow.thy ===== *)
theory Flow
  imports Channel_Props
begin

text \<open>
  A sender's and a receiver's data channel with packets in flight between them: what is in
  flight will come out of the receiver, packet by packet and in order, whenever it arrives.
\<close>

section \<open>Channels in step\<close>

text \<open>
  The receiver holds the sender's key, has seen no id the sender has not used, and collects no
  fragments of a group the sender has not started, and its groups have one entry each.
\<close>

definition in_step :: "prims \<Rightarrow> data_channel \<Rightarrow> data_channel \<Rightarrow> bool" where
  "in_step P c1 c2 \<longleftrightarrow> dc_paired P c1 c2 \<and>
     (\<exists>A. window_rel A (replay c2) \<and> (\<forall>x\<in>A. x \<le> int (packet_counter c1))) \<and>
     (\<forall>g. map_of (fragments c2) g \<noteq> None \<longrightarrow> g \<le> int (packet_counter c1)) \<and>
     distinct (map fst (fragments c2))"

lemma in_stepI:
  assumes "dc_paired P c1 c2" and "window_rel A (replay c2)" and "\<forall>x\<in>A. x \<le> int (packet_counter c1)"
    and "\<forall>g. map_of (fragments c2) g \<noteq> None \<longrightarrow> g \<le> int (packet_counter c1)" and "distinct (map fst (fragments c2))"
  shows "in_step P c1 c2"
  using assms unfolding in_step_def by blast

lemma in_stepE:
  assumes "in_step P c1 c2"
  obtains A where "dc_paired P c1 c2" and "window_rel A (replay c2)" and "\<forall>x\<in>A. x \<le> int (packet_counter c1)"
    and "\<forall>g. map_of (fragments c2) g \<noteq> None \<longrightarrow> g \<le> int (packet_counter c1)" and "distinct (map fst (fragments c2))"
  using assms unfolding in_step_def by blast

text \<open>A packet as an IP stack hands it out: the version nibble first, and no longer than one read.\<close>

definition ip_packet :: "bytes \<Rightarrow> bool" where
  "ip_packet p \<longleftrightarrow> p \<noteq> [] \<and> length p \<le> 65536 \<and> hd p AND FRAG_MASK = 0"

text \<open>
  The wires in the second argument, delivered in order at any times, are opened by the channel
  without an exception; the plaintexts that come out are the packets in the third, and then the
  channel is in step with the sender.
\<close>

fun flow :: "prims \<Rightarrow> data_channel \<Rightarrow> bytes list \<Rightarrow> bytes list \<Rightarrow> data_channel \<Rightarrow> bool" where
  "flow P c2 [] ps c1 \<longleftrightarrow> ps = [] \<and> in_step P c1 c2"
| "flow P c2 (w # ws) ps c1 \<longleftrightarrow>
     w \<noteq> [] \<and> unat (hd w) = opcode_val DATA \<and> length w < 65536 \<and>
     (\<forall>now. \<exists>r ch. decrypt P now w c2 = (Inr r, ch) \<and>
        (case r of
           None \<Rightarrow> flow P ch ws ps c1
         | Some p \<Rightarrow> p \<noteq> [] \<and> ps \<noteq> [] \<and> p = hd ps \<and> flow P ch ws (tl ps) c1))"

lemma flow_append:
  assumes "\<And>c. in_step P c1 c \<Longrightarrow> flow P c vs qs d"
  shows "flow P c2 ws ps c1 \<Longrightarrow> flow P c2 (ws @ vs) (ps @ qs) d"
proof (induction ws arbitrary: c2 ps)
  case (Cons w ws)
  have "\<exists>r ch. decrypt P now w c2 = (Inr r, ch) \<and>
      (case r of None \<Rightarrow> flow P ch (ws @ vs) (ps @ qs) d
       | Some p \<Rightarrow> p \<noteq> [] \<and> ps @ qs \<noteq> [] \<and> p = hd (ps @ qs) \<and> flow P ch (ws @ vs) (tl (ps @ qs)) d)" for now
  proof -
    from Cons.prems obtain r ch where "decrypt P now w c2 = (Inr r, ch)"
      "case r of None \<Rightarrow> flow P ch ws ps c1
       | Some p \<Rightarrow> p \<noteq> [] \<and> ps \<noteq> [] \<and> p = hd ps \<and> flow P ch ws (tl ps) c1"
      unfolding flow.simps by blast
    then show ?thesis using Cons.IH by (auto split: option.splits)
  qed
  with Cons.prems show ?case by simp
qed (use assms in simp)

lemma in_step_new:
  assumes "new_data_channel P x y (Some c) lzo 64 = Inr c1" and "new_data_channel P y x (Some c) lzo' 64 = Inr c2"
    and "cipher_wf c" and "length x = 8" and "length y = 8"
  shows "in_step P c1 c2"
proof -
  from assms have "dc_paired P c1 c2"
    by (auto simp: new_data_channel_def res_bind_Inr_iff dc_paired_def derive_session_id_sym [of x y])
      (simp add: derive_session_id_def)
  moreover have "window_rel {} (replay c2)" "fragments c2 = []"
    using assms(2) by (auto simp: new_data_channel_def res_bind_Inr_iff intro: window_rel_empty)
  ultimately show ?thesis unfolding in_step_def by auto
qed

section \<open>One plaintext\<close>

lemma reassemble_groups:
  assumes "reassemble now (start + i) (FRAG_MASK # t # word_of_nat i # raw) ch = (r, d)" and "i < 256"
  shows "g \<noteq> int start \<Longrightarrow> map_of (fragments d) g = map_of (fragments ch) g"
    and "distinct (map fst (fragments ch)) \<Longrightarrow> distinct (map fst (fragments d))"
  using assms
  by (auto simp: reassemble_def add_fragment_def Let_def unat_of_nat take_bit_eq_mod map_of_update map_of_delete
      distinct_update distinct_delete split: if_splits sum.splits)

text \<open>
  A fragment that passes the replay window joins those of its group; the last one returns the
  plaintext and removes the group.
\<close>

lemma fragment_received:
  assumes P: "aead_ok P" "lz4_ok P" and pr: "dc_paired P c1 c2" and n: "length n = 12"
    and w: "encrypt_one P n c1 (FRAG_MASK # word_of_nat tot # word_of_nat i # chunk pt i) (start + i) = Inr w"
    and rw: "check (int (start + i)) (replay c2) = (True, rw)"
    and tot: "tot = num_frags (length pt)" "tot < 256"
    and i: "i < tot" "i \<notin> I" "I \<subseteq> {..<tot}"
    and c: "collecting c2 start tot (chunk pt) I" and d: "distinct (map fst (fragments c2))"
  obtains frs where "decrypt P now w c2 =
      (Inr (if insert i I = {..<tot} then Some pt else None), c2\<lparr>replay := rw, fragments := frs\<rparr>)"
    and "collecting (c2\<lparr>replay := rw, fragments := frs\<rparr>) start tot (chunk pt)
      (if insert i I = {..<tot} then {} else insert i I)"
    and "\<forall>g. g \<noteq> int start \<longrightarrow> map_of frs g = map_of (fragments c2) g" and "distinct (map fst frs)"
proof -
  let ?p = "FRAG_MASK # word_of_nat tot # word_of_nat i # chunk pt i"
  have dec: "decrypt P now w c2 = reassemble now (start + i) ?p (c2\<lparr>replay := rw\<rparr>)"
    by (rule decrypt_encrypt_one [OF P pr n w rw])
  have ch: "chunk pt i \<noteq> []" using i(1) tot(1) chunk_nonempty by blast
  from reassemble_collect [of "c2\<lparr>replay := rw\<rparr>" start tot "chunk pt" I i ?p now, OF _ i tot(2) ch refl] c
  obtain frs where re: "reassemble now (start + i) ?p (c2\<lparr>replay := rw\<rparr>) =
      (Inr (if insert i I = {..<tot} then Some (concat (map (chunk pt) [0..<tot])) else None),
       c2\<lparr>replay := rw, fragments := frs\<rparr>)"
    and col: "collecting (c2\<lparr>replay := rw, fragments := frs\<rparr>) start tot (chunk pt)
      (if insert i I = {..<tot} then {} else insert i I)" by auto
  have "i < 256" using i(1) tot(2) by simp
  note g = reassemble_groups [OF re this]
  have "distinct (map fst frs)" "\<forall>g. g \<noteq> int start \<longrightarrow> map_of frs g = map_of (fragments c2) g"
    using g d by simp_all
  with that [of frs] dec re col concat_chunks [of pt] tot(1) show ?thesis by simp
qed

lemma wire_head:
  assumes P: "aead_ok P" and p: "dc_paired P c1 c2" and n: "length n = 12" and len: "length pt \<le> MAX_PAYLOAD + 3"
    and w: "encrypt_one P n c1 pt cnt = Inr w"
  shows "w \<noteq> [] \<and> unat (hd w) = opcode_val DATA \<and> length w < 65536"
proof -
  from p obtain c where c: "dc_cipher c1 = Some c" "cipher_wf c" "length (shared_id c1) \<le> 8"
    by (auto simp: dc_paired_def split: option.splits)
  have "length (compress_inner P c1 pt) \<le> 1 + length pt"
    by (simp add: compress_inner_def Let_def)
  moreover have "cnt < 256 ^ 4" using w by (auto simp: encrypt_one_def res_bind_Inr_iff pack_Inr_iff)
  ultimately show ?thesis
    using w encrypt_one_eq [OF c(1,3), of cnt P n pt] length_cipher_encrypt [OF P c(2) n] len
    by (auto simp: MAX_PAYLOAD_def)
qed

lemma paired_counter [simp]: "dc_paired P (c1\<lparr>packet_counter := k\<rparr>) c2 = dc_paired P c1 c2"
  by (simp add: dc_paired_def split: option.split)

lemma small_flow:
  assumes P: "aead_ok P" "lz4_ok P" and s: "in_step P c1 c2" and n: "length (rnd 0) = 12"
    and p: "ip_packet p" "length p \<le> MAX_PAYLOAD"
    and w: "encrypt_one P (rnd 0) c1 p (packet_counter c1 + 1) = Inr w"
  shows "flow P c2 [w] [p] (c1\<lparr>packet_counter := packet_counter c1 + 1\<rparr>)"
proof -
  obtain A where pr: "dc_paired P c1 c2"
    and A: "window_rel A (replay c2)" "\<forall>x\<in>A. x \<le> int (packet_counter c1)"
    and g: "\<forall>g. map_of (fragments c2) g \<noteq> None \<longrightarrow> g \<le> int (packet_counter c1)" "distinct (map fst (fragments c2))"
    by (rule in_stepE [OF s])
  from check_next [OF A] obtain rw where
    rw: "check (int (packet_counter c1 + 1)) (replay c2) = (True, rw)"
      "window_rel (insert (int (packet_counter c1 + 1)) A) rw" by blast
  have "decrypt P now w c2 = (Inr (Some p), c2\<lparr>replay := rw\<rparr>)" for now
    using decrypt_encrypt_one [OF P pr n w rw(1), of now] p
    by (cases p) (auto simp: reassemble_def ip_packet_def)
  moreover have "in_step P (c1\<lparr>packet_counter := packet_counter c1 + 1\<rparr>) (c2\<lparr>replay := rw\<rparr>)"
    by (rule in_stepI [of _ _ _ "insert (int (packet_counter c1 + 1)) A"]) (use pr rw(2) A(2) g in fastforce)+
  moreover have "w \<noteq> [] \<and> unat (hd w) = opcode_val DATA \<and> length w < 65536"
    using wire_head [OF P(1) pr n _ w] p(2) by simp
  ultimately show ?thesis using p by (simp add: ip_packet_def)
qed

lemma fragments_flow:
  assumes P: "aead_ok P" "lz4_ok P" and rnd: "\<And>i. length (rnd i) = 12"
    and tot: "tot = num_frags (length pt)" "tot < 256" and ne: "pt \<noteq> []"
    and start: "0 < start"
    and ws: "\<And>i. i < tot \<Longrightarrow>
        encrypt_one P (rnd i) c1 (FRAG_MASK # word_of_nat tot # word_of_nat i # chunk pt i) (start + i) = Inr (ws i)"
  shows "i < tot \<Longrightarrow> dc_paired P c1 c2 \<Longrightarrow> window_rel A (replay c2) \<Longrightarrow> \<forall>x\<in>A. x < int (start + i) \<Longrightarrow>
     collecting c2 start tot (chunk pt) {..<i} \<Longrightarrow> \<forall>g. map_of (fragments c2) g \<noteq> None \<longrightarrow> g \<le> int start \<Longrightarrow>
     distinct (map fst (fragments c2)) \<Longrightarrow>
     flow P c2 (map ws [i..<tot]) [pt] (c1\<lparr>packet_counter := start + tot - 1\<rparr>)"
proof (induction "tot - i" arbitrary: i c2 A)
  case (Suc m)
  let ?p = "FRAG_MASK # word_of_nat tot # word_of_nat i # chunk pt i"
  from start Suc.prems(4) have A: "\<forall>x\<in>A. x \<le> int (start + i - 1)" and n: "start + i - 1 + 1 = start + i"
    by fastforce+
  from check_next [OF Suc.prems(3) A] obtain rw where rw: "check (int (start + i)) (replay c2) = (True, rw)"
    "window_rel (insert (int (start + i)) A) rw" unfolding n by blast
  have len: "length (chunk pt i) \<le> MAX_PAYLOAD" by (simp add: chunk_def length_slice)
  have hd: "ws i \<noteq> [] \<and> unat (hd (ws i)) = opcode_val DATA \<and> length (ws i) < 65536"
    by (rule wire_head [OF P(1) Suc.prems(2) rnd _ ws [OF Suc.prems(1)]]) (use len in simp)
  have upt: "[i..<tot] = i # [Suc i..<tot]" using Suc.prems(1) by (rule upt_conv_Cons)
  have step: "\<exists>frs. decrypt P now (ws i) c2 =
      (Inr (if Suc i = tot then Some pt else None), c2\<lparr>replay := rw, fragments := frs\<rparr>) \<and>
      collecting (c2\<lparr>replay := rw, fragments := frs\<rparr>) start tot (chunk pt) (if Suc i = tot then {} else {..<Suc i}) \<and>
      (\<forall>g. map_of frs g \<noteq> None \<longrightarrow> g \<le> int start) \<and> distinct (map fst frs)" for now
  proof -
    have full: "insert i {..<i} = {..<Suc i}" "{..<Suc i} = {..<tot} \<longleftrightarrow> Suc i = tot"
      by (rule lessThan_Suc [symmetric], rule lessThan_eq_iff)
    have sub: "i \<notin> {..<i}" "{..<i} \<subseteq> {..<tot}" using Suc.prems(1) by auto
    obtain frs where f: "decrypt P now (ws i) c2 =
        (Inr (if Suc i = tot then Some pt else None), c2\<lparr>replay := rw, fragments := frs\<rparr>)"
        "collecting (c2\<lparr>replay := rw, fragments := frs\<rparr>) start tot (chunk pt) (if Suc i = tot then {} else {..<Suc i})"
      and g: "\<forall>g. g \<noteq> int start \<longrightarrow> map_of frs g = map_of (fragments c2) g" "distinct (map fst frs)"
      by (rule fragment_received [where now = now and n = "rnd i" and I = "{..<i}",
          OF P Suc.prems(2) rnd ws [OF Suc.prems(1)] rw(1) tot Suc.prems(1) sub Suc.prems(5,7), unfolded full])
    have "\<forall>g. map_of frs g \<noteq> None \<longrightarrow> g \<le> int start" using g(1) Suc.prems(6) by (metis order.refl)
    with f g(2) show ?thesis by blast
  qed
  have rest: "flow P (c2\<lparr>replay := rw, fragments := frs\<rparr>) (map ws [Suc i..<tot])
      (if Suc i = tot then [] else [pt]) (c1\<lparr>packet_counter := start + tot - 1\<rparr>)"
    if "collecting (c2\<lparr>replay := rw, fragments := frs\<rparr>) start tot (chunk pt) (if Suc i = tot then {} else {..<Suc i})"
      and "\<forall>g. map_of frs g \<noteq> None \<longrightarrow> g \<le> int start" and "distinct (map fst frs)" for frs
  proof (cases "Suc i = tot")
    case True
    let ?c1 = "c1\<lparr>packet_counter := start + tot - 1\<rparr>"
    from Suc.prems(4) True have "\<forall>x\<in>insert (int (start + i)) A. x \<le> int (packet_counter ?c1)" by fastforce
    moreover have "\<forall>g. map_of frs g \<noteq> None \<longrightarrow> g \<le> int (packet_counter ?c1)"
      using that(2) True by fastforce
    ultimately have "in_step P ?c1 (c2\<lparr>replay := rw, fragments := frs\<rparr>)"
      using Suc.prems(2) rw(2) that(3) by (intro in_stepI [of _ _ _ "insert (int (start + i)) A"]) simp_all
    with True show ?thesis by simp
  next
    case False
    have "\<forall>x\<in>insert (int (start + i)) A. x < int (start + Suc i)" using Suc.prems(4) by fastforce
    then show ?thesis
      using Suc.hyps(1) [of "Suc i" "c2\<lparr>replay := rw, fragments := frs\<rparr>" "insert (int (start + i)) A"]
        Suc.hyps(2) Suc.prems(1,2) rw(2) that False by simp
  qed
  show ?case
    unfolding upt list.map flow.simps
  proof (intro conjI allI)
    fix now
    from step [of now] obtain frs where
      d: "decrypt P now (ws i) c2 =
        (Inr (if Suc i = tot then Some pt else None), c2\<lparr>replay := rw, fragments := frs\<rparr>)"
      and f: "collecting (c2\<lparr>replay := rw, fragments := frs\<rparr>) start tot (chunk pt) (if Suc i = tot then {} else {..<Suc i})"
        "\<forall>g. map_of frs g \<noteq> None \<longrightarrow> g \<le> int start" "distinct (map fst frs)" by blast
    from d rest [OF f] ne
    show "\<exists>r ch. decrypt P now (ws i) c2 = (Inr r, ch) \<and>
        (case r of None \<Rightarrow> flow P ch (map ws [Suc i..<tot]) [pt] (c1\<lparr>packet_counter := start + tot - 1\<rparr>)
         | Some p \<Rightarrow> p \<noteq> [] \<and> [pt] \<noteq> [] \<and> p = hd [pt] \<and>
             flow P ch (map ws [Suc i..<tot]) (tl [pt]) (c1\<lparr>packet_counter := start + tot - 1\<rparr>))"
      by (cases "Suc i = tot") auto
  qed (use hd in simp_all)
qed simp

text \<open>
  Whatever an IP stack hands out, the sender encrypts, and the packets it makes of it are a
  flow of that one plaintext for every channel in step. (A read returns at most 65536 bytes,
  which are 47 fragments.)
\<close>

lemma num_frags_read: "n \<le> 65536 \<Longrightarrow> num_frags n \<le> 47"
  by (simp add: num_frags_def MAX_PAYLOAD_def)

lemma packet_encrypts:
  assumes pr: "dc_paired P c1 c2" and p: "ip_packet p" and room: "packet_counter c1 + 47 < 256 ^ 4"
  obtains ws where "encrypt P rnd p c1 = (Inr ws, c1\<lparr>packet_counter := packet_counter c1 + length ws\<rparr>)"
    and "length ws \<le> 47"
proof -
  from pr obtain c where c: "dc_cipher c1 = Some c" "length (shared_id c1) \<le> 8"
    by (auto simp: dc_paired_def split: option.splits)
  have n: "num_frags (length p) \<le> 47" using p num_frags_read by (simp add: ip_packet_def)
  with encrypt_ok_cipher [OF c, of P rnd p] room have "is_ok (fst (encrypt P rnd p c1))" by simp
  then obtain ws c1' where e: "encrypt P rnd p c1 = (Inr ws, c1')"
    by (cases "encrypt P rnd p c1") (auto simp: is_ok_iff)
  show ?thesis
  proof (cases "length p \<le> MAX_PAYLOAD")
    case True
    with e that [of ws] show ?thesis by (auto simp: encrypt_small res_bind_Inr_iff)
  next
    case False
    with e have "encrypt_frags P rnd c1 p (packet_counter c1 + 1) (num_frags (length p))
        [0..<num_frags (length p)] = Inr ws"
      and c1': "c1' = c1\<lparr>packet_counter := packet_counter c1 + num_frags (length p)\<rparr>"
      using encrypt_large [of p P rnd c1 ws c1'] by simp_all
    from encrypt_frags_Inr [OF this(1)] have "length ws = num_frags (length p)"
      by (auto dest: list_all2_lengthD)
    with c1' e n that show ?thesis by simp
  qed
qed

lemma packet_flow:
  assumes P: "aead_ok P" "lz4_ok P" and rnd: "\<And>i. length (rnd i) = 12" and p: "ip_packet p"
    and e: "encrypt P rnd p c1 = (Inr ws, c1\<lparr>packet_counter := packet_counter c1 + length ws\<rparr>)"
    and s: "in_step P c1 c2"
  shows "flow P c2 ws [p] (c1\<lparr>packet_counter := packet_counter c1 + length ws\<rparr>)"
proof (cases "length p \<le> MAX_PAYLOAD")
  case True
  with e obtain w where w: "ws = [w]" "encrypt_one P (rnd 0) c1 p (packet_counter c1 + 1) = Inr w"
    by (auto simp: encrypt_small res_bind_Inr_iff)
  from small_flow [of P c1 c2 rnd p w, OF P s rnd p True w(2)] show ?thesis by (simp add: w(1))
next
  case False
  let ?n = "num_frags (length p)" and ?s = "packet_counter c1 + 1"
  from False e have e': "encrypt_frags P rnd c1 p ?s ?n [0..<?n] = Inr ws"
    using encrypt_large [of p P rnd c1 ws] by simp
  from encrypt_frags_Inr [OF e'] have ws: "list_all2 (\<lambda>i w. \<exists>q. frag_payload p ?n i = Inr q \<and>
      encrypt_one P (rnd i) c1 q (?s + i) = Inr w) [0..<?n] ws" .
  then have len: "length ws = ?n" by (auto dest: list_all2_lengthD)
  have one: "encrypt_one P (rnd i) c1 (FRAG_MASK # word_of_nat ?n # word_of_nat i # chunk p i) (?s + i) = Inr (ws ! i)"
    if "i < ?n" for i
    using ws that by (auto simp: list_all2_conv_all_nth frag_payload_Inr_iff)
  obtain A where pr: "dc_paired P c1 c2"
    and A: "window_rel A (replay c2)" "\<forall>x\<in>A. x \<le> int (packet_counter c1)"
    and g: "\<forall>g. map_of (fragments c2) g \<noteq> None \<longrightarrow> g \<le> int (packet_counter c1)" "distinct (map fst (fragments c2))"
    by (rule in_stepE [OF s])
  have n: "?n < 256" "0 < ?n"
    using p num_frags_read num_frags_ge2 [of "length p"] False by (fastforce simp: ip_packet_def)+
  have "collecting c2 ?s ?n (chunk p) {..<0}"
    using g(1) [rule_format, of "int ?s"] by (cases "map_of (fragments c2) (int ?s)") (auto simp: collecting_def)
  moreover have "\<forall>x\<in>A. x < int (?s + 0)" "\<forall>g. map_of (fragments c2) g \<noteq> None \<longrightarrow> g \<le> int ?s"
    using A(2) g(1) by fastforce+
  ultimately have "flow P c2 (map ((!) ws) [0..<?n]) [p] (c1\<lparr>packet_counter := ?s + ?n - 1\<rparr>)"
    using fragments_flow [of P rnd ?n p ?s c1 "(!) ws" 0 c2 A, OF P rnd refl n(1) _ _ one n(2) pr A(1)] p g(2)
    by (simp add: ip_packet_def)
  then show ?thesis by (simp add: len [symmetric] map_nth)
qed

lemma flow_ends: "flow P c2 ws ps c1 \<Longrightarrow> \<exists>d. in_step P c1 d"
proof (induction ws arbitrary: c2 ps)
  case (Cons w ws)
  then obtain r ch where "case r of None \<Rightarrow> flow P ch ws ps c1
      | Some p \<Rightarrow> p \<noteq> [] \<and> ps \<noteq> [] \<and> p = hd ps \<and> flow P ch ws (tl ps) c1"
    unfolding flow.simps by blast
  then show ?case using Cons.IH by (cases r) auto
qed auto

text \<open>A further packet joins what is in flight.\<close>

lemma flow_sends:
  assumes P: "aead_ok P" "lz4_ok P" and rnd: "\<And>i. length (rnd i) = 12" and p: "ip_packet p"
    and room: "packet_counter c1 + 47 < 256 ^ 4" and f: "flow P c2 ws ps c1"
  obtains vs where "encrypt P rnd p c1 = (Inr vs, c1\<lparr>packet_counter := packet_counter c1 + length vs\<rparr>)"
    and "length vs \<le> 47"
    and "flow P c2 (ws @ vs) (ps @ [p]) (c1\<lparr>packet_counter := packet_counter c1 + length vs\<rparr>)"
proof -
  from flow_ends [OF f] obtain d where "dc_paired P c1 d" unfolding in_step_def by blast
  from packet_encrypts [OF this p room, of rnd] obtain vs where
    e: "encrypt P rnd p c1 = (Inr vs, c1\<lparr>packet_counter := packet_counter c1 + length vs\<rparr>)" "length vs \<le> 47" by blast
  from flow_append [OF packet_flow [OF P rnd p e(1)] f] that e show ?thesis by blast
qed

lemma flow_lengths: "flow P c2 ws ps c1 \<Longrightarrow> \<forall>w\<in>set ws. length w < 65536"
proof (induction ws arbitrary: c2 ps)
  case (Cons w ws)
  then obtain r ch where "case r of None \<Rightarrow> flow P ch ws ps c1
      | Some p \<Rightarrow> p \<noteq> [] \<and> ps \<noteq> [] \<and> p = hd ps \<and> flow P ch ws (tl ps) c1"
    unfolding flow.simps by blast
  then have "\<forall>w\<in>set ws. length w < 65536" using Cons.IH by (cases r) auto
  with Cons.prems show ?case by simp
qed simp

text \<open>What the next wire yields: nothing yet, or the packet that is first in the flow.\<close>

lemma flow_next:
  assumes "flow P c2 (w # ws) ps c1"
  obtains r ch where "decrypt P now w c2 = (Inr r, ch)" and "r \<noteq> Some []"
    and "flow P ch ws (drop (length (case r of None \<Rightarrow> [] | Some p \<Rightarrow> [p])) ps) c1"
    and "ps = (case r of None \<Rightarrow> [] | Some p \<Rightarrow> [p]) @ drop (length (case r of None \<Rightarrow> [] | Some p \<Rightarrow> [p])) ps"
proof -
  from assms obtain r ch where d: "decrypt P now w c2 = (Inr r, ch)"
    and c: "case r of None \<Rightarrow> flow P ch ws ps c1
      | Some p \<Rightarrow> p \<noteq> [] \<and> ps \<noteq> [] \<and> p = hd ps \<and> flow P ch ws (tl ps) c1"
    unfolding flow.simps by blast
  from c that [OF d] show ?thesis by (cases r; cases ps) auto
qed

end
