(* ===== verification/Tunnel.thy ===== *)
theory Tunnel
  imports Client_Props Server_Props Flow
begin

text \<open>
  The two ends together: the channels a completed handshake opens, and a stream of packets
  from the client's TUN device to the server's. (The other direction does not exist: the
  server never sends what its device delivers, see \<open>Server_Props\<close>.)
\<close>

declare split_paired_All [simp del] split_paired_Ex [simp del]

section \<open>The channels a handshake opens\<close>

lemma opened_channels:
  assumes "dh_ok P H" and "fresh P H c" and "fresh P H s" and "accepts P c s" and "accepts P s c"
  shows "\<exists>c' s' ch1 ch2. handshake P now c s = Some (c', s') \<and>
    is_established c' \<and> is_established s' \<and> session_id s' = session_id s \<and>
    new_data_channel Q (session_id c') (or_empty (peer_session_id c')) (cipher c') lzo 64 = Inr ch1 \<and>
    new_data_channel Q (session_id s') (or_empty (peer_session_id s')) (cipher s') lzo' 64 = Inr ch2 \<and>
    in_step Q ch1 ch2 \<and> in_step Q ch2 ch1"
proof -
  from handshake_runs [OF assms(1-5), of now] obtain c' s' k where
    h: "handshake P now c s = Some (c', s')" "state c' = ESTABLISHED" "state s' = ESTABLISHED"
    and k: "cipher c' = Some (Cipher k)" "cipher s' = Some (Cipher k)" "length k = 32"
    and ids: "session_id c' = session_id c" "session_id s' = session_id s"
      "peer_session_id c' = Some (session_id s)" "peer_session_id s' = Some (session_id c)" by blast
  obtain ch1 where 1: "new_data_channel Q (session_id c) (session_id s) (Some (Cipher k)) lzo 64 = Inr ch1"
    using new_data_channel_64 by blast
  obtain ch2 where 2: "new_data_channel Q (session_id s) (session_id c) (Some (Cipher k)) lzo' 64 = Inr ch2"
    using new_data_channel_64 by blast
  have wf: "cipher_wf (Cipher k)" and len: "length (session_id c) = 8" "length (session_id s) = 8"
    using k(3) assms(2,3) by (simp_all add: cipher_wf_def fresh_def)
  from in_step_new [OF 1 2 wf len] in_step_new [OF 2 1 wf len(2,1)] h k ids 1 2 show ?thesis
    by (simp add: is_established_def)
qed

text \<open>
  A completed handshake opens a working channel: when two fresh sessions that accept
  each other have run the handshake, the data channels that the client's main loop and the
  server's dispatcher create from them share session id and key, and are in step in both
  directions.
\<close>

theorem handshake_opens_channels:
  assumes "dh_ok P H" and "fresh P H c" and "fresh P H s" and "accepts P c s" and "accepts P s c"
  shows "\<exists>c' s' ch1 ch2. handshake P now c s = Some (c', s') \<and>
    new_data_channel Q (session_id c') (or_empty (peer_session_id c')) (cipher c') lzo 64 = Inr ch1 \<and>
    new_data_channel Q (session_id s') (or_empty (peer_session_id s')) (cipher s') lzo' 64 = Inr ch2 \<and>
    in_step Q ch1 ch2 \<and> in_step Q ch2 ch1"
  using opened_channels [OF assms, of now Q lzo lzo'] by blast

theorem handshake_opens_channels_witness:
  "\<exists>c' s' ch1 ch2. handshake toy_pki 0 toy_client toy_server = Some (c', s') \<and>
    new_data_channel toy_prims (session_id c') (or_empty (peer_session_id c')) (cipher c') True 64 = Inr ch1 \<and>
    new_data_channel toy_prims (session_id s') (or_empty (peer_session_id s')) (cipher s') False 64 = Inr ch2 \<and>
    in_step toy_prims ch1 ch2 \<and> in_step toy_prims ch2 ch1"
  by (rule handshake_opens_channels [OF toy_dh_ok toy_fresh toy_accepts])

section \<open>Two transports\<close>

text \<open>
  Between the client's socket and the server's dispatcher lies a transport: in UDP mode a
  queue of datagrams, in TCP mode a stream of bytes cut into frames. What the tunnel needs of
  either is the interface \<open>transport\<close>: \<open>push\<close> enters what the client has written to its socket,
  \<open>pop\<close> is the next receive of the server, which hands the datagram to \<open>receive\<close>;
  \<open>pending q ws\<close> says that \<open>q\<close> holds the datagrams \<open>ws\<close>.
\<close>

definition udp_push :: "bytes list \<Rightarrow> bytes list \<Rightarrow> bytes list" where
  "udp_push xs q = q @ xs"

fun udp_pop :: "bytes list \<Rightarrow> bytes option \<times> bytes list" where
  "udp_pop [] = (None, [])"
| "udp_pop (w # ws) = (Some w, ws)"

definition tcp_push :: "bytes list \<Rightarrow> bytes \<Rightarrow> bytes" where
  "tcp_push xs q = q @ concat xs"

definition tcp_receive ::
  "('c, 'k, 's, 'p) env \<Rightarrow> real \<Rightarrow> bytes \<Rightarrow> 's \<Rightarrow> bytes \<Rightarrow> addr \<Rightarrow> (('c, 's, 'p) vpn_server, unit) meth" where
  "tcp_receive SE now rid rk w = tcp_frame SE now rid rk (Some w)"

definition udp_open :: "('c, 's, 'p) vpn_client \<Rightarrow> bool" where
  "udp_open c \<longleftrightarrow> \<not> client_is_tcp (cl_config c) \<and> cl_transport c"

definition tcp_open :: "('c, 's, 'p) vpn_client \<Rightarrow> bool" where
  "tcp_open c \<longleftrightarrow> client_is_tcp (cl_config c) \<and> cl_writer c"

locale transport =
  fixes ready :: "('c, 's, 'p) vpn_client \<Rightarrow> bool"
    and up :: "('c, 's, 'p) vpn_server \<Rightarrow> bool"
    and push :: "bytes list \<Rightarrow> 'x list \<Rightarrow> 'x list"
    and pop :: "'x list \<Rightarrow> bytes option \<times> 'x list"
    and receive :: "('c, 'k, 's, 'p) env \<Rightarrow> real \<Rightarrow> bytes \<Rightarrow> 's \<Rightarrow> bytes \<Rightarrow> addr \<Rightarrow>
      (('c, 's, 'p) vpn_server, unit) meth"
    and pending :: "'x list \<Rightarrow> bytes list \<Rightarrow> bool"
  assumes send: "ready c \<Longrightarrow> length w < 65536 \<Longrightarrow> pending q ws \<Longrightarrow>
      \<exists>x. client_sync_send w c = (Inr (), c\<lparr>cl_outbox := cl_outbox c @ [x]\<rparr>) \<and>
        pending (push [x] q) (ws @ [w])"
    and ready_cong: "ready c \<Longrightarrow> cl_config d = cl_config c \<Longrightarrow> cl_transport d = cl_transport c \<Longrightarrow>
      cl_writer d = cl_writer c \<Longrightarrow> ready d"
    and push_append: "push ys (push xs q) = push (xs @ ys) q"
    and push_Nil: "push [] q = q"
    and pop_pending: "pending q (w # ws) \<Longrightarrow> \<exists>q'. pop q = (Some w, q') \<and> pending q' ws"
    and pop_empty: "pending q [] \<Longrightarrow> fst (pop q) = None"
    and received: "up sv \<Longrightarrow> handle_udp_data SE now rid rk w a sv = (Inr (), t) \<Longrightarrow>
      receive SE now rid rk w a sv = (Inr (), t)"
    and up_cong: "up sv \<Longrightarrow> sv_running t = sv_running sv \<Longrightarrow> up t"

text \<open>
  A run of the link: the client's device delivers a packet, or the server's socket receives the
  oldest datagram that is under way; \<open>rid\<close> and \<open>rk\<close> are the draws of a session that the
  dispatcher might create.
\<close>

record ('c, 's, 'p, 'x) link =
  lk_client :: "('c, 's, 'p) vpn_client"
  lk_server :: "('c, 's, 'p) vpn_server"
  lk_wire :: "'x list"

datatype link_event = Read "nat \<Rightarrow> bytes" bytes | Deliver real

fun link_step ::
  "(bytes list \<Rightarrow> 'x list \<Rightarrow> 'x list) \<Rightarrow> ('x list \<Rightarrow> bytes option \<times> 'x list) \<Rightarrow>
   (real \<Rightarrow> bytes \<Rightarrow> (('c, 's, 'p) vpn_server, unit) meth) \<Rightarrow> ('c, 'k, 's, 'p) client_env \<Rightarrow> link_event \<Rightarrow>
   ('c, 's, 'p, 'x) link \<Rightarrow> ('c, 's, 'p, 'x) link" where
  "link_step push pop receive CE (Read rnd p) l =
     (let c = lk_client l; d = snd (client_tun_readable CE rnd (Inr p) c) in
      l\<lparr>lk_client := d, lk_wire := push (drop (length (cl_outbox c)) (cl_outbox d)) (lk_wire l)\<rparr>)"
| "link_step push pop receive CE (Deliver now) l =
     (case pop (lk_wire l) of
        (None, _) \<Rightarrow> l
      | (Some w, q) \<Rightarrow> l\<lparr>lk_server := snd (receive now w (lk_server l)), lk_wire := q\<rparr>)"

definition link_run ::
  "(bytes list \<Rightarrow> 'x list \<Rightarrow> 'x list) \<Rightarrow> ('x list \<Rightarrow> bytes option \<times> 'x list) \<Rightarrow>
   (real \<Rightarrow> bytes \<Rightarrow> (('c, 's, 'p) vpn_server, unit) meth) \<Rightarrow> ('c, 'k, 's, 'p) client_env \<Rightarrow> link_event list \<Rightarrow>
   ('c, 's, 'p, 'x) link \<Rightarrow> ('c, 's, 'p, 'x) link" where
  "link_run push pop receive CE = fold (link_step push pop receive CE)"

text \<open>Nothing is under way; and what the server's device has been given.\<close>

definition idle_link ::
  "('c, 's, 'p) vpn_client \<Rightarrow> ('c, 's, 'p) vpn_server \<Rightarrow> ('c, 's, 'p, 'x) link" where
  "idle_link c sv = \<lparr>lk_client = c, lk_server = sv, lk_wire = []\<rparr>"

definition delivered :: "('c, 's, 'p, 'x) link \<Rightarrow> bytes list" where
  "delivered l = tun_written (sv_tun (lk_server l))"

fun packets_read :: "link_event list \<Rightarrow> bytes list" where
  "packets_read [] = []"
| "packets_read (Read rnd p # evs) = p # packets_read evs"
| "packets_read (Deliver now # evs) = packets_read evs"

fun event_ok :: "link_event \<Rightarrow> bool" where
  "event_ok (Read rnd p) \<longleftrightarrow> (\<forall>i. length (rnd i) = 12) \<and> ip_packet p"
| "event_ok (Deliver now) \<longleftrightarrow> True"

text \<open>A connected client and the server it is connected to, whatever the transport.\<close>

definition client_up :: "('c, 's, 'p) vpn_client \<Rightarrow> data_channel \<Rightarrow> bool" where
  "client_up c ch \<longleftrightarrow> cl_handshake_done c \<and> truthy (cl_assigned_ip c) \<and> cl_data c = Some ch \<and>
     (\<exists>t fd. cl_tun c = Some t \<and> tun_fd t = Some fd)"

definition server_up ::
  "kernel \<Rightarrow> addr \<Rightarrow> ('c, 's, 'p) vpn_server \<Rightarrow> data_channel \<Rightarrow> bool" where
  "server_up K a sv ch \<longleftrightarrow>
     (\<exists>cs. map_of (sv_clients sv) a = Some cs \<and> is_ready cs \<and> cs_data cs = Some ch) \<and>
     (\<exists>fd. tun_fd (sv_tun sv) = Some fd \<and> (\<forall>p. \<exists>n. os_write K fd p = Inr n))"

definition linked ::
  "prims \<Rightarrow> kernel \<Rightarrow> addr \<Rightarrow> nat \<Rightarrow> ('c, 's, 'p) vpn_client \<Rightarrow> ('c, 's, 'p) vpn_server \<Rightarrow> bool" where
  "linked P K a k c sv \<longleftrightarrow>
     (\<exists>c1 c2. client_up c c1 \<and> server_up K a sv c2 \<and> in_step P c1 c2 \<and> packet_counter c1 = k)"


section \<open>The tunnel over any transport\<close>

context transport
begin

text \<open>
  The link carries the packets \<open>ps\<close>, in at most \<open>n\<close> datagrams: they have been read and not yet
  been delivered.
\<close>

definition carrying ::
  "prims \<Rightarrow> kernel \<Rightarrow> addr \<Rightarrow> nat \<Rightarrow> nat \<Rightarrow> bytes list \<Rightarrow> ('c, 's, 'p, 'x) link \<Rightarrow> bool" where
  "carrying P K a k n ps l \<longleftrightarrow>
     (\<exists>c1 c2 ws. client_up (lk_client l) c1 \<and> ready (lk_client l) \<and> server_up K a (lk_server l) c2 \<and>
        up (lk_server l) \<and> pending (lk_wire l) ws \<and> flow P c2 ws ps c1 \<and> packet_counter c1 \<le> k \<and> length ws \<le> n)"

lemma send_all:
  "ready c \<Longrightarrow> \<forall>w\<in>set ws. length w < 65536 \<Longrightarrow> pending q vs \<Longrightarrow> client_up c ch \<Longrightarrow>
     \<exists>d xs. m_for send_wire ws c = (Inr (), d) \<and> cl_outbox d = cl_outbox c @ xs \<and>
       pending (push xs q) (vs @ ws) \<and> ready d \<and> client_up d ch"
proof (induction ws arbitrary: c q vs)
  case Nil
  then show ?case by (auto simp: push_Nil intro!: exI [of _ "[]"])
next
  case (Cons w ws)
  from send [OF Cons.prems(1) _ Cons.prems(3), of w] Cons.prems(2) obtain x where
    x: "client_sync_send w c = (Inr (), c\<lparr>cl_outbox := cl_outbox c @ [x]\<rparr>)" "pending (push [x] q) (vs @ [w])"
    by auto
  let ?c = "c\<lparr>cl_outbox := cl_outbox c @ [x], cl_status := map_option (record_out (length w)) (cl_status c)\<rparr>"
  have s: "send_wire w c = (Inr (), ?c)" by (simp add: send_wire_def meth_defs x(1))
  have "ready ?c" by (rule ready_cong [OF Cons.prems(1)]) simp_all
  moreover have "client_up ?c ch" using Cons.prems(4) by (simp add: client_up_def)
  ultimately obtain d xs where d: "m_for send_wire ws ?c = (Inr (), d)" "cl_outbox d = cl_outbox ?c @ xs"
      "pending (push xs (push [x] q)) ((vs @ [w]) @ ws)" "ready d" "client_up d ch"
    using Cons.IH [of ?c "push [x] q" "vs @ [w]"] Cons.prems(2) x(2) by auto
  then show ?case by (intro exI [of _ d] exI [of _ "x # xs"]) (simp add: s push_append)
qed

lemma carrying_read:
  assumes P: "aead_ok (e_prims CE)" "lz4_ok (e_prims CE)" and ok: "event_ok (Read rnd p)"
    and c: "carrying (e_prims CE) K a k n ps l" and room: "k + 47 < 256 ^ 4"
  shows "carrying (e_prims CE) K a (k + 47) (n + 47) (ps @ [p]) (link_step push pop rc CE (Read rnd p) l) \<and>
    lk_server (link_step push pop rc CE (Read rnd p) l) = lk_server l"
proof -
  let ?c = "lk_client l" and ?P = "e_prims CE"
  from c obtain c1 c2 ws where s: "client_up ?c c1" "ready ?c" "server_up K a (lk_server l) c2"
      "up (lk_server l)" "pending (lk_wire l) ws" and f: "flow ?P c2 ws ps c1" and k: "packet_counter c1 \<le> k" "length ws \<le> n"
    unfolding carrying_def by blast
  from ok have rnd: "\<And>i. length (rnd i) = 12" and p: "ip_packet p" by simp_all
  obtain vs where e: "encrypt ?P rnd p c1 = (Inr vs, c1\<lparr>packet_counter := packet_counter c1 + length vs\<rparr>)"
      "length vs \<le> 47"
    and f': "flow ?P c2 (ws @ vs) (ps @ [p]) (c1\<lparr>packet_counter := packet_counter c1 + length vs\<rparr>)"
    by (rule flow_sends [OF P rnd p _ f]) (use room k(1) in simp)
  let ?c1 = "c1\<lparr>packet_counter := packet_counter c1 + length vs\<rparr>"
  have "ready (?c\<lparr>cl_data := Some ?c1\<rparr>)" by (rule ready_cong [OF s(2)]) simp_all
  moreover have "client_up (?c\<lparr>cl_data := Some ?c1\<rparr>) ?c1" using s(1) by (simp add: client_up_def)
  moreover have "\<forall>w\<in>set vs. length w < 65536" using flow_lengths [OF f'] by simp
  ultimately obtain d xs where d: "m_for send_wire vs (?c\<lparr>cl_data := Some ?c1\<rparr>) = (Inr (), d)"
      "cl_outbox d = cl_outbox ?c @ xs" "pending (push xs (lk_wire l)) (ws @ vs)" "ready d" "client_up d ?c1"
    using send_all [OF _ _ s(5)] by fastforce
  have "client_tun_readable CE rnd (Inr p) ?c = (Inr (), d)"
    using s(1) p e(1) d(1)
    by (auto simp: client_up_def client_tun_readable_def tun_read_def tun_fileno_def ip_packet_def meth_defs)
  then have "link_step push pop rc CE (Read rnd p) l = l\<lparr>lk_client := d, lk_wire := push xs (lk_wire l)\<rparr>"
    using d(2) by (simp add: Let_def)
  then show ?thesis using s(3,4) d(3-5) f' k e(2) unfolding carrying_def by fastforce
qed

lemma carrying_deliver:
  assumes P: "e_prims SE = P" and c: "carrying P (e_kernel SE) a k n ps l"
  shows "\<exists>out qs. ps = out @ qs \<and>
    carrying P (e_kernel SE) a k (n - 1) qs (link_step push pop (\<lambda>now w. receive SE now rid rk w a) CE (Deliver now) l) \<and>
    tun_written (sv_tun (lk_server (link_step push pop (\<lambda>now w. receive SE now rid rk w a) CE (Deliver now) l))) =
      tun_written (sv_tun (lk_server l)) @ out"
proof -
  let ?sv = "lk_server l"
  from c obtain c1 c2 ws where s: "client_up (lk_client l) c1" "ready (lk_client l)" "server_up (e_kernel SE) a ?sv c2"
      "up ?sv" "pending (lk_wire l) ws" and f: "flow P c2 ws ps c1" and k: "packet_counter c1 \<le> k" "length ws \<le> n"
    unfolding carrying_def by blast
  show ?thesis
  proof (cases ws)
    case Nil
    with pop_empty s(5) have "fst (pop (lk_wire l)) = None" by simp
    then have "link_step push pop (\<lambda>now w. receive SE now rid rk w a) CE (Deliver now) l = l"
      by (cases "pop (lk_wire l)") simp
    with s f k Nil show ?thesis unfolding carrying_def by fastforce
  next
    case (Cons w vs)
    with pop_pending s(5) obtain q where q: "pop (lk_wire l) = (Some w, q)" "pending q vs" by blast
    from f have w: "w \<noteq> []" "unat (hd w) = opcode_val DATA" by (simp_all add: Cons)
    obtain r ch where dec: "decrypt P now w c2 = (Inr r, ch)" "r \<noteq> Some []"
      and rest: "flow P ch vs (drop (length (case r of None \<Rightarrow> [] | Some p \<Rightarrow> [p])) ps) c1"
      "ps = (case r of None \<Rightarrow> [] | Some p \<Rightarrow> [p]) @ drop (length (case r of None \<Rightarrow> [] | Some p \<Rightarrow> [p])) ps"
      by (rule flow_next [OF f [unfolded Cons]])
    from s(3) obtain cl fd where cl: "map_of (sv_clients ?sv) a = Some cl" "is_ready cl" "cs_data cl = Some c2"
      and fd: "tun_fd (sv_tun ?sv) = Some fd" and wr: "\<forall>p. \<exists>n. os_write (e_kernel SE) fd p = Inr n"
      unfolding server_up_def by blast
    from data_datagram [OF cl w dec(1) [folded P] dec(2) fd, of rid rk] wr obtain t where
      t: "handle_udp_data SE now rid rk w a ?sv = (Inr (), t)"
        "sv_tun t = (sv_tun ?sv)\<lparr>tun_written := tun_written (sv_tun ?sv) @ (case r of None \<Rightarrow> [] | Some p \<Rightarrow> [p])\<rparr>"
        "map_of (sv_clients t) a = Some (cl\<lparr>last_seen := now, cs_data := Some ch\<rparr>)" "sv_running t = sv_running ?sv"
      by blast
    have st: "link_step push pop (\<lambda>now w. receive SE now rid rk w a) CE (Deliver now) l =
        l\<lparr>lk_server := t, lk_wire := q\<rparr>"
      using q(1) received [OF s(4) t(1)] by simp
    have "server_up (e_kernel SE) a t ch"
      using t(2,3) cl(2) fd wr by (simp add: server_up_def is_ready_def)
    then have "carrying P (e_kernel SE) a k (n - 1) (drop (length (case r of None \<Rightarrow> [] | Some p \<Rightarrow> [p])) ps)
        (l\<lparr>lk_server := t, lk_wire := q\<rparr>)"
      unfolding carrying_def using s(1,2) up_cong [OF s(4) t(4)] q(2) rest(1) k Cons by fastforce
    with rest(2) t(2) show ?thesis unfolding st by fastforce
  qed
qed

lemma carrying_run:
  assumes P: "aead_ok (e_prims CE)" "lz4_ok (e_prims CE)" "e_prims SE = e_prims CE"
  shows "carrying (e_prims CE) (e_kernel SE) a k n ps l \<Longrightarrow> \<forall>ev\<in>set evs. event_ok ev \<Longrightarrow>
    k + 47 * length (packets_read evs) < 256 ^ 4 \<Longrightarrow>
    \<exists>out qs. ps @ packets_read evs = out @ qs \<and>
      carrying (e_prims CE) (e_kernel SE) a (k + 47 * length (packets_read evs)) (n + 47 * length (packets_read evs)) qs
        (link_run push pop (\<lambda>now w. receive SE now rid rk w a) CE evs l) \<and>
      tun_written (sv_tun (lk_server (link_run push pop (\<lambda>now w. receive SE now rid rk w a) CE evs l))) =
        tun_written (sv_tun (lk_server l)) @ out"
proof (induction evs arbitrary: k n ps l)
  case (Cons ev evs)
  let ?step = "link_step push pop (\<lambda>now w. receive SE now rid rk w a) CE ev l"
  have run: "link_run push pop (\<lambda>now w. receive SE now rid rk w a) CE (ev # evs) l =
      link_run push pop (\<lambda>now w. receive SE now rid rk w a) CE evs ?step"
    by (simp add: link_run_def)
  show ?case
  proof (cases ev)
    case (Read rnd p)
    with Cons.prems have r: "event_ok (Read rnd p)" "k + 47 < 256 ^ 4" by auto
    from carrying_read [OF P(1,2) r(1) Cons.prems(1) r(2), of "\<lambda>now w. receive SE now rid rk w a", folded Read]
      Cons.IH [of "k + 47" "n + 47" "ps @ [p]" ?step] Cons.prems(2,3)
    show ?thesis unfolding run by (simp add: Read ac_simps)
  next
    case (Deliver now)
    from carrying_deliver [OF P(3) Cons.prems(1), of rid rk CE now, folded Deliver] obtain out qs where
      o: "ps = out @ qs" "carrying (e_prims CE) (e_kernel SE) a k (n - 1) qs ?step"
        "tun_written (sv_tun (lk_server ?step)) = tun_written (sv_tun (lk_server l)) @ out" by blast
    have "carrying (e_prims CE) (e_kernel SE) a k n qs ?step"
      using o(2) unfolding carrying_def by fastforce
    from Cons.IH [OF this] Cons.prems(2,3) obtain out' qs' where
      "qs @ packets_read (ev # evs) = out' @ qs'"
      "carrying (e_prims CE) (e_kernel SE) a (k + 47 * length (packets_read (ev # evs)))
        (n + 47 * length (packets_read (ev # evs))) qs'
        (link_run push pop (\<lambda>now w. receive SE now rid rk w a) CE evs ?step)"
      "tun_written (sv_tun (lk_server (link_run push pop (\<lambda>now w. receive SE now rid rk w a) CE evs ?step))) =
        tun_written (sv_tun (lk_server ?step)) @ out'" by (auto simp: Deliver)
    then show ?thesis using o(1,3) unfolding run by (intro exI [of _ "out @ out'"] exI [of _ qs']) simp
  qed
qed (auto simp: link_run_def)

lemma carrying_drain:
  assumes P: "e_prims SE = P"
  shows "carrying P (e_kernel SE) a k n ps l \<Longrightarrow> n \<le> length ts \<Longrightarrow>
    tun_written (sv_tun (lk_server
      (link_run push pop (\<lambda>now w. receive SE now rid rk w a) CE (map Deliver ts) l))) =
      tun_written (sv_tun (lk_server l)) @ ps"
proof (induction ts arbitrary: n ps l)
  case Nil
  then have "ps = []" by (auto simp: carrying_def)
  then show ?case by (simp add: link_run_def)
next
  case (Cons now ts)
  let ?step = "link_step push pop (\<lambda>now w. receive SE now rid rk w a) CE (Deliver now) l"
  from carrying_deliver [OF P Cons.prems(1), of rid rk CE now] obtain out qs where
    o: "ps = out @ qs" "carrying P (e_kernel SE) a k (n - 1) qs ?step"
      "tun_written (sv_tun (lk_server ?step)) = tun_written (sv_tun (lk_server l)) @ out" by blast
  from Cons.IH [OF o(2)] Cons.prems(2) o(1,3) show ?case by (simp add: link_run_def del: link_step.simps)
qed

text \<open>The tunnel, from a link on which nothing is under way.\<close>

lemma tunnel:
  assumes "aead_ok (e_prims CE)" and "lz4_ok (e_prims CE)" and "e_prims SE = e_prims CE"
    and l: "linked (e_prims CE) (e_kernel SE) a k c sv" and "ready c" and "up sv" and "pending [] []"
    and "k + 47 * length (packets_read evs) < 256 ^ 4" and "\<forall>ev\<in>set evs. event_ok ev"
  shows "(\<exists>n. delivered (link_run push pop (\<lambda>now w. receive SE now rid rk w a) CE evs (idle_link c sv)) =
      tun_written (sv_tun sv) @ take n (packets_read evs)) \<and>
    (47 * length (packets_read evs) \<le> length ts \<longrightarrow>
      delivered (link_run push pop (\<lambda>now w. receive SE now rid rk w a) CE (evs @ map Deliver ts) (idle_link c sv)) =
        tun_written (sv_tun sv) @ packets_read evs)"
proof -
  let ?run = "\<lambda>evs. link_run push pop (\<lambda>now w. receive SE now rid rk w a) CE evs (idle_link c sv)"
  have "carrying (e_prims CE) (e_kernel SE) a k 0 [] (idle_link c sv)"
    using l assms(5-7) unfolding carrying_def linked_def idle_link_def by fastforce
  from carrying_run [OF assms(1-3) this assms(9,8), of rid rk] obtain out qs where
    r: "packets_read evs = out @ qs"
      "carrying (e_prims CE) (e_kernel SE) a (k + 47 * length (packets_read evs)) (47 * length (packets_read evs)) qs (?run evs)"
      "tun_written (sv_tun (lk_server (?run evs))) = tun_written (sv_tun sv) @ out"
    by (auto simp: idle_link_def)
  have "?run (evs @ map Deliver ts) =
      link_run push pop (\<lambda>now w. receive SE now rid rk w a) CE (map Deliver ts) (?run evs)"
    by (simp add: link_run_def)
  with carrying_drain [OF assms(3) r(2), of ts rid rk CE] r(1,3) show ?thesis
    by (auto simp: delivered_def intro!: exI [of _ "length out"])
qed

end

section \<open>UDP\<close>

interpretation udp_tunnel: transport udp_open "\<lambda>_. True" udp_push udp_pop handle_udp_data "\<lambda>q ws. q = ws"
  by unfold_locales (auto simp: udp_open_def udp_push_def client_sync_send_def)

definition udp_link ::
  "('c, 'k, 's, 'p) client_env \<Rightarrow> ('c, 'k, 's, 'p) env \<Rightarrow> bytes \<Rightarrow> 's \<Rightarrow> addr \<Rightarrow> link_event list \<Rightarrow>
   ('c, 's, 'p, bytes) link \<Rightarrow> ('c, 's, 'p, bytes) link" where
  "udp_link CE SE rid rk a = link_run udp_push udp_pop (\<lambda>now w. handle_udp_data SE now rid rk w a) CE"

text \<open>
  Claim C1. The tunnel delivers over UDP: client and server are connected and their channels in
  step, and the network keeps the order of the datagrams. Whatever packets of up to 65536 bytes the
  client's device delivers, and however reads and arrivals interleave, the server's device has been
  given the packets read so far in the same order and unchanged, with nothing in between, but for
  the last ones that are still under way; 47 arrivals per packet, at any times, bring out all of them. The 32-bit
  packet counter has to last.
\<close>

theorem tunnel_delivers:
  assumes "aead_ok (e_prims CE)" and "lz4_ok (e_prims CE)" and "e_prims SE = e_prims CE"
    and "linked (e_prims CE) (e_kernel SE) a k c sv" and "udp_open c"
    and "k + 47 * length (packets_read evs) < 256 ^ 4" and "\<forall>ev\<in>set evs. event_ok ev"
  shows "(\<exists>n. delivered (udp_link CE SE rid rk a evs (idle_link c sv)) =
      tun_written (sv_tun sv) @ take n (packets_read evs)) \<and>
    (47 * length (packets_read evs) \<le> length ts \<longrightarrow>
      delivered (udp_link CE SE rid rk a (evs @ map Deliver ts) (idle_link c sv)) =
        tun_written (sv_tun sv) @ packets_read evs)"
  unfolding udp_link_def
  by (rule udp_tunnel.tunnel [OF assms(1-5) TrueI refl assms(6,7)])

text \<open>The toy client, connected with the toy channel, and the toy server with one ready client.\<close>

definition toy_client_up :: "(bytes, 256 word, 256 word) vpn_client" where
  "toy_client_up = toy_start
     \<lparr>cl_tun := Some ((new_tun ''tun'' empty_os)\<lparr>tun_fd := Some 3\<rparr>), cl_transport := True,
      cl_data := Some toy_channel, cl_handshake_done := True, cl_assigned_ip := Some ''10.8.0.2''\<rparr>"

lemma toy_linked:
  "linked (e_prims toy_client_env) (e_kernel toy_env) (''192.0.2.9'', 4000) 0 toy_client_up toy_ready"
proof -
  have "client_up toy_client_up toy_channel" by (simp add: client_up_def toy_client_up_def)
  moreover have "server_up (e_kernel toy_env) (''192.0.2.9'', 4000) toy_ready toy_channel"
    by (simp add: server_up_def toy_ready_def is_ready_def new_client_session_def is_established_def
        toy_env_def)
  moreover have "in_step toy_prims toy_channel toy_channel"
    unfolding in_step_def using toy_paired toy_window_rel
    by (auto simp: toy_channel_def intro!: exI [of _ "{} :: int set"])
  ultimately show ?thesis
    unfolding linked_def by (intro exI [of _ toy_channel]) (simp add: toy_channel_def toy_client_env_def)
qed

lemma toy_sizes: "ip_packet (0x45 # replicate n 0)" if "n < 65536"
  using that by (simp add: ip_packet_def FRAG_MASK_def)

text \<open>Two packets, the first of them in three fragments.\<close>

theorem tunnel_delivers_witness:
  "delivered (udp_link toy_client_env toy_env [] 5 (''192.0.2.9'', 4000)
     ([Read toy_nonce (0x45 # replicate 4000 0), Deliver 1, Read toy_nonce [0x45]] @ map Deliver (replicate 94 2))
     (idle_link toy_client_up toy_ready)) =
   [0x45 # replicate 4000 0, [0x45]]"
proof -
  let ?evs = "[Read toy_nonce (0x45 # replicate 4000 0), Deliver 1, Read toy_nonce [0x45]]"
  have "\<forall>ev\<in>set ?evs. event_ok ev"
    using toy_sizes [of 4000] toy_sizes [of 0] by simp
  moreover have "tun_written (sv_tun toy_ready) = []" by (simp add: toy_ready_def new_tun_def)
  moreover have "udp_open toy_client_up"
    by (simp add: udp_open_def toy_client_up_def toy_start_def new_client_def client_is_tcp_def toy_client_settings_def)
  ultimately show ?thesis
    using tunnel_delivers [of toy_client_env toy_env _ 0 toy_client_up toy_ready ?evs "[]" 5 "replicate 94 2",
        OF _ _ _ toy_linked] toy_aead_ok toy_lz4_ok
    by (simp add: toy_client_env_def toy_env_def)
qed

section \<open>TCP\<close>

lemma frame_all_snoc:
  "frame_all fr ds = Inr v \<Longrightarrow> fr d = Inr w \<Longrightarrow> frame_all fr (ds @ [d]) = Inr (v @ w)"
  by (induction ds arbitrary: v) (auto simp: res_bind_Inr_iff)

interpretation tcp_tunnel: transport tcp_open sv_running tcp_push read_frame tcp_receive
  "\<lambda>q ws. frame_all frame_packet ws = Inr q"
proof unfold_locales
  fix c :: "('a, 'b, 'c) vpn_client" and w :: bytes and q ws
  assume c: "tcp_open c" and w: "length w < 65536" and q: "frame_all frame_packet ws = Inr q"
  from w obtain x where x: "frame_packet w = Inr x" by (simp add: frame_packet_Inr_iff)
  then show "\<exists>x. client_sync_send w c = (Inr (), c\<lparr>cl_outbox := cl_outbox c @ [x]\<rparr>) \<and>
      frame_all frame_packet (ws @ [w]) = Inr (tcp_push [x] q)"
    using c frame_all_snoc [OF q x] by (simp add: client_sync_send_def tcp_open_def tcp_push_def)
next
  fix q w ws
  assume "frame_all frame_packet (w # ws) = Inr q"
  then obtain v u where "frame_packet w = Inr v" "frame_all frame_packet ws = Inr u" "q = v @ u"
    by (auto simp: res_bind_Inr_iff)
  with tcp.read_framed [of w v q u] show "\<exists>q'. read_frame q = (Some w, q') \<and> frame_all frame_packet ws = Inr q'"
    by auto
next
  fix q assume "frame_all frame_packet [] = Inr q"
  then show "fst (read_frame q) = None" using tcp.read_empty by simp
qed (auto simp: tcp_open_def tcp_push_def tcp_receive_def tcp_frame_running)

definition tcp_link ::
  "('c, 'k, 's, 'p) client_env \<Rightarrow> ('c, 'k, 's, 'p) env \<Rightarrow> bytes \<Rightarrow> 's \<Rightarrow> addr \<Rightarrow> link_event list \<Rightarrow>
   ('c, 's, 'p, byte) link \<Rightarrow> ('c, 's, 'p, byte) link" where
  "tcp_link CE SE rid rk a = link_run tcp_push read_frame (\<lambda>now w. tcp_receive SE now rid rk w a) CE"

text \<open>
  Claim C5. The tunnel delivers over TCP: the same, when the client writes length-prefixed frames to its
  connection and the running server's reader cuts the byte stream into frames again.
\<close>

theorem tcp_tunnel_delivers:
  assumes "aead_ok (e_prims CE)" and "lz4_ok (e_prims CE)" and "e_prims SE = e_prims CE"
    and "linked (e_prims CE) (e_kernel SE) a k c sv" and "tcp_open c" and "sv_running sv"
    and "k + 47 * length (packets_read evs) < 256 ^ 4" and "\<forall>ev\<in>set evs. event_ok ev"
  shows "(\<exists>n. delivered (tcp_link CE SE rid rk a evs (idle_link c sv)) =
      tun_written (sv_tun sv) @ take n (packets_read evs)) \<and>
    (47 * length (packets_read evs) \<le> length ts \<longrightarrow>
      delivered (tcp_link CE SE rid rk a (evs @ map Deliver ts) (idle_link c sv)) =
        tun_written (sv_tun sv) @ packets_read evs)"
  unfolding tcp_link_def
  by (rule tcp_tunnel.tunnel [OF assms(1-6) _ assms(7,8)]) simp

text \<open>The same two processes in TCP mode.\<close>

definition toy_tcp_client :: "(bytes, 256 word, 256 word) vpn_client" where
  "toy_tcp_client = toy_client_up
     \<lparr>cl_config := (cl_config toy_client_up)\<lparr>s_proto := ''tcp''\<rparr>, cl_writer := True\<rparr>"

theorem tcp_tunnel_delivers_witness:
  "delivered (tcp_link toy_client_env toy_env [] 5 (''192.0.2.9'', 4000)
     ([Read toy_nonce (0x45 # replicate 4000 0), Deliver 1, Read toy_nonce [0x45]] @ map Deliver (replicate 94 2))
     (idle_link toy_tcp_client (toy_ready\<lparr>sv_running := True\<rparr>))) =
   [0x45 # replicate 4000 0, [0x45]]"
proof -
  let ?evs = "[Read toy_nonce (0x45 # replicate 4000 0), Deliver 1, Read toy_nonce [0x45]]"
  have "\<forall>ev\<in>set ?evs. event_ok ev"
    using toy_sizes [of 4000] toy_sizes [of 0] by simp
  moreover have "tun_written (sv_tun toy_ready) = []" by (simp add: toy_ready_def new_tun_def)
  moreover have "tcp_open toy_tcp_client"
    by (simp add: tcp_open_def toy_tcp_client_def toy_client_up_def client_is_tcp_def)
  moreover from toy_linked have "linked (e_prims toy_client_env) (e_kernel toy_env) (''192.0.2.9'', 4000) 0
      toy_tcp_client (toy_ready\<lparr>sv_running := True\<rparr>)"
    by (simp add: linked_def client_up_def server_up_def toy_tcp_client_def)
  ultimately show ?thesis
    using tcp_tunnel_delivers [of toy_client_env toy_env _ 0 toy_tcp_client "toy_ready\<lparr>sv_running := True\<rparr>"
        ?evs "[]" 5 "replicate 94 2"] toy_aead_ok toy_lz4_ok
    by (simp add: toy_client_env_def toy_env_def)
qed

end
