(* ===== verification/Connection.thy ===== *)
theory Connection
  imports Tunnel
begin

text \<open>
  A connection from its first datagram: a client process and a server process exchange the
  messages they write to their sockets until both ends are up, as datagrams or as frames of a TCP
  connection. The network delivers what the events of a run say, in the order each side has sent.
\<close>

declare split_paired_All [simp del] split_paired_Ex [simp del]

section \<open>Messages on the wire\<close>

text \<open>A control packet of kind \<open>k\<close>, as both dispatchers take it apart.\<close>

definition control_msg :: "MessageType \<Rightarrow> bytes \<Rightarrow> bool" where
  "control_msg k m \<longleftrightarrow> m \<noteq> [] \<and> unat (hd m) = opcode_val CONTROL \<and>
     (\<exists>sid. decode_packet m = Inr (CONTROL, sid, word_of_nat (msg_val k) # inner_of m))"

lemma control_msgI: "encode_handshake_message (msg_val k) sid p = Inr m \<Longrightarrow> control_msg k m"
proof -
  assume m: "encode_handshake_message (msg_val k) sid p = Inr m"
  then have d: "decode_packet m = Inr (CONTROL, sid, word_of_nat (msg_val k) # p)"
    by (auto simp: encode_handshake_message_eq dest!: decode_encode)
  from m have "m = word_of_nat (opcode_val CONTROL) # be_bytes 8 sid @ word_of_nat (msg_val k) # p"
    by (auto simp: encode_handshake_message_eq encode_packet_Inr_iff)
  then show ?thesis using d inner_of_handshake_message [OF m] by (auto simp: control_msg_def)
qed

lemma start_message: "client_start_handshake c = (Inr [m], d) \<Longrightarrow> m \<noteq> [] \<and> unat (hd m) = 1"
  by (auto simp: client_start_handshake_def res_bind_Inr_iff encode_packet_Inr_iff)

lemma reset_message: "server_handle_reset now w s = (Inr [m], t) \<Longrightarrow> m \<noteq> [] \<and> unat (hd m) = 2"
  by (auto simp: server_handle_reset_def meth_Inr_iff encode_packet_Inr_iff split: if_splits)

lemma msg_of_byte: "msg_of (unat (word_of_nat (msg_val k) :: byte)) = Inr k"
  by (cases k) (simp_all add: msg_of_def)

lemma ack_message: "client_handle_reset_ack P w c = (Inr [m], d) \<Longrightarrow> control_msg CLIENT_HELLO m"
  by (auto simp: client_handle_reset_ack_def meth_Inr_iff simp del: msg_val.simps split: if_splits
      intro: control_msgI)

lemma guarded_message: "guarded body s = ([m], t) \<Longrightarrow> body s = (Inr [m], t)"
  by (auto simp: guarded_def split: prod.splits sum.splits)

lemma server_hello_message:
  "server_handle_client_hello P w s = ([m], t) \<Longrightarrow>
     control_msg SERVER_HELLO m \<and> \<not> is_established t"
  unfolding server_handle_client_hello_def
  by (drule guarded_message)
    (auto simp: meth_Inr_iff m_upd_Inr_iff fail_handshake_def is_established_def simp del: msg_val.simps
      split: if_splits intro: control_msgI)

lemma client_finished_message:
  "client_handle_server_hello P w c = ([m], d) \<Longrightarrow> control_msg CLIENT_FINISHED m"
  unfolding client_handle_server_hello_def
  by (drule guarded_message)
    (auto simp: meth_Inr_iff fail_handshake_def Let_def simp del: msg_val.simps split: if_splits
      intro: control_msgI)

text \<open>The run of \<open>Handshake_Props\<close>, taken apart.\<close>

lemma handshake_steps:
  assumes "handshake P now c s = Some (c', s')"
  shows "\<exists>m1 m2 m3 m4 m5 c1 c2 s1 s2. client_start_handshake c = (Inr [m1], c1) \<and>
    server_handle_reset now m1 s = (Inr [m2], s1) \<and> client_handle_reset_ack P m2 c1 = (Inr [m3], c2) \<and>
    server_handle_client_hello P (inner_of m3) s1 = ([m4], s2) \<and>
    client_handle_server_hello P (inner_of m4) c2 = ([m5], c') \<and>
    server_handle_client_finished P (inner_of m5) s2 = ([], s')"
  using assms unfolding handshake_def
  by (auto split: prod.splits sum.splits list.splits)

section \<open>The network\<close>

text \<open>
  One parameter distinguishes the two modes: \<open>None\<close> is UDP, \<open>Some w\<close> is the TCP connection that
  the server knows by its writer \<open>w\<close>. It fixes what a message is on the wire, what the server
  writes, and what a side receives next: in TCP mode the next frame of all the bytes that have
  arrived.
\<close>

type_synonym mode = "nat option"

fun carried :: "mode \<Rightarrow> bytes \<Rightarrow> bytes" where
  "carried None w = w"
| "carried (Some n) w = be_bytes 2 (length w) @ w"

fun posted :: "addr \<Rightarrow> mode \<Rightarrow> bytes \<Rightarrow> sent" where
  "posted a None w = Udp a w"
| "posted a (Some n) w = Tcp n (be_bytes 2 (length w) @ w)"

fun sent_to :: "addr \<Rightarrow> mode \<Rightarrow> sent list \<Rightarrow> bytes list" where
  "sent_to a wr [] = []"
| "sent_to a wr (Udp b w # xs) = (if wr = None \<and> b = a then w # sent_to a wr xs else sent_to a wr xs)"
| "sent_to a wr (Tcp n w # xs) = (if wr = Some n then w # sent_to a wr xs else sent_to a wr xs)"

fun take_message :: "mode \<Rightarrow> bytes list \<Rightarrow> bytes option \<times> bytes list" where
  "take_message None q = udp_pop q"
| "take_message (Some n) q =
     (case read_frame (concat q) of (None, r) \<Rightarrow> (None, q) | (Some m, r) \<Rightarrow> (Some m, [r]))"

definition fits :: "mode \<Rightarrow> bytes \<Rightarrow> bool" where
  "fits wr w \<longleftrightarrow> wr = None \<or> length w < 65536"

text \<open>\<open>q\<close> carries the messages \<open>ws\<close>.\<close>

definition pending :: "mode \<Rightarrow> bytes list \<Rightarrow> bytes list \<Rightarrow> bool" where
  "pending wr q ws \<longleftrightarrow>
     (case wr of None \<Rightarrow> q = ws | Some n \<Rightarrow> frame_all frame_packet ws = Inr (concat q))"

lemma frame_all_append:
  "frame_all fr (ds @ es) = res_bind (frame_all fr ds) (\<lambda>v. res_bind (frame_all fr es) (\<lambda>w. Inr (v @ w)))"
  by (induction ds) (auto simp: res_bind_def split: sum.splits)

lemma frame_all_carried:
  "\<forall>w\<in>set ws. fits (Some n) w \<Longrightarrow> frame_all frame_packet ws = Inr (concat (map (carried (Some n)) ws))"
  by (induction ws) (simp_all add: fits_def res_bind_Inr_iff frame_packet_Inr_iff)

lemma pending_append:
  assumes "pending wr q ws" and "\<forall>v\<in>set vs. fits wr v"
  shows "pending wr (q @ map (carried wr) vs) (ws @ vs)"
  using assms
  by (cases wr) (simp_all add: pending_def frame_all_append frame_all_carried res_bind_Inr_iff, simp add: map_idI)

lemma pending_take:
  assumes "pending wr q (w # ws)"
  shows "\<exists>q'. take_message wr q = (Some w, q') \<and> pending wr q' ws"
proof (cases wr)
  case None
  with assms show ?thesis by (simp add: pending_def)
next
  case (Some n)
  with assms obtain v u where "frame_packet w = Inr v" "frame_all frame_packet ws = Inr u" "concat q = v @ u"
    by (auto simp: pending_def res_bind_Inr_iff)
  with Some tcp.read_framed [of w v "concat q" u] show ?thesis by (auto simp: pending_def)
qed

lemma sent_to_posted [simp]: "sent_to a wr (map (posted a wr) ws) = map (carried wr) ws"
  by (induction ws; cases wr) simp_all

text \<open>
  The two processes and what is under way between them. The
  events of a run deliver the next message of one direction, or let one of the main loops
  turn, or let the server accept the TCP connection; \<open>rid\<close> and \<open>rk\<close> are the draws of a session the server may create.
\<close>

record ('c, 's, 'p) net =
  net_client :: "('c, 's, 'p) vpn_client"
  net_server :: "('c, 's, 'p) vpn_server"
  net_up :: "bytes list"
  net_down :: "bytes list"

datatype event = To_server real | To_client real | Client_turn real | Server_tick real | Accept real

definition server_receive ::
  "('c, 'k, 's, 'p) env \<Rightarrow> mode \<Rightarrow> real \<Rightarrow> bytes \<Rightarrow> 's \<Rightarrow> bytes \<Rightarrow> addr \<Rightarrow>
   ('c, 's, 'p) vpn_server \<Rightarrow> ('c, 's, 'p) vpn_server" where
  "server_receive SE wr now rid rk m a sv =
     (case wr of
        None \<Rightarrow> snd (handle_udp_data SE now rid rk m a sv)
      | Some n \<Rightarrow> snd (tcp_frame SE now rid rk (Some m) a sv))"

definition client_receive ::
  "('c, 'k, 's, 'p) client_env \<Rightarrow> mode \<Rightarrow> real \<Rightarrow> bytes \<Rightarrow> ('c, 's, 'p) vpn_client \<Rightarrow>
   ('c, 's, 'p) vpn_client" where
  "client_receive CE wr now m c =
     (case wr of
        None \<Rightarrow> snd (client_datagram CE now m c)
      | Some n \<Rightarrow> snd (tcp_read_turn CE now (Some m) c))"

fun net_step ::
  "('c, 'k, 's, 'p) client_env \<Rightarrow> ('c, 'k, 's, 'p) env \<Rightarrow> bytes \<Rightarrow> 's \<Rightarrow> addr \<Rightarrow> mode \<Rightarrow> event \<Rightarrow>
   ('c, 's, 'p) net \<Rightarrow> ('c, 's, 'p) net" where
  "net_step CE SE rid rk a wr (To_server now) n =
     (case take_message wr (net_up n) of
        (None, _) \<Rightarrow> n
      | (Some m, q) \<Rightarrow>
          let sv = net_server n; t = server_receive SE wr now rid rk m a sv in
          n\<lparr>net_server := t, net_up := q,
            net_down := net_down n @ sent_to a wr (drop (length (outbox sv)) (outbox t))\<rparr>)"
| "net_step CE SE rid rk a wr (To_client now) n =
     (case take_message wr (net_down n) of
        (None, _) \<Rightarrow> n
      | (Some m, q) \<Rightarrow>
          let c = net_client n; d = client_receive CE wr now m c in
          n\<lparr>net_client := d, net_down := q,
            net_up := net_up n @ drop (length (cl_outbox c)) (cl_outbox d)\<rparr>)"
| "net_step CE SE rid rk a wr (Client_turn now) n = n\<lparr>net_client := snd (turn CE now (net_client n))\<rparr>"
| "net_step CE SE rid rk a wr (Server_tick now) n =
     (let sv = net_server n; t = snd (tick SE now sv) in
      n\<lparr>net_server := t, net_down := net_down n @ sent_to a wr (drop (length (outbox sv)) (outbox t))\<rparr>)"
| "net_step CE SE rid rk a wr (Accept now) n =
     (case wr of
        None \<Rightarrow> n
      | Some w \<Rightarrow> n\<lparr>net_server := snd (tcp_connected SE now rid rk a w (net_server n))\<rparr>)"

definition net_run ::
  "('c, 'k, 's, 'p) client_env \<Rightarrow> ('c, 'k, 's, 'p) env \<Rightarrow> bytes \<Rightarrow> 's \<Rightarrow> addr \<Rightarrow> mode \<Rightarrow> event list \<Rightarrow>
   ('c, 's, 'p) net \<Rightarrow> ('c, 's, 'p) net" where
  "net_run CE SE rid rk a wr = fold (net_step CE SE rid rk a wr)"

section \<open>The server's steps\<close>

text \<open>The session a process configures before its first message.\<close>

definition configured ::
  "('c, 'k, 's, 'p) pki \<Rightarrow> settings \<Rightarrow> bool \<Rightarrow> bytes \<Rightarrow> 's \<Rightarrow> real \<Rightarrow> unit res \<times> ('c, 's, 'p) session" where
  "configured P cfg server sid sk now =
     (let s = new_session P server sid sk now in
      if authenticated_mode cfg
      then configure P (or_empty (s_ca cfg)) (or_empty (s_cert cfg)) (or_empty (s_key cfg)) s
      else (Inr (), s))"

text \<open>The server holds a session without a channel for the client and has sent these messages.\<close>

definition joining ::
  "('c, 's, 'p) vpn_server \<Rightarrow> addr \<Rightarrow> mode \<Rightarrow> ('c, 's, 'p) session \<Rightarrow> bytes list \<Rightarrow> ('c, 's, 'p) vpn_server \<Rightarrow> bool" where
  "joining sv a wr s ws t \<longleftrightarrow> sv_pool t = sv_pool sv \<and> sv_tun t = sv_tun sv \<and> sv_config t = sv_config sv \<and>
     sv_transport t = sv_transport sv \<and> sv_running t = sv_running sv \<and> outbox t = outbox sv @ map (posted a wr) ws \<and>
     (\<exists>cs. map_of (sv_clients t) a = Some cs \<and> cs_addr cs = a \<and> cs_writer cs = wr \<and>
        cs_session cs = s \<and> cs_data cs = None)"

text \<open>The server's socket of either mode is open.\<close>

definition server_open :: "mode \<Rightarrow> ('c, 's, 'p) vpn_server \<Rightarrow> bool" where
  "server_open wr sv \<longleftrightarrow>
     (case wr of None \<Rightarrow> \<not> is_tcp (sv_config sv) \<and> sv_transport sv | Some n \<Rightarrow> is_tcp (sv_config sv) \<and> sv_running sv)"

lemma server_open_cong:
  "server_open wr sv \<Longrightarrow> sv_config t = sv_config sv \<Longrightarrow> sv_transport t = sv_transport sv \<Longrightarrow>
     sv_running t = sv_running sv \<Longrightarrow> server_open wr t"
  by (simp add: server_open_def split: option.splits)

lemma joining_open: "joining sv a wr s ws t \<Longrightarrow> server_open wr sv \<Longrightarrow> server_open wr t"
  by (rule server_open_cong) (simp_all add: joining_def)

lemma send_posted:
  assumes "server_open wr sv" and "fits wr d" and "cs_writer cs = wr"
  shows "sync_send_to cs d sv = (Inr (), sv\<lparr>outbox := outbox sv @ [posted (cs_addr cs) wr d]\<rparr>)"
proof (cases wr)
  case None
  with assms show ?thesis by (simp add: sync_send_to_def server_open_def)
next
  case (Some n)
  with assms(2) have "frame_packet d = Inr (be_bytes 2 (length d) @ d)" by (simp add: fits_def frame_packet_Inr_iff)
  with Some assms show ?thesis by (simp add: sync_send_to_def server_open_def)
qed

lemma send_udp:
  "\<not> is_tcp (sv_config sv) \<Longrightarrow> sv_transport sv \<Longrightarrow>
     sync_send_to cs d sv = (Inr (), sv\<lparr>outbox := outbox sv @ [Udp (cs_addr cs) d]\<rparr>)"
  by (simp add: sync_send_to_def)

text \<open>A new client: in TCP mode it is registered when it connects, in UDP mode by its reset.\<close>

lemma new_client:
  assumes new: "map_of (sv_clients sv) a = None"
    and s: "configured (e_pki SE) (sv_config sv) True rid rk now = (Inr (), s)"
  shows "\<exists>cs t. get_or_create_session SE now rid rk a wr sv = (Inr cs, t) \<and> joining sv a wr s [] t \<and>
    map_of (sv_clients t) a = Some cs"
proof -
  let ?cs = "(new_client_session now a s)\<lparr>cs_writer := wr\<rparr>"
  have "get_or_create_session SE now rid rk a wr sv =
      (Inr ?cs, sv\<lparr>sv_clients := AList.update a ?cs (sv_clients sv)\<rparr>)"
    using new s by (simp add: get_or_create_session_def Let_def configured_def split: if_splits)
  then show ?thesis by (simp add: joining_def map_of_update new_client_session_def)
qed

lemma handle_reset_known:
  assumes g: "get_or_create_session SE now rid rk a None u = (Inr cs, v)" and j: "joining sv a wr s [] v"
    and c: "map_of (sv_clients v) a = Some cs" and r: "server_handle_reset now m s = (Inr [w], s1)"
    and o: "server_open wr sv" "fits wr w"
  shows "\<exists>t. handle_reset SE now rid rk m a u = (Inr (), t) \<and> joining sv a wr s1 [w] t"
proof -
  from j c have cs: "cs_addr cs = a" "cs_writer cs = wr" "cs_session cs = s" "cs_data cs = None"
    by (auto simp: joining_def)
  let ?v = "upd_client a (\<lambda>c. c\<lparr>cs_session := s1\<rparr>) v"
  have "server_open wr ?v" using j by (intro server_open_cong [OF o(1)]) (simp_all add: joining_def)
  from send_posted [OF this o(2) cs(2)] have "sync_send_to cs w ?v = (Inr (), ?v\<lparr>outbox := outbox v @ [posted a wr w]\<rparr>)"
    by (simp add: cs(1))
  then show ?thesis
    using j r cs c unfolding handle_reset_def m_bind_def [of "get_or_create_session SE now rid rk a None"] g
    by (simp add: meth_defs joining_def upd_client_clients)
qed

lemma reset_dispatch:
  "m \<noteq> [] \<Longrightarrow> unat (hd m) = 1 \<Longrightarrow> handle_udp_data SE now rid rk m a sv = handle_reset SE now rid rk m a sv"
  by (simp add: handle_udp_data_def Let_def hd_conv_nth [symmetric])

lemma server_reset_step:
  assumes new: "map_of (sv_clients sv) a = None" and m: "m \<noteq> []" "unat (hd m) = 1"
    and s: "configured (e_pki SE) (sv_config sv) True rid rk now = (Inr (), s)"
    and r: "server_handle_reset now m s = (Inr [w], s1)" and o: "server_open None sv"
  shows "\<exists>t. handle_udp_data SE now rid rk m a sv = (Inr (), t) \<and> joining sv a None s1 [w] t"
proof -
  from new_client [OF new s, of None] obtain cs v where
    "get_or_create_session SE now rid rk a None sv = (Inr cs, v)" "joining sv a None s [] v"
    "map_of (sv_clients v) a = Some cs" by blast
  from handle_reset_known [OF this r o] show ?thesis unfolding reset_dispatch [OF m] by (simp add: fits_def)
qed

lemma server_accepts:
  assumes "map_of (sv_clients sv) a = None"
    and "configured (e_pki SE) (sv_config sv) True rid rk now = (Inr (), s)"
    and "sv_running sv"
  shows "\<exists>t. tcp_connected SE now rid rk a n sv = (Inr (), t) \<and> joining sv a (Some n) s [] t"
proof -
  from new_client [OF assms(1,2), of "Some n"] obtain cs t where
    g: "get_or_create_session SE now rid rk a (Some n) sv = (Inr cs, t)" and j: "joining sv a (Some n) s [] t"
    by blast
  from j assms(3) have "sv_running t" by (simp add: joining_def)
  with g j show ?thesis by (simp add: tcp_connected_def tcp_next_def meth_defs)
qed

lemma server_reset_again:
  assumes j: "joining sv a wr s [] u" and m: "m \<noteq> []" "unat (hd m) = 1"
    and r: "server_handle_reset now m s = (Inr [w], s1)" and o: "server_open wr sv" "fits wr w"
  shows "\<exists>t. handle_udp_data SE now rid rk m a u = (Inr (), t) \<and> joining sv a wr s1 [w] t"
proof -
  from j obtain cs where c: "map_of (sv_clients u) a = Some cs" by (auto simp: joining_def)
  then have "get_or_create_session SE now rid rk a None u = (Inr cs, u)" by (simp add: get_or_create_session_def)
  from handle_reset_known [OF this j c r o] show ?thesis unfolding reset_dispatch [OF m] .
qed

lemma server_control:
  assumes c: "map_of (sv_clients sv) a = Some cs" and m: "control_msg k m"
    and h: "control_handler (e_pki SE) k = Some h" "h (inner_of m) (cs_session cs) = (ps, s')"
  shows "handle_udp_data SE now rid rk m a sv =
    m_seq (m_for (sync_send_to (cs\<lparr>last_seen := now\<rparr>)) ps) (open_channel SE a)
      (upd_client a (\<lambda>c. c\<lparr>cs_session := s'\<rparr>) (upd_client a (\<lambda>c. c\<lparr>last_seen := now\<rparr>) sv))"
proof -
  from m obtain sid where d: "decode_packet m = Inr (CONTROL, sid, word_of_nat (msg_val k) # inner_of m)"
    and ne: "m \<noteq> []" "unat (m ! 0) = opcode_val CONTROL"
    by (auto simp: control_msg_def hd_conv_nth)
  have "handle_udp_data SE now rid rk m a sv =
      handle_control SE m a (cs\<lparr>last_seen := now\<rparr>) (upd_client a (\<lambda>c. c\<lparr>last_seen := now\<rparr>) sv)"
    using c ne by (simp add: handle_udp_data_def Let_def)
  then show ?thesis
    using h by (simp add: handle_control_def d msg_of_byte Let_def meth_defs)
qed

lemma server_hello_step:
  assumes j: "joining sv a wr s1 ws u" and m: "control_msg CLIENT_HELLO m"
    and h: "server_handle_client_hello (e_pki SE) (inner_of m) s1 = ([w], s2)"
    and o: "server_open wr sv" "fits wr w"
  shows "\<exists>t. handle_udp_data SE now rid rk m a u = (Inr (), t) \<and> joining sv a wr s2 (ws @ [w]) t"
proof -
  from j obtain cs where cs: "map_of (sv_clients u) a = Some cs" "cs_addr cs = a" "cs_writer cs = wr"
    "cs_session cs = s1" "cs_data cs = None" by (auto simp: joining_def)
  have c: "control_handler (e_pki SE) CLIENT_HELLO = Some (server_handle_client_hello (e_pki SE))"
    by (simp add: control_handler_def)
  let ?v = "upd_client a (\<lambda>c. c\<lparr>cs_session := s2\<rparr>) (upd_client a (\<lambda>c. c\<lparr>last_seen := now\<rparr>) u)"
  have "server_open wr ?v" using j by (intro server_open_cong [OF o(1)]) (simp_all add: joining_def)
  from send_posted [OF this o(2), of "cs\<lparr>last_seen := now\<rparr>"] cs(2,3)
  have "sync_send_to (cs\<lparr>last_seen := now\<rparr>) w ?v = (Inr (), ?v\<lparr>outbox := outbox u @ [posted a wr w]\<rparr>)" by simp
  then show ?thesis
    unfolding server_control [OF cs(1) m c, unfolded cs(4), OF h]
    using j cs server_hello_message [OF h]
    by (simp add: meth_defs joining_def upd_client_clients open_channel_def)
qed

lemma add_route_runs:
  assumes "all_succeed W"
  shows "\<exists>t. add_route W net via dev s = (Inr (), t)"
proof -
  from assms obtain out err where "sh W (commands s) (route_cmd ''add'' net via dev) = Exited 0 out err"
    unfolding all_succeed_def by blast
  then show ?thesis by (simp add: add_route_def run_proc_def)
qed

text \<open>The packet that carries an address, and the server that has sent it.\<close>

definition ip_assign_packet :: "bytes \<Rightarrow> string \<Rightarrow> bytes" where
  "ip_assign_packet sid ip = 3 # sid @ 6 # utf8_encode ip"

lemma control_packet_assign:
  "length sid = 8 \<Longrightarrow> control_packet sid IP_ASSIGN (utf8_encode ip) = Inr (ip_assign_packet sid ip)"
  using of_be_bound [of sid]
  by (simp add: control_packet_def ip_assign_packet_def pack_def res_bind_def be_bytes_of_be_length)

definition joined ::
  "('c, 's, 'p) vpn_server \<Rightarrow> addr \<Rightarrow> mode \<Rightarrow> data_channel \<Rightarrow> string \<Rightarrow> bytes list \<Rightarrow>
   ('c, 's, 'p) vpn_server \<Rightarrow> bool" where
  "joined sv a wr ch ip ws t \<longleftrightarrow> tun_fd (sv_tun t) = tun_fd (sv_tun sv) \<and> sv_running t = sv_running sv \<and>
     outbox t = outbox sv @ map (posted a wr) ws \<and>
     (\<exists>cs. map_of (sv_clients t) a = Some cs \<and> is_ready cs \<and> cs_data cs = Some ch \<and> virtual_ip cs = Some ip)"

lemma server_assign:
  assumes W: "all_succeed (e_world SE)"
    and p: "allocate (addr_str a) p = (Inr (Some ip), q)" "sv_pool u = Some p"
    and cs: "cs_addr cs = a" "cs_writer cs = wr" "length (session_id (cs_session cs)) = 8"
    and c: "map_of (sv_clients u) a = Some c"
    and o: "server_open wr u" "fits wr (ip_assign_packet (session_id (cs_session cs)) ip)"
  shows "\<exists>t. assign_ip_to_client SE cs u = (Inr (Some ip), t) \<and>
    tun_fd (sv_tun t) = tun_fd (sv_tun u) \<and> sv_running t = sv_running u \<and>
    outbox t = outbox u @ [posted a wr (ip_assign_packet (session_id (cs_session cs)) ip)] \<and>
    map_of (sv_clients t) a =
      Some (c\<lparr>virtual_ip := Some ip, cs_session := (cs_session c)\<lparr>assigned_ip := Some ip\<rparr>\<rparr>)"
proof -
  obtain m where m: "add_route (e_world SE) ip None (Some (s_dev (sv_config u)))
    (tun_os (sv_tun u)) = (Inr (), m)"
    using add_route_runs [OF W] by blast
  have send: "sync_send_to cs (ip_assign_packet (session_id (cs_session cs)) ip) v =
      (Inr (), v\<lparr>outbox := outbox v @ [posted a wr (ip_assign_packet (session_id (cs_session cs)) ip)]\<rparr>)"
    if "sv_config v = sv_config u" "sv_transport v = sv_transport u" "sv_running v = sv_running u" for v
    using send_posted [OF server_open_cong [OF o(1) that] o(2) cs(2)] cs(1) by simp
  show ?thesis
    using p cs c m send
    by (simp add: assign_ip_to_client_def client_id_def Let_def control_packet_assign meth_defs
        on_os_def upd_client_clients)
qed

lemma server_finished_step:
  assumes j: "joining sv a wr s2 ws u" and m: "control_msg CLIENT_FINISHED m"
    and h: "server_handle_client_finished (e_pki SE) (inner_of m) s2 = ([], s')"
    and est: "is_established s'" and len: "length (session_id s') = 8"
    and ch: "new_data_channel (e_prims SE) (session_id s') (or_empty (peer_session_id s')) (cipher s')
        (s_comp_lzo (sv_config sv)) 64 = Inr ch"
    and W: "all_succeed (e_world SE)" and p: "sv_pool sv = Some p"
      "allocate (addr_str a) p = (Inr (Some ip), q)"
    and o: "server_open wr sv" "fits wr (ip_assign_packet (session_id s') ip)"
  shows "\<exists>t. handle_udp_data SE now rid rk m a u = (Inr (), t) \<and>
    joined sv a wr ch ip (ws @ [ip_assign_packet (session_id s') ip]) t"
proof -
  from j obtain cs where cs: "map_of (sv_clients u) a = Some cs" "cs_addr cs = a" "cs_writer cs = wr"
    "cs_session cs = s2" "cs_data cs = None" by (auto simp: joining_def)
  have c: "control_handler (e_pki SE) CLIENT_FINISHED = Some (server_handle_client_finished (e_pki SE))"
    by (simp add: control_handler_def)
  let ?v = "upd_client a (\<lambda>c. c\<lparr>cs_session := s'\<rparr>) (upd_client a (\<lambda>c. c\<lparr>last_seen := now\<rparr>) u)"
  let ?cs = "cs\<lparr>last_seen := now, cs_session := s'\<rparr>"
  let ?w = "upd_client a (\<lambda>c. c\<lparr>cs_data := Some ch\<rparr>) ?v"
  have v: "map_of (sv_clients ?v) a = Some ?cs" using cs(1) by (simp add: upd_client_clients)
  from j have u: "sv_config ?w = sv_config sv" "sv_transport ?w = sv_transport sv" "sv_pool ?w = Some p"
    using p(1) by (simp_all add: joining_def)
  have w: "map_of (sv_clients ?w) a = Some (?cs\<lparr>cs_data := Some ch\<rparr>)"
    using cs(1) by (simp add: upd_client_clients)
  have ow: "server_open wr ?w" using j by (intro server_open_cong [OF o(1)]) (simp_all add: joining_def)
  from server_assign [OF W p(2) u(3) _ _ _ w ow, of "?cs\<lparr>cs_data := Some ch\<rparr>"] cs(2,3) len o(2)
  obtain t where t: "assign_ip_to_client SE (?cs\<lparr>cs_data := Some ch\<rparr>) ?w = (Inr (Some ip), t)"
    "tun_fd (sv_tun t) = tun_fd (sv_tun ?w)" "sv_running t = sv_running ?w"
    "outbox t = outbox ?w @ [posted a wr (ip_assign_packet (session_id s') ip)]"
    "map_of (sv_clients t) a = Some (?cs\<lparr>cs_data := Some ch, virtual_ip := Some ip,
        cs_session := s'\<lparr>assigned_ip := Some ip\<rparr>\<rparr>)" by auto
  have "open_channel SE a ?v = (Inr (), t)"
    using v est ch cs(5) u(1) t(1) by (simp add: open_channel_def meth_defs)
  moreover have "joined sv a wr ch ip (ws @ [ip_assign_packet (session_id s') ip]) t"
    using t(2-5) j est by (simp add: joined_def joining_def is_ready_def is_established_def)
  ultimately show ?thesis
    unfolding server_control [OF cs(1) m c, unfolded cs(4), OF h] by (simp add: meth_defs)
qed

section \<open>The client's steps\<close>

text \<open>The client waits in its main loop with this session and has sent these messages.\<close>

definition client_open :: "mode \<Rightarrow> ('c, 's, 'p) vpn_client \<Rightarrow> bool" where
  "client_open wr c \<longleftrightarrow> (case wr of None \<Rightarrow> udp_open c | Some n \<Rightarrow> tcp_open c)"

definition waiting ::
  "mode \<Rightarrow> ('c, 's, 'p) vpn_client \<Rightarrow> ('c, 's, 'p) session \<Rightarrow> bytes list \<Rightarrow> ('c, 's, 'p) vpn_client \<Rightarrow> bool" where
  "waiting wr c s ws d \<longleftrightarrow> cl_config d = cl_config c \<and> cl_running d \<and> client_open wr d \<and>
     \<not> cl_handshake_done d \<and> cl_session d = s \<and> cl_outbox d = cl_outbox c @ map (carried wr) ws \<and>
     (\<exists>t fd. cl_tun d = Some t \<and> tun_fd t = Some fd)"

lemma client_open_cong:
  "client_open wr c \<Longrightarrow> cl_config d = cl_config c \<Longrightarrow> cl_transport d = cl_transport c \<Longrightarrow>
     cl_writer d = cl_writer c \<Longrightarrow> client_open wr d"
  by (simp add: client_open_def udp_open_def tcp_open_def split: option.splits)

lemma client_send:
  assumes "client_open wr c" and "fits wr w"
  shows "client_sync_send w c = (Inr (), c\<lparr>cl_outbox := cl_outbox c @ [carried wr w]\<rparr>)"
proof (cases wr)
  case None
  with assms show ?thesis by (simp add: client_open_def udp_open_def client_sync_send_def)
next
  case (Some n)
  with assms(2) have "frame_packet w = Inr (be_bytes 2 (length w) @ w)" by (simp add: fits_def frame_packet_Inr_iff)
  with Some assms show ?thesis by (simp add: client_open_def tcp_open_def client_sync_send_def)
qed

lemma client_attempt_step:
  assumes c: "truthy (s_remote (cl_config c))" "\<not> cl_connected c" "client_is_tcp (cl_config c) \<longleftrightarrow> wr \<noteq> None"
    and t: "cl_tun c = Some t" "tun_fd t = Some fd"
    and s: "configured (e_pki CE) (cl_config c) False sid sk now = (Inr (), s)"
    and st: "client_start_handshake s = (Inr [w], s1)" and fits: "fits wr w"
  shows "\<exists>d. attempt CE sid sk now (Inr ()) (Inr ()) c = (Looping, d) \<and> waiting wr c s1 [w] d"
proof -
  let ?b = "c\<lparr>cl_running := True, cl_handshake_done := False, cl_assigned_ip := None, cl_data := None, cl_session := s\<rparr>"
  let ?a = "if wr \<noteq> None then ?b\<lparr>cl_writer := True\<rparr> else ?b\<lparr>cl_transport := True\<rparr>"
  let ?o = "?a\<lparr>cl_tun := Some (t\<lparr>tun_os := cl_os c\<rparr>), cl_session := s1\<rparr>"
  have b: "begin_attempt CE sid sk now c = (Inr (), ?b)"
    using t(1) s
    by (auto simp: begin_attempt_def meth_defs cl_on_session_def configured_def Let_def split: if_splits)
  have o: "client_open wr ?o" using c(3) by (simp add: client_open_def udp_open_def tcp_open_def split: option.split)
  have "attempt CE sid sk now (Inr ()) (Inr ()) c = (Looping, ?o\<lparr>cl_outbox := cl_outbox c @ [carried wr w]\<rparr>)"
    using c t st client_send [OF o fits]
    by (cases wr) (simp_all add: attempt_def m_seq_def [of "begin_attempt CE sid sk now"]
        m_bind_def [of "begin_attempt CE sid sk now"] b connect_def meth_defs cl_on_session_def
        cl_on_tun_def tun_fileno_def)
  moreover have "waiting wr c s1 [w] (?o\<lparr>cl_outbox := cl_outbox c @ [carried wr w]\<rparr>)"
    using t client_open_cong [OF o, of "?o\<lparr>cl_outbox := cl_outbox c @ [carried wr w]\<rparr>"]
    by (simp add: waiting_def)
  ultimately show ?thesis by blast
qed

lemma client_replies:
  assumes w: "waiting wr c s ws d" and o: "fits wr x"
    and h: "client_datagram CE now m d = m_bind (cl_on_session h) (m_for client_sync_send)
      (d\<lparr>cl_last_seen := now, cl_status := u\<rparr>)" "h s = (Inr [x], s')"
  shows "\<exists>e. client_datagram CE now m d = (Inr (), e) \<and> waiting wr c s' (ws @ [x]) e"
proof -
  let ?d = "d\<lparr>cl_last_seen := now, cl_status := u, cl_session := s'\<rparr>"
  from w have "client_open wr ?d" by (auto simp: waiting_def intro: client_open_cong)
  from client_send [OF this o] have "client_datagram CE now m d = (Inr (), ?d\<lparr>cl_outbox := cl_outbox d @ [carried wr x]\<rparr>)"
    using w h by (simp add: waiting_def cl_on_session_def meth_defs)
  moreover have "waiting wr c s' (ws @ [x]) (?d\<lparr>cl_outbox := cl_outbox d @ [carried wr x]\<rparr>)"
    using w by (auto simp: waiting_def intro: client_open_cong)
  ultimately show ?thesis by blast
qed

lemma client_ack_step:
  assumes w: "waiting wr c s1 ws d" and m: "m \<noteq> []" "unat (hd m) = 2"
    and h: "client_handle_reset_ack (e_pki CE) m s1 = (Inr [x], s2)" and o: "fits wr x"
  shows "\<exists>e. client_datagram CE now m d = (Inr (), e) \<and> waiting wr c s2 (ws @ [x]) e"
  by (rule client_replies [OF w o, where h = "client_handle_reset_ack (e_pki CE) m"])
    (use m h in \<open>simp_all add: client_datagram_def Let_def hd_conv_nth [symmetric]\<close>)

lemma client_hello_step:
  assumes w: "waiting wr c s2 ws d" and m: "control_msg SERVER_HELLO m"
    and h: "client_handle_server_hello (e_pki CE) (inner_of m) s2 = ([x], s3)" and o: "fits wr x"
  shows "\<exists>e. client_datagram CE now m d = (Inr (), e) \<and> waiting wr c s3 (ws @ [x]) e"
proof -
  from m obtain sid where d: "decode_packet m = Inr (CONTROL, sid, word_of_nat (msg_val SERVER_HELLO) # inner_of m)"
    and ne: "m \<noteq> []" "unat (m ! 0) = opcode_val CONTROL"
    by (auto simp: control_msg_def hd_conv_nth)
  show ?thesis
    by (rule client_replies [OF w o, where h = "\<lambda>s. case client_handle_server_hello (e_pki CE) (inner_of m) s of
          (ps, t) \<Rightarrow> (Inr ps, t)"])
      (use ne h in \<open>simp_all add: client_datagram_def client_control_def d msg_of_byte Let_def meth_defs
        del: msg_val.simps\<close>)
qed

text \<open>The client has taken the address \<open>ip\<close> at the time \<open>now\<close>.\<close>

definition addressed :: "string \<Rightarrow> real \<Rightarrow> ('c, 's, 'p) vpn_client \<Rightarrow> bool" where
  "addressed ip now d \<longleftrightarrow> cl_assigned_ip d = Some ip \<and> cl_last_seen d = now"

lemma client_assign_step:
  assumes w: "waiting wr c s3 ws d" and W: "all_succeed (e_world CE)" and u: "s_user (cl_config c) = None"
    and sid: "length sid = 8" and ip: "utf8_decode (utf8_encode ip) = Inr ip" "CHR ''/'' \<notin> set ip"
  shows "\<exists>e. client_datagram CE now (ip_assign_packet sid ip) d = (Inr (), e) \<and> waiting wr c s3 ws e \<and>
    addressed ip now e"
proof -
  let ?m = "ip_assign_packet sid ip"
  let ?d = "d\<lparr>cl_last_seen := now, cl_status := map_option (record_in (length ?m)) (cl_status d)\<rparr>"
  from w obtain t fd where t: "cl_tun ?d = Some t" "tun_fd t = Some fd" and us: "s_user (cl_config ?d) = None"
    using u by (auto simp: waiting_def)
  from ip_assign_effect [OF W ip(2) t(1) us, of now] obtain e where
    e: "handle_ip_assign CE now ip ?d = (Inr (), e)" "cl_assigned_ip e = Some ip" "same_client ?d e" by blast
  have "client_datagram CE now ?m d = (Inr (), e)"
    using ip_assign_datagram [OF sid ip(1), of CE now d] e(1) by (simp add: ip_assign_packet_def)
  moreover from w e(3) have "client_open wr e"
    by (auto simp: waiting_def same_client_def intro: client_open_cong)
  then have "waiting wr c s3 ws e" "addressed ip now e"
    using w e(2,3) t by (auto simp: waiting_def same_client_def addressed_def)
  ultimately show ?thesis by blast
qed

lemma client_up_step:
  assumes w: "waiting wr c s ws d" and a: "addressed ip heard d" "ip \<noteq> []"
    and est: "is_established s"
    and ch: "new_data_channel (e_prims CE) (session_id s) (or_empty (peer_session_id s)) (cipher s)
        (s_comp_lzo (cl_config c)) 64 = Inr ch"
    and soon: "now - heard \<le> real_of_int (s_timeout (cl_config c))"
  shows "client_up (snd (turn CE now d)) ch \<and> client_open wr (snd (turn CE now d)) \<and>
    cl_assigned_ip (snd (turn CE now d)) = Some ip"
  using assms
  by (auto simp: waiting_def addressed_def turn_def connect_turn_def meth_defs open_data_channel_def Let_def
      timed_out_def client_up_def intro: client_open_cong)

section \<open>The size of the handshake\<close>

text \<open>
  A TCP frame holds at most 65535 bytes, which the three messages with a certificate or a
  signature keep if these are not larger than this.
\<close>

definition small_hellos :: "('c, 'k, 's, 'p) pki \<Rightarrow> mode \<Rightarrow> ('c, 's, 'p) session \<Rightarrow> bool" where
  "small_hellos P wr s \<longleftrightarrow> wr = None \<or>
     length (or_empty (local_cert_bytes s)) + length (public_key_to_bytes P (public_eph s)) \<le> 60000 \<and>
     (\<forall>data sig. sign P (local_key_path s) data = Inr sig \<longrightarrow> length sig \<le> 5000)"

definition same_self :: "('c, 's, 'p) session \<Rightarrow> ('c, 's, 'p) session \<Rightarrow> bool" where
  "same_self s t \<longleftrightarrow> local_cert_bytes t = local_cert_bytes s \<and> public_eph t = public_eph s \<and>
     local_key_path t = local_key_path s"

lemma small_hellos_cong: "small_hellos P wr s \<Longrightarrow> same_self s t \<Longrightarrow> small_hellos P wr t"
  by (simp add: small_hellos_def same_self_def)

lemma start_size: "client_start_handshake c = (Inr [m], d) \<Longrightarrow> fits wr m \<and> same_self c d"
  by (auto simp: client_start_handshake_def res_bind_Inr_iff encode_packet_Inr_iff fits_def same_self_def)

lemma reset_size: "server_handle_reset now w s = (Inr [m], t) \<Longrightarrow> fits wr m \<and> same_self s t"
  by (auto simp: server_handle_reset_def meth_Inr_iff m_upd_Inr_iff encode_packet_Inr_iff fits_def same_self_def
      split: if_splits)

lemma handshake_message_size:
  "encode_handshake_message (msg_val k) sid p = Inr m \<Longrightarrow> length m = length p + 10"
  by (auto simp: encode_handshake_message_eq encode_packet_Inr_iff)

lemma ack_size:
  "client_handle_reset_ack P w c = (Inr [m], d) \<Longrightarrow> small_hellos P wr c \<Longrightarrow> fits wr m \<and> same_self c d"
  by (auto simp: client_handle_reset_ack_def meth_Inr_iff m_upd_Inr_iff fits_def same_self_def small_hellos_def
      pack_cert_and_pubkey_Inr_iff simp del: msg_val.simps split: if_splits dest!: handshake_message_size)

lemma derive_session_key_self: "derive_session_key P q s = (Inr (), t) \<Longrightarrow> same_self s t"
  by (auto simp: derive_session_key_def meth_Inr_iff m_upd_Inr_iff same_self_def)

lemma server_hello_size:
  "server_handle_client_hello P w s = ([m], t) \<Longrightarrow> small_hellos P wr s \<Longrightarrow> fits wr m \<and> same_self s t"
  unfolding server_handle_client_hello_def
  by (drule guarded_message)
    (auto simp: meth_Inr_iff m_upd_Inr_iff fail_handshake_def fits_def same_self_def small_hellos_def
      pack_cert_and_pubkey_Inr_iff pack_lv_Inr_iff simp del: msg_val.simps
      split: if_splits dest!: handshake_message_size derive_session_key_self, (drule spec)+, drule mp, assumption, simp)

lemma client_finished_size:
  "client_handle_server_hello P w c = ([m], d) \<Longrightarrow> small_hellos P wr c \<Longrightarrow> fits wr m"
  unfolding client_handle_server_hello_def
  by (drule guarded_message)
    (auto simp: meth_Inr_iff m_upd_Inr_iff fail_handshake_def Let_def fits_def same_self_def small_hellos_def
      pack_lv_Inr_iff simp del: msg_val.simps
      split: if_splits dest!: handshake_message_size derive_session_key_self, (drule spec)+, drule mp, assumption, simp)

lemma assign_size: "length sid = 8 \<Longrightarrow> length ip \<le> 16 \<Longrightarrow> fits wr (ip_assign_packet sid ip)"
  by (simp add: fits_def ip_assign_packet_def utf8_encode_def)

section \<open>The whole exchange\<close>

lemma server_receives:
  "handle_udp_data SE now rid rk m a sv = (Inr (), t) \<Longrightarrow> server_open wr sv \<Longrightarrow>
     server_receive SE wr now rid rk m a sv = t"
  by (simp add: server_receive_def server_open_def tcp_frame_running split: option.splits)

lemma client_receives:
  "client_datagram CE now m c = (Inr (), d) \<Longrightarrow> waiting wr b s ws c \<Longrightarrow> client_receive CE wr now m c = d"
  by (simp add: client_receive_def waiting_def client_open_def tcp_open_def tcp_read_turn_def meth_defs
      split: option.splits)

text \<open>The two processes, with these messages under way.\<close>

definition flying ::
  "mode \<Rightarrow> ('c, 's, 'p) vpn_client \<Rightarrow> ('c, 's, 'p) vpn_server \<Rightarrow> bytes list \<Rightarrow> bytes list \<Rightarrow>
   ('c, 's, 'p) net \<Rightarrow> bool" where
  "flying wr c sv us ds n \<longleftrightarrow> net_client n = c \<and> net_server n = sv \<and> pending wr (net_up n) us \<and>
     pending wr (net_down n) ds"

lemma net_to_server:
  assumes n: "flying wr c sv (m # us) ds n" and h: "handle_udp_data SE now rid rk m a sv = (Inr (), t)"
    and o: "server_open wr sv" and t: "outbox t = outbox sv @ map (posted a wr) ws" "\<forall>w\<in>set ws. fits wr w"
  shows "flying wr c t us (ds @ ws) (net_step CE SE rid rk a wr (To_server now) n)"
proof -
  from n have f: "net_client n = c" "net_server n = sv" "pending wr (net_up n) (m # us)" "pending wr (net_down n) ds"
    by (simp_all add: flying_def)
  from pending_take [OF f(3)] obtain q where q: "take_message wr (net_up n) = (Some m, q)" "pending wr q us" by blast
  show ?thesis
    using f q t(1) pending_append [OF f(4) t(2)] server_receives [OF h o] by (simp add: flying_def Let_def)
qed

lemma net_to_client:
  assumes n: "flying wr c sv us (m # ds) n" and h: "client_datagram CE now m c = (Inr (), d)"
    and o: "waiting wr b s xs c" and d: "cl_outbox d = cl_outbox c @ map (carried wr) ws" "\<forall>w\<in>set ws. fits wr w"
  shows "flying wr d sv (us @ ws) ds (net_step CE SE rid rk a wr (To_client now) n)"
proof -
  from n have f: "net_client n = c" "net_server n = sv" "pending wr (net_up n) us" "pending wr (net_down n) (m # ds)"
    by (simp_all add: flying_def)
  from pending_take [OF f(4)] obtain q where q: "take_message wr (net_down n) = (Some m, q)" "pending wr q ds" by blast
  show ?thesis
    using f q d(1) pending_append [OF f(3) d(2)] client_receives [OF h o] by (simp add: flying_def Let_def)
qed

text \<open>The server has answered the reset; what follows, on both sides at once.\<close>

lemma exchange:
  assumes st: "client_handle_reset_ack (e_pki CE) m2 cs1 = (Inr [m3], cs2)"
      "server_handle_client_hello (e_pki SE) (inner_of m3) s1 = ([m4], s2)"
      "client_handle_server_hello (e_pki CE) (inner_of m4) cs2 = ([m5], c')"
      "server_handle_client_finished (e_pki SE) (inner_of m5) s2 = ([], s')"
    and m2: "m2 \<noteq> []" "unat (hd m2) = 2"
    and n: "flying wr d0 v1 [] [m2] n" and v1: "joining sv a wr s1 [m2] v1" and d0: "waiting wr c cs1 [m1] d0"
    and so: "server_open wr sv"
    and small: "small_hellos (e_pki CE) wr cs1" "small_hellos (e_pki SE) wr s1"
    and est: "is_established s'" and sid: "length (session_id s') = 8"
    and u: "s_user (cl_config c) = None"
    and p: "sv_pool sv = Some p" "allocate (addr_str a) p = (Inr (Some ip), q)"
    and ip: "utf8_decode (utf8_encode ip) = Inr ip" "CHR ''/'' \<notin> set ip" "length ip \<le> 16"
    and W: "all_succeed (e_world CE)" "all_succeed (e_world SE)"
    and ch: "new_data_channel (e_prims SE) (session_id s') (or_empty (peer_session_id s')) (cipher s')
        (s_comp_lzo (sv_config sv)) 64 = Inr ch"
  shows "\<exists>d t ws vs. flying wr d t [] [] (net_run CE SE rid rk a wr
      [To_client t2, To_server t3, To_client t4, To_server t5, To_client t6] n) \<and>
    waiting wr c c' ws d \<and> addressed ip t6 d \<and> joined sv a wr ch ip vs t"
proof -
  note f3 = ack_size [OF st(1) small(1)]
  note f4 = server_hello_size [OF st(2) small(2)]
  note f5 = client_finished_size [OF st(3) small_hellos_cong [OF small(1) f3 [THEN conjunct2]]]
  let ?m6 = "ip_assign_packet (session_id s') ip"
  note f6 = assign_size [OF sid ip(3), of wr]
  from client_ack_step [OF d0 m2 st(1) f3 [THEN conjunct1]] obtain d1 where
    2: "client_datagram CE t2 m2 d0 = (Inr (), d1)" "waiting wr c cs2 ([m1] @ [m3]) d1" by blast
  from server_hello_step [OF v1 ack_message [OF st(1)] st(2) so f4 [THEN conjunct1]] obtain v2 where
    3: "handle_udp_data SE t3 rid rk m3 a v1 = (Inr (), v2)" "joining sv a wr s2 ([m2] @ [m4]) v2" by blast
  from client_hello_step [OF 2(2) server_hello_message [OF st(2), THEN conjunct1] st(3) f5] obtain d2 where
    4: "client_datagram CE t4 m4 d1 = (Inr (), d2)" "waiting wr c c' (([m1] @ [m3]) @ [m5]) d2" by blast
  from server_finished_step [OF 3(2) client_finished_message [OF st(3)] st(4) est sid ch W(2) p so f6] obtain v3 where
    5: "handle_udp_data SE t5 rid rk m5 a v2 = (Inr (), v3)" "joined sv a wr ch ip (([m2] @ [m4]) @ [?m6]) v3" by blast
  from client_assign_step [OF 4(2) W(1) u sid ip(1,2)] obtain d3 where
    6: "client_datagram CE t6 ?m6 d2 = (Inr (), d3)" "waiting wr c c' (([m1] @ [m3]) @ [m5]) d3" "addressed ip t6 d3" by blast
  have ob: "outbox v2 = outbox v1 @ map (posted a wr) [m4]" "outbox v3 = outbox v2 @ map (posted a wr) [?m6]"
    using v1 3(2) 5(2) by (simp_all add: joining_def joined_def)
  have co: "cl_outbox d1 = cl_outbox d0 @ map (carried wr) [m3]" "cl_outbox d2 = cl_outbox d1 @ map (carried wr) [m5]"
    "cl_outbox d3 = cl_outbox d2 @ map (carried wr) []"
    using d0 2(2) 4(2) 6(2) by (simp_all add: waiting_def)
  have so': "server_open wr v1" "server_open wr v2"
    using joining_open [OF v1 so] joining_open [OF 3(2) so] by simp_all
  have fit: "\<forall>w\<in>set [m3]. fits wr w" "\<forall>w\<in>set [m4]. fits wr w" "\<forall>w\<in>set [m5]. fits wr w"
    "\<forall>w\<in>set [?m6]. fits wr w" "\<forall>w\<in>set []. fits wr w"
    using f3 f4 f5 f6 by simp_all
  note n = net_to_client [OF n 2(1) d0 co(1) fit(1), of SE rid rk a, unfolded append.simps]
  note n = net_to_server [OF n 3(1) so'(1) ob(1) fit(2), of CE, unfolded append.simps]
  note n = net_to_client [OF n 4(1) 2(2) co(2) fit(3), of SE rid rk a, unfolded append.simps]
  note n = net_to_server [OF n 5(1) so'(2) ob(2) fit(4), of CE, unfolded append.simps]
  note n = net_to_client [OF n 6(1) 4(2) co(3) fit(5), of SE rid rk a, unfolded append.simps]
  have "flying wr d3 v3 [] [] (net_run CE SE rid rk a wr
      [To_client t2, To_server t3, To_client t4, To_server t5, To_client t6] n)"
    unfolding net_run_def fold.simps comp_apply id_apply
    by (rule n)
  then show ?thesis using 5(2) 6(2,3) by blast
qed

lemma configured_fresh:
  "configured P cfg server sid sk now = (Inr (), s) \<Longrightarrow> length sid = 8 \<Longrightarrow> H sk \<Longrightarrow>
     fresh P H s \<and> session_id s = sid"
  by (auto simp: configured_def Let_def configure_def new_session_def generate_ephemeral_keypair_def fresh_def
      split: if_splits sum.splits)

text \<open>The two sessions the processes configure run the handshake and open channels in step.\<close>

lemma sessions_meet:
  assumes dh: "dh_ok P H" and sid: "length sid = 8" "H sk" and rid: "length rid = 8" "H rk"
    and cs: "configured P ccfg False sid sk t0 = (Inr (), cs)" and ss: "configured P scfg True rid rk t1 = (Inr (), ss)"
    and acc: "accepts P cs ss" "accepts P ss cs"
  obtains c' s' ch1 ch2 where "handshake P now cs ss = Some (c', s')" and "is_established c'" and "is_established s'"
    and "length (session_id s') = 8"
    and "new_data_channel Q (session_id c') (or_empty (peer_session_id c')) (cipher c') (s_comp_lzo ccfg) 64 = Inr ch1"
    and "new_data_channel Q (session_id s') (or_empty (peer_session_id s')) (cipher s') (s_comp_lzo scfg) 64 = Inr ch2"
    and "in_step Q ch1 ch2" and "packet_counter ch1 = 0"
proof -
  note fc = configured_fresh [OF cs sid(1), of H, OF sid(2)]
    and fs = configured_fresh [OF ss rid(1), of H, OF rid(2)]
  from opened_channels [OF dh fc [THEN conjunct1] fs [THEN conjunct1] acc, of now Q "s_comp_lzo ccfg" "s_comp_lzo scfg"]
  obtain c' s' ch1 ch2 where h: "handshake P now cs ss = Some (c', s')" "is_established c'" "is_established s'"
      "session_id s' = session_id ss"
    and ch: "new_data_channel Q (session_id c') (or_empty (peer_session_id c')) (cipher c') (s_comp_lzo ccfg) 64 = Inr ch1"
      "new_data_channel Q (session_id s') (or_empty (peer_session_id s')) (cipher s') (s_comp_lzo scfg) 64 = Inr ch2"
      "in_step Q ch1 ch2" by auto
  have "packet_counter ch1 = 0" using ch(1) by (auto simp: new_data_channel_def res_bind_Inr_iff)
  moreover have "length (session_id s') = 8" using h(4) fs rid(1) by simp
  ultimately show ?thesis using that h(1-3) ch by blast
qed

text \<open>A client that can start an attempt, and a server that has room for one more client.\<close>

definition ready_client :: "mode \<Rightarrow> ('c, 's, 'p) vpn_client \<Rightarrow> bool" where
  "ready_client wr c \<longleftrightarrow> truthy (s_remote (cl_config c)) \<and> \<not> cl_connected c \<and>
     (client_is_tcp (cl_config c) \<longleftrightarrow> wr \<noteq> None) \<and> s_user (cl_config c) = None \<and>
     (\<exists>t fd. cl_tun c = Some t \<and> tun_fd t = Some fd)"

definition ready_server :: "kernel \<Rightarrow> addr \<Rightarrow> mode \<Rightarrow> ('c, 's, 'p) vpn_server \<Rightarrow> bool" where
  "ready_server K a wr sv \<longleftrightarrow> server_open wr sv \<and>
     map_of (sv_clients sv) a = None \<and> (\<exists>p. sv_pool sv = Some p \<and> pool_ok p \<and> available p \<noteq> {}) \<and>
     (\<exists>fd. tun_fd (sv_tun sv) = Some fd \<and> (\<forall>p. \<exists>n. os_write K fd p = Inr n))"

text \<open>
  Both ends are up, in step and with no packet sent, and the address the client has taken is
  the one the server has registered for it.
\<close>

definition agreed :: "prims \<Rightarrow> kernel \<Rightarrow> addr \<Rightarrow> mode \<Rightarrow> ('c, 's, 'p) net \<Rightarrow> bool" where
  "agreed P K a wr n \<longleftrightarrow> linked P K a 0 (net_client n) (net_server n) \<and> client_open wr (net_client n) \<and>
     (\<exists>ip cl. cl_assigned_ip (net_client n) = Some ip \<and>
        map_of (sv_clients (net_server n)) a = Some cl \<and> virtual_ip cl = Some ip)"

text \<open>Once the server has answered the reset, the rest of the exchange brings both ends up.\<close>

lemma exchange_agrees:
  assumes dh: "dh_ok (e_pki CE) H" and P: "e_pki SE = e_pki CE" "e_prims SE = e_prims CE"
    and W: "all_succeed (e_world CE)" "all_succeed (e_world SE)"
    and c: "ready_client wr c" and sv: "ready_server (e_kernel SE) a wr sv"
    and ids: "length sid = 8" "H sk" "length rid = 8" "H rk"
    and cs: "configured (e_pki CE) (cl_config c) False sid sk t0 = (Inr (), cs)"
    and ss: "configured (e_pki CE) (sv_config sv) True rid rk ta = (Inr (), ss)"
    and acc: "accepts (e_pki CE) cs ss" "accepts (e_pki CE) ss cs"
    and small: "small_hellos (e_pki CE) wr cs" "small_hellos (e_pki CE) wr ss"
    and soon: "t7 - t6 \<le> real_of_int (s_timeout (cl_config c))"
  obtains m1 cs1 m2 s1 where "client_start_handshake cs = (Inr [m1], cs1)"
    and "server_handle_reset t1 m1 ss = (Inr [m2], s1)"
    and "\<forall>d v n. waiting wr c cs1 [m1] d \<longrightarrow> joining sv a wr s1 [m2] v \<longrightarrow> flying wr d v [] [m2] n \<longrightarrow>
      agreed (e_prims CE) (e_kernel SE) a wr (net_run CE SE rid rk a wr
        [To_client t2, To_server t3, To_client t4, To_server t5, To_client t6, Client_turn t7] n)"
proof -
  from sv obtain p where so: "server_open wr sv" "sv_pool sv = Some p" and p: "pool_ok p" "available p \<noteq> {}"
    and fd: "\<exists>fd. tun_fd (sv_tun sv) = Some fd \<and> (\<forall>p. \<exists>n. os_write (e_kernel SE) fd p = Inr n)"
    unfolding ready_server_def by blast
  from c have u: "s_user (cl_config c) = None" unfolding ready_client_def by blast
  from allocate_cases [OF p(1), of "addr_str a"] p(2) obtain i q where
    al: "allocate (addr_str a) p = (Inr (Some (ip_str i)), q)" by cases auto
  have slash: "CHR ''/'' \<notin> set (ip_str i)" using ip_str_chars by (force simp: is_digit_def)
  obtain c' s' ch1 ch2 where
    h: "handshake (e_pki CE) t1 cs ss = Some (c', s')" "is_established c'" "is_established s'" "length (session_id s') = 8"
    and ch: "new_data_channel (e_prims CE) (session_id c') (or_empty (peer_session_id c')) (cipher c')
        (s_comp_lzo (cl_config c)) 64 = Inr ch1"
      "new_data_channel (e_prims SE) (session_id s') (or_empty (peer_session_id s')) (cipher s')
        (s_comp_lzo (sv_config sv)) 64 = Inr ch2"
    and s: "in_step (e_prims CE) ch1 ch2" "packet_counter ch1 = 0"
    unfolding P(2) by (rule sessions_meet [OF dh ids cs ss acc])
  from handshake_steps [OF h(1)] obtain m1 m2 m3 m4 m5 cs1 cs2 s1 s2 where
    m1: "client_start_handshake cs = (Inr [m1], cs1)" and m2: "server_handle_reset t1 m1 ss = (Inr [m2], s1)"
    and st: "client_handle_reset_ack (e_pki CE) m2 cs1 = (Inr [m3], cs2)"
      "server_handle_client_hello (e_pki SE) (inner_of m3) s1 = ([m4], s2)"
      "client_handle_server_hello (e_pki CE) (inner_of m4) cs2 = ([m5], c')"
      "server_handle_client_finished (e_pki SE) (inner_of m5) s2 = ([], s')" by (auto simp: P)
  have small': "small_hellos (e_pki CE) wr cs1" "small_hellos (e_pki SE) wr s1"
    using small start_size [OF m1] reset_size [OF m2] by (auto simp: P intro: small_hellos_cong)
  have rest: "agreed (e_prims CE) (e_kernel SE) a wr (net_run CE SE rid rk a wr
      [To_client t2, To_server t3, To_client t4, To_server t5, To_client t6, Client_turn t7] n)"
    if d: "waiting wr c cs1 [m1] d" and v: "joining sv a wr s1 [m2] v" and n: "flying wr d v [] [m2] n" for d v n
  proof -
    let ?n = "net_run CE SE rid rk a wr [To_client t2, To_server t3, To_client t4, To_server t5, To_client t6] n"
    from exchange [OF st reset_message [OF m2, THEN conjunct1] reset_message [OF m2, THEN conjunct2] n v d so(1)
        small' h(3,4) u so(2) al ip_str_decode slash ip_str_short W ch(2)]
    obtain e t ws vs where e: "flying wr e t [] [] ?n" "waiting wr c c' ws e" "addressed (ip_str i) t6 e"
      "joined sv a wr ch2 (ip_str i) vs t" by blast
    note up = client_up_step [OF e(2,3) ip_str_nonempty h(2) ch(1) soon]
    have "server_up (e_kernel SE) a t ch2" using e(4) fd unfolding server_up_def joined_def by auto
    then have "linked (e_prims CE) (e_kernel SE) a 0 (snd (turn CE t7 e)) t"
      unfolding linked_def using up s by auto
    moreover have "net_run CE SE rid rk a wr
        [To_client t2, To_server t3, To_client t4, To_server t5, To_client t6, Client_turn t7] n =
          ?n\<lparr>net_client := snd (turn CE t7 (net_client ?n))\<rparr>" by (simp add: net_run_def del: net_step.simps(1,2))
    ultimately show ?thesis using e(1,4) up unfolding agreed_def flying_def joined_def by auto
  qed
  show ?thesis by (rule that [OF m1 m2]) (use rest in blast)
qed

lemma attempt_flies:
  assumes c: "ready_client wr c" and s: "configured (e_pki CE) (cl_config c) False sid sk t0 = (Inr (), cs)"
    and m1: "client_start_handshake cs = (Inr [m1], cs1)"
  shows "\<exists>d. attempt CE sid sk t0 (Inr ()) (Inr ()) c = (Looping, d) \<and> waiting wr c cs1 [m1] d \<and>
    flying wr d sv [m1] [] \<lparr>net_client = d, net_server = sv, net_up = drop (length (cl_outbox c)) (cl_outbox d), net_down = []\<rparr>"
proof -
  note fit = start_size [OF m1, of wr, THEN conjunct1]
  from c obtain t fd where "truthy (s_remote (cl_config c))" "\<not> cl_connected c"
    "client_is_tcp (cl_config c) \<longleftrightarrow> wr \<noteq> None" "cl_tun c = Some t" "tun_fd t = Some fd"
    unfolding ready_client_def by blast
  from client_attempt_step [OF this s m1 fit] obtain d where
    d: "attempt CE sid sk t0 (Inr ()) (Inr ()) c = (Looping, d)" "waiting wr c cs1 [m1] d" by blast
  have "pending wr [] []" by (simp add: pending_def split: option.split)
  with pending_append [OF this, of "[m1]"] fit d show ?thesis by (auto simp: flying_def waiting_def)
qed

text \<open>
  Claim C3. A connection comes up over UDP: a client that starts an attempt, and a server in UDP mode
  with a free address that does not know it, deliver each other's datagrams in order; if the
  sessions they configure accept each other, then after six datagrams and one turn of the
  client's loop both ends are connected, with their data channels in step and no packet sent,
  and the address the client has taken is the one the server has registered for it.
\<close>

theorem connection_comes_up:
  assumes "dh_ok (e_pki CE) H" and "e_pki SE = e_pki CE" and "e_prims SE = e_prims CE"
    and "all_succeed (e_world CE)" and "all_succeed (e_world SE)"
    and "ready_client None c" and "ready_server (e_kernel SE) a None sv"
    and "length sid = 8" and "H sk" and "length rid = 8" and "H rk"
    and "configured (e_pki CE) (cl_config c) False sid sk t0 = (Inr (), cs)"
    and "configured (e_pki CE) (sv_config sv) True rid rk t1 = (Inr (), ss)"
    and "accepts (e_pki CE) cs ss" and "accepts (e_pki CE) ss cs"
    and "t7 - t6 \<le> real_of_int (s_timeout (cl_config c))"
  shows "\<exists>d n ip cl. attempt CE sid sk t0 (Inr ()) (Inr ()) c = (Looping, d) \<and>
    net_run CE SE rid rk a None
      [To_server t1, To_client t2, To_server t3, To_client t4, To_server t5, To_client t6, Client_turn t7]
      \<lparr>net_client = d, net_server = sv, net_up = drop (length (cl_outbox c)) (cl_outbox d), net_down = []\<rparr> = n \<and>
    linked (e_prims CE) (e_kernel SE) a 0 (net_client n) (net_server n) \<and> udp_open (net_client n) \<and>
    cl_assigned_ip (net_client n) = Some ip \<and>
    map_of (sv_clients (net_server n)) a = Some cl \<and> virtual_ip cl = Some ip"
proof -
  from assms(7) have sv: "server_open None sv" "map_of (sv_clients sv) a = None"
    unfolding ready_server_def by blast+
  have small: "small_hellos (e_pki CE) None s" for s by (simp add: small_hellos_def)
  obtain m1 cs1 m2 s1 where m: "client_start_handshake cs = (Inr [m1], cs1)" "server_handle_reset t1 m1 ss = (Inr [m2], s1)"
    and rest: "\<forall>d v n. waiting None c cs1 [m1] d \<longrightarrow> joining sv a None s1 [m2] v \<longrightarrow> flying None d v [] [m2] n \<longrightarrow>
      agreed (e_prims CE) (e_kernel SE) a None (net_run CE SE rid rk a None
        [To_client t2, To_server t3, To_client t4, To_server t5, To_client t6, Client_turn t7] n)"
    by (rule exchange_agrees [where ?t1.0 = t1 and ?t2.0 = t2 and ?t3.0 = t3 and ?t4.0 = t4 and ?t5.0 = t5,
        OF assms(1-15) small small assms(16)])
  from attempt_flies [OF assms(6,12) m(1)] obtain d where
    d: "attempt CE sid sk t0 (Inr ()) (Inr ()) c = (Looping, d)" "waiting None c cs1 [m1] d"
      "flying None d sv [m1] [] \<lparr>net_client = d, net_server = sv, net_up = drop (length (cl_outbox c)) (cl_outbox d), net_down = []\<rparr>"
    by blast
  have ss: "configured (e_pki SE) (sv_config sv) True rid rk t1 = (Inr (), ss)" using assms(2,13) by simp
  from server_reset_step [OF sv(2) _ _ ss m(2) sv(1)] start_message [OF m(1)] obtain v where
    v: "handle_udp_data SE t1 rid rk m1 a sv = (Inr (), v)" "joining sv a None s1 [m2] v" by blast
  have "outbox v = outbox sv @ map (posted a None) [m2]" "\<forall>w\<in>set [m2]. fits None w"
    using v(2) by (simp_all add: joining_def fits_def)
  from net_to_server [OF d(3) v(1) sv(1) this, of CE, unfolded append.simps]
  have "agreed (e_prims CE) (e_kernel SE) a None (net_run CE SE rid rk a None
      [To_server t1, To_client t2, To_server t3, To_client t4, To_server t5, To_client t6, Client_turn t7]
      \<lparr>net_client = d, net_server = sv, net_up = drop (length (cl_outbox c)) (cl_outbox d), net_down = []\<rparr>)"
    unfolding net_run_def fold_Cons [of _ "To_server t1"] comp_apply
    by (rule rest [rule_format, OF d(2) v(2), unfolded net_run_def])
  then show ?thesis using d(1) by (auto simp: agreed_def client_open_def)
qed

text \<open>
  Claim C4. A connection comes up over TCP: the same, when the server accepts the client's
  connection first, both sides write frames and read them from the byte stream, and the
  certificates and signatures leave the messages of the handshake within a frame.
\<close>

theorem tcp_connection_comes_up:
  assumes "dh_ok (e_pki CE) H" and "e_pki SE = e_pki CE" and "e_prims SE = e_prims CE"
    and "all_succeed (e_world CE)" and "all_succeed (e_world SE)"
    and "ready_client (Some w) c" and "ready_server (e_kernel SE) a (Some w) sv"
    and "length sid = 8" and "H sk" and "length rid = 8" and "H rk"
    and "configured (e_pki CE) (cl_config c) False sid sk t0 = (Inr (), cs)"
    and "configured (e_pki CE) (sv_config sv) True rid rk ta = (Inr (), ss)"
    and "accepts (e_pki CE) cs ss" and "accepts (e_pki CE) ss cs"
    and "small_hellos (e_pki CE) (Some w) cs" and "small_hellos (e_pki CE) (Some w) ss"
    and "t7 - t6 \<le> real_of_int (s_timeout (cl_config c))"
  shows "\<exists>d n ip cl. attempt CE sid sk t0 (Inr ()) (Inr ()) c = (Looping, d) \<and>
    net_run CE SE rid rk a (Some w)
      [Accept ta, To_server t1, To_client t2, To_server t3, To_client t4, To_server t5, To_client t6, Client_turn t7]
      \<lparr>net_client = d, net_server = sv, net_up = drop (length (cl_outbox c)) (cl_outbox d), net_down = []\<rparr> = n \<and>
    linked (e_prims CE) (e_kernel SE) a 0 (net_client n) (net_server n) \<and> tcp_open (net_client n) \<and>
    cl_assigned_ip (net_client n) = Some ip \<and>
    map_of (sv_clients (net_server n)) a = Some cl \<and> virtual_ip cl = Some ip"
proof -
  from assms(7) have sv: "server_open (Some w) sv" "map_of (sv_clients sv) a = None"
    unfolding ready_server_def by blast+
  obtain m1 cs1 m2 s1 where m: "client_start_handshake cs = (Inr [m1], cs1)" "server_handle_reset t1 m1 ss = (Inr [m2], s1)"
    and rest: "\<forall>d v n. waiting (Some w) c cs1 [m1] d \<longrightarrow> joining sv a (Some w) s1 [m2] v \<longrightarrow>
      flying (Some w) d v [] [m2] n \<longrightarrow>
      agreed (e_prims CE) (e_kernel SE) a (Some w) (net_run CE SE rid rk a (Some w)
        [To_client t2, To_server t3, To_client t4, To_server t5, To_client t6, Client_turn t7] n)"
    by (rule exchange_agrees [where ?t1.0 = t1 and ?t2.0 = t2 and ?t3.0 = t3 and ?t4.0 = t4 and ?t5.0 = t5,
        OF assms])
  have ss: "configured (e_pki SE) (sv_config sv) True rid rk ta = (Inr (), ss)" using assms(2,13) by simp
  have run: "sv_running sv" using sv(1) by (simp add: server_open_def)
  from server_accepts [OF sv(2) ss run, of w] obtain u where
    u: "tcp_connected SE ta rid rk a w sv = (Inr (), u)" "joining sv a (Some w) ss [] u" by blast
  note fit = reset_size [OF m(2), of "Some w", THEN conjunct1]
  from server_reset_again [OF u(2) _ _ m(2) sv(1) fit] start_message [OF m(1)] obtain v where
    v: "handle_udp_data SE t1 rid rk m1 a u = (Inr (), v)" "joining sv a (Some w) s1 [m2] v" by blast
  from attempt_flies [OF assms(6,12) m(1), of sv] obtain d where
    d: "attempt CE sid sk t0 (Inr ()) (Inr ()) c = (Looping, d)" "waiting (Some w) c cs1 [m1] d"
      "flying (Some w) d sv [m1] [] \<lparr>net_client = d, net_server = sv,
        net_up = drop (length (cl_outbox c)) (cl_outbox d), net_down = []\<rparr>" by blast
  let ?n = "\<lparr>net_client = d, net_server = sv, net_up = drop (length (cl_outbox c)) (cl_outbox d), net_down = []\<rparr>"
  have f: "flying (Some w) d u [m1] [] (net_step CE SE rid rk a (Some w) (Accept ta) ?n)"
    using d(3) u(1) by (simp add: flying_def)
  have "outbox v = outbox u @ map (posted a (Some w)) [m2]" "\<forall>x\<in>set [m2]. fits (Some w) x"
    using u(2) v(2) fit by (simp_all add: joining_def)
  from net_to_server [OF f v(1) joining_open [OF u(2) sv(1)] this, of CE, unfolded append.simps]
  have "agreed (e_prims CE) (e_kernel SE) a (Some w) (net_run CE SE rid rk a (Some w)
      [Accept ta, To_server t1, To_client t2, To_server t3, To_client t4, To_server t5, To_client t6, Client_turn t7] ?n)"
    unfolding net_run_def fold_Cons [of _ "Accept ta"] fold_Cons [of _ "To_server t1"] comp_apply
    by (rule rest [rule_format, OF d(2) v(2), unfolded net_run_def])
  then show ?thesis using d(1) by (auto simp: agreed_def client_open_def)
qed

text \<open>
  The toy client with a certificate of the toy authority, and the toy server, both with their
  device open, in either mode.
\<close>

definition toy_cert_client :: "string \<Rightarrow> (bytes, 256 word, 256 word) vpn_client" where
  "toy_cert_client prot = toy_start
     \<lparr>cl_config := toy_client_settings
        \<lparr>s_proto := prot, s_ca := Some ''ca.crt'', s_cert := Some ''client.crt'', s_key := Some ''client.key''\<rparr>,
      cl_tun := Some ((new_tun ''tun'' empty_os)\<lparr>tun_fd := Some 3\<rparr>)\<rparr>"

definition toy_listening :: "string \<Rightarrow> (bytes, 256 word, 256 word) vpn_server" where
  "toy_listening prot = toy_vpn
     \<lparr>sv_config := toy_settings\<lparr>s_proto := prot\<rparr>, sv_transport := prot \<noteq> ''tcp'', sv_running := True,
      sv_tun := (new_tun ''tun'' empty_os)\<lparr>tun_fd := Some 3\<rparr>\<rparr>"

definition toy_cs :: "(bytes, 256 word, 256 word) session" where
  "toy_cs = snd (configured toy_pki (cl_config (toy_cert_client ''udp'')) False (replicate 8 2) 11 0)"

definition toy_ss :: "(bytes, 256 word, 256 word) session" where
  "toy_ss = snd (configured toy_pki (sv_config (toy_listening ''udp'')) True (replicate 8 1) 5 1)"

lemmas toy_configs =
  toy_cert_client_def toy_listening_def toy_start_def new_client_def toy_client_settings_def toy_vpn_def
  toy_settings_def configured_def authenticated_mode_def

lemma toy_configured:
  "configured toy_pki (cl_config (toy_cert_client prot)) False (replicate 8 2) 11 0 = (Inr (), toy_cs)"
  "configured toy_pki (sv_config (toy_listening prot)) True (replicate 8 1) 5 1 = (Inr (), toy_ss)"
  by (simp_all add: toy_cs_def toy_ss_def toy_configs toy_session_defs)

lemma toy_accepting: "accepts toy_pki toy_cs toy_ss" "accepts toy_pki toy_ss toy_cs"
  by (simp_all add: toy_cs_def toy_ss_def toy_configs toy_accept_defs toy_session_defs)

lemma toy_small: "small_hellos toy_pki wr toy_cs" "small_hellos toy_pki wr toy_ss"
  by (simp_all add: small_hellos_def toy_cs_def toy_ss_def toy_configs toy_accept_defs toy_session_defs
      public_key_to_bytes_def res_bind_def)

lemma toy_envs:
  "e_pki toy_client_env = toy_pki" "e_pki toy_env = toy_pki" "e_prims toy_env = e_prims toy_client_env"
  "e_world toy_env = e_world toy_client_env" "all_succeed (e_world toy_env)"
  using toy_world(1) by (simp_all add: toy_client_env_def toy_env_def)

lemma toy_both_ready:
  "ready_client None (toy_cert_client ''udp'')" "ready_server (e_kernel toy_env) a None (toy_listening ''udp'')"
  "ready_client (Some w) (toy_cert_client ''tcp'')" "ready_server (e_kernel toy_env) a (Some w) (toy_listening ''tcp'')"
proof -
  show "ready_client None (toy_cert_client ''udp'')" "ready_client (Some w) (toy_cert_client ''tcp'')"
    by (simp_all add: ready_client_def toy_configs client_is_tcp_def)
  have "pool_ok toy_pool" using server_reach_ok [OF toy_reach] toy_pool_free(1)
    by (auto simp: server_ok_def pool_matches_def)
  then show "ready_server (e_kernel toy_env) a None (toy_listening ''udp'')"
    "ready_server (e_kernel toy_env) a (Some w) (toy_listening ''tcp'')"
    using toy_pool_free(2)
    by (simp_all add: ready_server_def server_open_def toy_listening_def toy_vpn_def toy_settings_def is_tcp_def toy_env_def)
qed

lemma toy_timeout: "cl_outbox (toy_cert_client prot) = []" "s_timeout (cl_config (toy_cert_client prot)) = 120"
  by (simp_all add: toy_configs)

theorem connection_comes_up_witness:
  "\<exists>d n ip cl. attempt toy_client_env (replicate 8 2) 11 0 (Inr ()) (Inr ()) (toy_cert_client ''udp'') = (Looping, d) \<and>
    net_run toy_client_env toy_env (replicate 8 1) 5 (''192.0.2.9'', 4000) None
      [To_server 1, To_client 2, To_server 3, To_client 4, To_server 5, To_client 6, Client_turn 7]
      \<lparr>net_client = d, net_server = toy_listening ''udp'', net_up = cl_outbox d, net_down = []\<rparr> = n \<and>
    cl_assigned_ip (net_client n) = Some ip \<and>
    map_of (sv_clients (net_server n)) (''192.0.2.9'', 4000) = Some cl \<and> virtual_ip cl = Some ip"
  using connection_comes_up [of toy_client_env "\<lambda>_. True" toy_env "toy_cert_client ''udp''" "(''192.0.2.9'', 4000)"
      "toy_listening ''udp''" "replicate 8 2" 11 "replicate 8 1" 5 0 toy_cs 1 toy_ss 7 6 2 3 4 5]
    toy_dh_ok toy_configured toy_accepting toy_both_ready by (simp add: toy_envs toy_timeout) blast

theorem tcp_connection_comes_up_witness:
  "\<exists>d n ip cl. attempt toy_client_env (replicate 8 2) 11 0 (Inr ()) (Inr ()) (toy_cert_client ''tcp'') = (Looping, d) \<and>
    net_run toy_client_env toy_env (replicate 8 1) 5 (''192.0.2.9'', 4000) (Some 9)
      [Accept 1, To_server 1, To_client 2, To_server 3, To_client 4, To_server 5, To_client 6, Client_turn 7]
      \<lparr>net_client = d, net_server = toy_listening ''tcp'', net_up = cl_outbox d, net_down = []\<rparr> = n \<and>
    cl_assigned_ip (net_client n) = Some ip \<and>
    map_of (sv_clients (net_server n)) (''192.0.2.9'', 4000) = Some cl \<and> virtual_ip cl = Some ip"
  using tcp_connection_comes_up [of toy_client_env "\<lambda>_. True" toy_env 9 "toy_cert_client ''tcp''" "(''192.0.2.9'', 4000)"
      "toy_listening ''tcp''" "replicate 8 2" 11 "replicate 8 1" 5 0 toy_cs 1 toy_ss 7 6 1 2 3 4 5]
    toy_dh_ok toy_configured toy_accepting toy_both_ready toy_small by (simp add: toy_envs toy_timeout) blast

end
