(* ===== verification/Server_Routes.thy ===== *)
theory Server_Routes
  imports Connection
begin

text \<open>
  What the server leaves on its machine: while it serves, the routes it has added and not
  deleted are those of its network and of its clients' addresses; when its main loop ends they
  are all deleted. The main loop's \<^verbatim>\<open>finally\<close> block does not cover the startup.
\<close>

declare split_paired_All [simp del] split_paired_Ex [simp del]

section \<open>Serving\<close>

text \<open>
  The states of a server process in its main loop, on a machine whose log was empty. The draws
  of a session id are 8 bytes.
\<close>

inductive serving :: "('c, 'k, 's, 'p) env \<Rightarrow> ('c, 's, 'p) vpn_server \<Rightarrow> bool" for E where
  se_start: "new_server cfg s who = Inr sv0 \<Longrightarrow> commands s = [] \<Longrightarrow>
    startup E bound sv0 = (Inr (), sv) \<Longrightarrow> serving E sv"
| se_datagram: "serving E sv \<Longrightarrow> length sid = 8 \<Longrightarrow>
    handle_udp_data E now sid sk data a sv = (r, t) \<Longrightarrow> serving E t"
| se_tcp_connected: "serving E sv \<Longrightarrow> length sid = 8 \<Longrightarrow>
    tcp_connected E now sid sk a w sv = (r, t) \<Longrightarrow> serving E t"
| se_tcp_frame: "serving E sv \<Longrightarrow> length sid = 8 \<Longrightarrow>
    tcp_frame E now sid sk frame a sv = (r, t) \<Longrightarrow> serving E t"
| se_tun: "serving E sv \<Longrightarrow> on_tun_readable E rnd queued sv = (r, t) \<Longrightarrow> serving E t"
| se_tick: "serving E sv \<Longrightarrow> tick E now sv = (r, t) \<Longrightarrow> serving E t"
| se_stale: "serving E sv \<Longrightarrow> serving E (cleanup_stale E now sv)"
| se_keepalive: "serving E sv \<Longrightarrow> keepalive_one E now x sv = (r, t) \<Longrightarrow> serving E t"
| se_fragments: "serving E sv \<Longrightarrow> serving E (cleanup_all_fragments now sv)"
| se_stop: "serving E sv \<Longrightarrow> serving E (stop sv)"

section \<open>The balance\<close>

definition route_words :: "string \<Rightarrow> string \<Rightarrow> string list" where
  "route_words dev x = x # (if dev = [] then [] else [''dev'', dev])"

lemma route_cmds:
  "route_cmd ''add'' x None (Some d) = added (route_words d x)"
  "route_cmd ''delete'' x None (Some d) = deleted (route_words d x)"
  by (simp_all add: route_cmd_def added_def deleted_def route_words_def)

lemma route_words_inj [simp]: "route_words d x = route_words d y \<longleftrightarrow> x = y"
  by (simp add: route_words_def)

definition changes_route :: "string list \<Rightarrow> bool" where
  "changes_route cmd \<longleftrightarrow> take 3 cmd \<in> {[''ip'', ''route'', ''add''], [''ip'', ''route'', ''delete'']}"

lemma changes_route_simps [simp]:
  "changes_route (added x)" "changes_route (deleted x)"
  "\<not> changes_route (a # ''link'' # x)" "\<not> changes_route (a # ''addr'' # x)"
  "\<not> changes_route (a # b # ''show'' # x)" "\<not> changes_route (''iptables'' # x)"
  by (simp_all add: changes_route_def added_def deleted_def)

text \<open>What the balance looks at: the route commands so far, the routed addresses, the open device.\<close>

definition route_log :: "('c, 's, 'p) vpn_server \<Rightarrow> string list list" where
  "route_log sv = filter changes_route (commands (tun_os (sv_tun sv)))"

definition sview ::
  "('c, 's, 'p) vpn_server \<Rightarrow> string list list \<times> (string \<times> addr) list \<times> nat option \<times> settings" where
  "sview sv = (route_log sv, ip_to_addr sv, tun_fd (sv_tun sv), sv_config sv)"

definition routed :: "('c, 's, 'p) vpn_server \<Rightarrow> string list list" where
  "routed sv = map (route_words (s_dev (sv_config sv))) (map fst (ip_to_addr sv))"

definition routes_ok :: "settings \<Rightarrow> ('c, 's, 'p) vpn_server \<Rightarrow> bool" where
  "routes_ok cfg sv \<longleftrightarrow> sv_config sv = cfg \<and> tun_fd (sv_tun sv) \<noteq> None \<and>
     distinct (map fst (ip_to_addr sv)) \<and>
     (\<forall>x. count_list (route_log sv) (added x) =
        count_list (route_log sv) (deleted x) + count_list (route_words (s_dev cfg) (server_network cfg) # routed sv) x)"

definition ids_ok :: "('c, 's, 'p) vpn_server \<Rightarrow> bool" where
  "ids_ok sv \<longleftrightarrow> (\<forall>a cs. map_of (sv_clients sv) a = Some cs \<longrightarrow> length (session_id (cs_session cs)) = 8)"

definition serving_ok :: "settings \<Rightarrow> ('c, 's, 'p) vpn_server \<Rightarrow> bool" where
  "serving_ok cfg sv \<longleftrightarrow> server_ok sv \<and> routes_ok cfg sv \<and> ids_ok sv"

lemma routes_ok_view: "sview t = sview sv \<Longrightarrow> routes_ok cfg t = routes_ok cfg sv"
  by (simp add: sview_def routes_ok_def routed_def)

text \<open>A method that changes no route keeps the whole condition if it keeps its other parts.\<close>

lemma keeps_serving:
  fixes m :: "(('c, 's, 'p) vpn_server, 'a) meth"
  assumes "keeps server_ok m" and "\<And>v. keeps (\<lambda>s. sview s = v) m" and "keeps ids_ok m"
  shows "keeps (serving_ok cfg) m"
proof (rule keepsI)
  fix s :: "('c, 's, 'p) vpn_server" assume ok: "serving_ok cfg s"
  have "sview (snd (m s)) = sview s" by (rule keepsD [OF assms(2) refl])
  from routes_ok_view [OF this, of cfg] ok keepsD [OF assms(1), of s] keepsD [OF assms(3), of s]
  show "serving_ok cfg (snd (m s))" by (simp add: serving_ok_def)
qed

section \<open>Methods that change no route\<close>

lemma sview_clients [simp]: "sview (sv\<lparr>sv_clients := x\<rparr>) = sview sv"
  by (simp add: sview_def route_log_def)

lemma sview_upd [simp]: "sview (upd_client a f sv) = sview sv"
  by (simp add: upd_client_def)

lemma sview_send [keeps_intro]: "keeps (\<lambda>s. sview s = v) (sync_send_to cs d)"
  by (rule keepsI) (auto simp: sync_send_to_def sview_def route_log_def split: sum.split)

lemma ids_send [keeps_intro]: "keeps ids_ok (sync_send_to cs d)"
  by (rule keepsI) (simp add: ids_ok_def)

lemma ids_upd [intro]:
  "ids_ok sv \<Longrightarrow> (\<And>c. length (session_id (cs_session c)) = 8 \<Longrightarrow> length (session_id (cs_session (f c))) = 8) \<Longrightarrow>
     ids_ok (upd_client a f sv)"
  by (auto simp: ids_ok_def upd_client_clients split: if_splits)

lemma ids_os [keeps_intro]: "keeps ids_ok (on_os m)"
  by (rule keepsI) (simp add: ids_ok_def)

lemma ids_tun [keeps_intro]: "keeps ids_ok (on_tun m)"
  by (rule keepsI) (simp add: ids_ok_def)

lemma sview_write [keeps_intro]: "keeps (\<lambda>s. sview s = v) (on_tun (tun_write K p))"
  by (rule keepsI)
    (auto simp: on_tun_def tun_write_def sview_def route_log_def split: prod.split option.split sum.split)

lemma keeps_serving_upd [keeps_intro]:
  assumes "\<And>c. cs_addr (f c) = cs_addr c \<and> virtual_ip (f c) = virtual_ip c \<and>
      (cs_data (f c) = None \<longrightarrow> cs_data c = None)"
    and "\<And>c. length (session_id (cs_session c)) = 8 \<Longrightarrow> length (session_id (cs_session (f c))) = 8"
  shows "keeps (serving_ok cfg) (m_upd (upd_client a f))"
proof (rule keeps_serving)
  show "keeps server_ok (m_upd (upd_client a f))" using assms(1) by (rule keeps_upd_client)
  show "keeps ids_ok (m_upd (upd_client a f))" using assms(2) by (intro keeps_upd ids_upd)
qed (intro keeps_upd, simp)

lemma serving_send [keeps_intro]: "keeps (serving_ok cfg) (sync_send_to cs d)"
  by (intro keeps_serving keeps_intro)

lemma serving_write [keeps_intro]: "keeps (serving_ok cfg) (on_tun (tun_write K p))"
  by (intro keeps_serving keeps_intro)

section \<open>Removing a client\<close>

lemma count_removed:
  "distinct xs \<Longrightarrow> k \<in> set xs \<Longrightarrow>
     count_list (map (route_words d) xs) y =
       count_list (map (route_words d) (removeAll k xs)) y + (if y = route_words d k then 1 else 0)"
proof (induction xs)
  case (Cons x xs)
  show ?case
  proof (cases "x = k")
    case True
    with Cons.prems have "removeAll k xs = xs" by (simp add: removeAll_id)
    with True show ?thesis by simp
  next
    case False
    with Cons have "count_list (map (route_words d) xs) y =
      count_list (map (route_words d) (removeAll k xs)) y + (if y = route_words d k then 1 else 0)" by simp
    with False show ?thesis by simp
  qed
qed simp

lemma on_os_os [simp]: "tun_os (sv_tun (snd (on_os m sv))) = snd (m (tun_os (sv_tun sv)))"
  "tun_fd (sv_tun (snd (on_os m sv))) = tun_fd (sv_tun sv)"
  by (simp_all add: on_os_def split: prod.split)

lemma close_tcp_tun [simp]: "sv_tun (close_tcp_writer cs sv) = sv_tun sv"
  by (simp add: close_tcp_writer_def split: option.split)

lemma sview_close [simp]: "sview (close_tcp_writer cs sv) = sview sv"
  by (auto simp: close_tcp_writer_def sview_def route_log_def split: option.split)

text \<open>Deleting an address from the table together with its route.\<close>

lemma unroute_ok:
  assumes ok: "routes_ok cfg sv" and ip: "ip \<in> set (map fst (ip_to_addr sv))"
    and t: "route_log t = route_log sv @ [deleted (route_words (s_dev (sv_config sv)) ip)]"
      "ip_to_addr t = AList.delete ip (ip_to_addr sv)" "sv_config t = sv_config sv"
      "tun_fd (sv_tun t) = tun_fd (sv_tun sv)"
  shows "routes_ok cfg t"
proof -
  from ok have d: "distinct (map fst (ip_to_addr sv))" by (simp add: routes_ok_def)
  note c = count_removed [OF d ip]
  show ?thesis
    using ok t unfolding routes_ok_def
    by (auto simp: routed_def c delete_keys distinct_removeAll count_list_snoc simp del: map_map)
qed

lemma remove_client_serving:
  assumes ok: "serving_ok cfg sv"
  shows "serving_ok cfg (remove_client E a sv)"
proof (cases "map_of (sv_clients sv) a")
  case None
  with ok show ?thesis by (simp add: remove_client_def)
next
  case (Some cs)
  let ?t = "remove_client E a sv"
  from ok have s: "server_ok sv" "routes_ok cfg sv" "ids_ok sv" by (simp_all add: serving_ok_def)
  have "ids_ok ?t" using s(3) by (auto simp: ids_ok_def remove_client_table)
  moreover have "routes_ok cfg ?t"
  proof (cases "virtual_ip cs")
    case None
    with Some have "sview ?t = sview sv" by (simp add: remove_client_def Let_def split: option.split)
    with s(2) routes_ok_view show ?thesis by blast
  next
    case v: (Some ip)
    note own = virtual_ip_owner [OF s(1) Some v]
    have "route_log ?t = route_log sv @ [deleted (route_words (s_dev (sv_config sv)) ip)]"
      "ip_to_addr ?t = AList.delete ip (ip_to_addr sv)" "sv_config ?t = sv_config sv"
      "tun_fd (sv_tun ?t) = tun_fd (sv_tun sv)"
      using Some v own(1,3)
      by (simp_all add: remove_client_def Let_def route_cmds route_log_def split: option.split)
    moreover have "ip \<in> set (map fst (ip_to_addr sv))" using own(1) by (force dest!: map_of_SomeD)
    ultimately show ?thesis by (rule_tac unroute_ok [OF s(2)]) simp_all
  qed
  ultimately show ?thesis using remove_client_ok [OF s(1)] by (simp add: serving_ok_def)
qed

lemma cleanup_stale_serving: "serving_ok cfg sv \<Longrightarrow> serving_ok cfg (cleanup_stale E now sv)"
proof -
  have "serving_ok cfg (fold (remove_client E) as sv)" if "serving_ok cfg sv" for as
    using that by (induction as arbitrary: sv) (simp_all add: remove_client_serving)
  then show "serving_ok cfg sv \<Longrightarrow> serving_ok cfg (cleanup_stale E now sv)" by (simp add: cleanup_stale_def)
qed

section \<open>Assigning an address\<close>

lemma update_new: "k \<notin> fst ` set al \<Longrightarrow> AList.update k v al = al @ [(k, v)]"
  by (induction al) auto

text \<open>Entering an address into the table together with its route.\<close>

lemma route_ok:
  assumes ok: "routes_ok cfg sv" and ip: "ip \<notin> set (map fst (ip_to_addr sv))"
    and t: "route_log t = route_log sv @ [added (route_words (s_dev (sv_config sv)) ip)]"
      "ip_to_addr t = AList.update ip a (ip_to_addr sv)" "sv_config t = sv_config sv"
      "tun_fd (sv_tun t) = tun_fd (sv_tun sv)"
  shows "routes_ok cfg t"
proof -
  have "AList.update ip a (ip_to_addr sv) = ip_to_addr sv @ [(ip, a)]"
    using ip by (intro update_new) simp
  then show ?thesis
    using ok t ip unfolding routes_ok_def by (auto simp: routed_def count_list_snoc)
qed

lemma send_small:
  "length d < 65536 \<Longrightarrow> \<exists>t. sync_send_to cs d sv = (Inr (), t) \<and> sv_tun t = sv_tun sv"
  by (auto simp: sync_send_to_def frame_packet_def FRAME_SIZE_def res_bind_def pack_def split: sum.split)

lemma assign_serving:
  assumes ok: "serving_ok cfg sv" and W: "programs_start (e_world E)"
    and cs: "map_of (sv_clients sv) a = Some c" "virtual_ip c = None" "cs_data c \<noteq> None" "cs_addr cs = a"
      "length (session_id (cs_session cs)) = 8"
  shows "serving_ok cfg (snd (assign_ip_to_client E cs sv))"
proof (cases "sv_pool sv")
  case None
  with ok show ?thesis by (simp add: assign_ip_to_client_def)
next
  case (Some p)
  from ok have s: "server_ok sv" "routes_ok cfg sv" "ids_ok sv" by (simp_all add: serving_ok_def)
  from s(1) Some have m: "pool_matches (Some p) (ip_of sv)" by (simp add: server_ok_def)
  then have "pool_ok p" by (simp add: pool_matches_def)
  from allocate_cases [OF this, of "addr_str a"] consider "allocate (addr_str a) p = (Inr None, p)"
    | i q where "allocate (addr_str a) p = (Inr (Some (ip_str i)), q)" by cases auto
  then show ?thesis
  proof cases
    case 1
    then have "snd (assign_ip_to_client E cs sv) = sv"
      using Some cs(4) by (simp add: assign_ip_to_client_def client_id_def)
    with ok show ?thesis by simp
  next
    case (2 i q)
    let ?t = "snd (assign_ip_to_client E cs sv)" and ?ip = "ip_str i"
    from cs have "ip_of sv a = None" by (simp add: ip_of_def)
    note al = pool_matches_allocate(2) [OF m this 2]
    from s(1) al have "map_of (ip_to_addr sv) ?ip = None"
      unfolding server_ok_def by (metis not_None_eq)
    then have new: "?ip \<notin> set (map fst (ip_to_addr sv))" by (simp add: map_of_eq_None_iff)
    let ?u = "upd_client a (\<lambda>c. c\<lparr>virtual_ip := Some ?ip, cs_session := (cs_session c)\<lparr>assigned_ip := Some ?ip\<rparr>\<rparr>)
      (sv\<lparr>sv_pool := Some q, ip_to_addr := AList.update ?ip a (ip_to_addr sv)\<rparr>)"
    have "length (ip_assign_packet (session_id (cs_session cs)) ?ip) < 65536"
      using ip_str_short [of i] cs(5) by (simp add: ip_assign_packet_def utf8_encode_def)
    from send_small [OF this, of cs ?u] obtain v where
      v: "sync_send_to cs (ip_assign_packet (session_id (cs_session cs)) ?ip) ?u = (Inr (), v)" "sv_tun v = sv_tun ?u"
      by blast
    have tl: "?t = snd (on_os (add_route (e_world E) ?ip None (Some (s_dev (sv_config sv)))) v)"
      using Some 2 cs(4) v(1) control_packet_assign [OF cs(5), of ?ip]
      by (simp add: assign_ip_to_client_def client_id_def Let_def m_lift_def m_bind_def [of "m_lift _"] m_seq_def
        m_bind_def m_return_def split: prod.split sum.split)
    have fr: "ip_to_addr v = ip_to_addr ?u" "sv_config v = sv_config ?u" "sv_clients v = sv_clients ?u"
      using v(1) sync_send_frame [of cs "ip_assign_packet (session_id (cs_session cs)) ?ip" ?u] by auto
    have "routes_ok cfg ?t"
      by (rule route_ok [OF s(2) new]) (simp_all add: tl fr v(2) route_log_def route_cmds)
    moreover have "ids_ok ?t"
      using s(3) by (auto simp: ids_ok_def tl fr upd_client_clients split: if_splits)
    moreover have "server_ok ?t" using assign_ok [OF s(1) cs(1-4)] .
    ultimately show ?thesis by (simp add: serving_ok_def)
  qed
qed

section \<open>The events of the main loop\<close>

lemma open_channel_serving:
  fixes E :: "('c, 'k, 's, 'p) env"
  assumes W: "programs_start (e_world E)"
  shows "keeps (serving_ok cfg) (open_channel E a)"
proof (rule keepsI)
  fix sv :: "('c, 's, 'p) vpn_server" assume ok: "serving_ok cfg sv"
  then have s: "server_ok sv" "ids_ok sv" by (simp_all add: serving_ok_def)
  show "serving_ok cfg (snd (open_channel E a sv))"
  proof (cases "map_of (sv_clients sv) a")
    case None
    with ok show ?thesis by (simp add: open_channel_def)
  next
    case (Some cs)
    show ?thesis
    proof (cases "is_established (cs_session cs) \<and> cs_data cs = None")
      case False
      with ok Some show ?thesis by (auto simp: open_channel_def)
    next
      case True
      with s Some have v: "virtual_ip cs = None" "cs_addr cs = a" "length (session_id (cs_session cs)) = 8"
        by (simp_all add: server_ok_def clients_ok_def ids_ok_def)
      have "serving_ok cfg (snd (m_seq (assign_ip_to_client E (cs\<lparr>cs_data := Some ch\<rparr>)) (m_return ())
          (upd_client a (\<lambda>c. c\<lparr>cs_data := Some ch\<rparr>) sv)))" for ch
      proof -
        let ?u = "upd_client a (\<lambda>c. c\<lparr>cs_data := Some ch\<rparr>) sv"
        have "keeps (serving_ok cfg) (m_upd (upd_client a (\<lambda>c. c\<lparr>cs_data := Some ch\<rparr>)))"
          by (intro keeps_serving_upd) simp_all
        from keepsD [OF this ok] have "serving_ok cfg ?u" by (simp add: m_upd_def)
        then have "serving_ok cfg (snd (assign_ip_to_client E (cs\<lparr>cs_data := Some ch\<rparr>) ?u))"
          using Some v by (rule_tac c = "cs\<lparr>cs_data := Some ch\<rparr>" in assign_serving [OF _ W])
            (simp_all add: upd_client_clients)
        then show ?thesis by simp
      qed
      with ok Some True show ?thesis by (auto simp: open_channel_def Let_def split: sum.split)
    qed
  qed
qed

lemma handlers_keep_id:
  "server_handle_reset now m s = (r, t) \<Longrightarrow> session_id t = session_id s"
  "control_handler P k = Some h \<Longrightarrow> h p s = (ps, t) \<Longrightarrow> session_id t = session_id s"
proof -
  show "server_handle_reset now m s = (r, t) \<Longrightarrow> session_id t = session_id s"
    by (auto simp: server_handle_reset_def meth_defs split: sum.splits prod.splits if_splits)
  have "server_handle_client_hello P p s = (ps, t) \<Longrightarrow> session_id t = session_id s"
    "server_handle_client_finished P p s = (ps, t) \<Longrightarrow> session_id t = session_id s"
    by (auto simp: server_handle_client_hello_def server_handle_client_finished_def guarded_def
        derive_session_key_def fail_handshake_def meth_defs Let_def split: prod.splits sum.splits if_splits)
  then show "control_handler P k = Some h \<Longrightarrow> h p s = (ps, t) \<Longrightarrow> session_id t = session_id s"
    by (auto simp: control_handler_def split: MessageType.splits)
qed

lemma get_or_create_serving:
  assumes ok: "serving_ok cfg sv" and sid: "length sid = 8"
    and g: "get_or_create_session E now sid sk a w sv = (r, t)"
  shows "serving_ok cfg t" and "r = Inr cs \<Longrightarrow> map_of (sv_clients t) a = Some cs"
proof -
  from ok have s: "server_ok sv" "routes_ok cfg sv" "ids_ok sv" by (simp_all add: serving_ok_def)
  note gk = get_or_create_ok [OF s(1) g]
  have "sview t = sview sv"
    using g by (auto simp: get_or_create_session_def Let_def split: option.splits prod.splits sum.splits)
  moreover have "ids_ok t"
    using g s(3) sid unfolding ids_ok_def
    by (auto simp: get_or_create_session_def Let_def new_client_session_def configure_def map_of_update
        new_session_def generate_ephemeral_keypair_def split: option.splits prod.splits sum.splits if_splits)
  ultimately show "serving_ok cfg t" using gk(1) s(2) routes_ok_view by (auto simp: serving_ok_def)
  show "r = Inr cs \<Longrightarrow> map_of (sv_clients t) a = Some cs" by (rule gk(2))
qed

lemma serving_clientD:
  "serving_ok cfg sv \<Longrightarrow> map_of (sv_clients sv) a = Some cs \<Longrightarrow> length (session_id (cs_session cs)) = 8"
  by (simp add: serving_ok_def ids_ok_def)

lemma upd_serving:
  assumes "serving_ok cfg sv"
    and "\<And>c. cs_addr (f c) = cs_addr c \<and> virtual_ip (f c) = virtual_ip c \<and>
      (cs_data (f c) = None \<longrightarrow> cs_data c = None)"
    and "\<And>c. length (session_id (cs_session c)) = 8 \<Longrightarrow> length (session_id (cs_session (f c))) = 8"
  shows "serving_ok cfg (upd_client a f sv)"
  using keepsD [OF keeps_serving_upd [OF assms(2,3)] assms(1)] by (simp add: m_upd_def)

lemma handle_reset_serving:
  assumes ok: "serving_ok cfg sv" and sid: "length sid = 8"
  shows "serving_ok cfg (snd (handle_reset E now sid sk data a sv))"
proof -
  obtain r t where g: "get_or_create_session E now sid sk a None sv = (r, t)" by fastforce
  note t = get_or_create_serving [OF ok sid g]
  have k: "keeps (serving_ok cfg) (m_bind (m_lift q) (m_for (sync_send_to cs)))" for q cs
    by (intro keeps_intro)
  have "serving_ok cfg (upd_client a (\<lambda>c. c\<lparr>cs_session := s\<rparr>) t)"
    if "server_handle_reset now data (cs_session cs) = (q, s)" "map_of (sv_clients t) a = Some cs" for s q cs
    using handlers_keep_id(1) [OF that(1)] serving_clientD [OF t(1) that(2)]
    by (intro upd_serving [OF t(1)]) simp_all
  with t g show ?thesis
    by (cases r) (auto simp: handle_reset_def m_bind_def [of "get_or_create_session E now sid sk a None"]
        split: prod.split intro!: keepsD [OF k])
qed

lemma handle_control_serving:
  assumes "programs_start (e_world E)" and "length (session_id (cs_session cs)) = 8"
  shows "keeps (serving_ok cfg) (handle_control E data a cs)"
  unfolding handle_control_def Let_def
  by (auto split: sum.split prod.split option.split simp: assms(2) dest!: handlers_keep_id(2)
      intro!: keeps_intro upd_serving open_channel_serving [OF assms(1)])

lemma handle_data_serving:
  fixes E :: "('c, 'k, 's, 'p) env"
  shows "keeps (serving_ok cfg) (handle_data E now data a cs)"
proof (rule keepsI)
  fix sv :: "('c, 's, 'p) vpn_server" assume ok: "serving_ok cfg sv"
  have "serving_ok cfg (upd_client a (\<lambda>c. c\<lparr>cs_data := Some ch\<rparr>) sv)" for ch
    using ok by (rule upd_serving) simp_all
  moreover have k: "keeps (serving_ok cfg) (m_bind (m_lift r) (\<lambda>plain. if truthy plain
      then m_seq (on_tun (tun_write K (or_empty plain))) (m_return ()) else m_return ()))" for r K
    by (intro keeps_intro)
  ultimately show "serving_ok cfg (snd (handle_data E now data a cs sv))"
    using ok by (auto simp: handle_data_def split: prod.split intro!: keepsD [OF k])
qed

lemma datagram_serving:
  assumes ok: "serving_ok cfg sv" and W: "programs_start (e_world E)" and sid: "length sid = 8"
  shows "serving_ok cfg (snd (handle_udp_data E now sid sk data a sv))"
proof -
  have "serving_ok cfg (upd_client a (\<lambda>c. c\<lparr>last_seen := now\<rparr>) sv)"
    using ok by (rule upd_serving) simp_all
  moreover have "length (session_id (cs_session (cs\<lparr>last_seen := now\<rparr>))) = 8"
    if "map_of (sv_clients sv) a = Some cs" for cs
    using serving_clientD [OF ok that] by simp
  ultimately show ?thesis
    using ok
    by (auto simp: handle_udp_data_def Let_def split: option.split
        intro: handle_reset_serving [OF ok sid] keepsD [OF handle_control_serving [OF W]] keepsD [OF handle_data_serving])
qed

lemma tun_readable_serving:
  fixes E :: "('c, 'k, 's, 'p) env"
  shows "keeps (serving_ok cfg) (on_tun_readable E rnd queued)"
proof (rule keepsI)
  fix sv :: "('c, 's, 'p) vpn_server" assume ok: "serving_ok cfg sv"
  then have "serving_ok cfg (upd_client a (\<lambda>c. c\<lparr>cs_data := Some ch\<rparr>) sv)" for a ch
    by (rule upd_serving) simp_all
  with ok show "serving_ok cfg (snd (on_tun_readable E rnd queued sv))"
    by (auto simp: on_tun_readable_def split: sum.split exn.split option.split prod.split)
qed

lemma keepalive_one_serving: "keeps (serving_ok cfg) (keepalive_one E now x)"
  unfolding keepalive_one_def by (auto split: prod.split intro!: keeps_intro keeps_async_send upd_serving)

lemma fragments_serving:
  assumes "serving_ok cfg sv"
  shows "serving_ok cfg (cleanup_all_fragments now sv)"
proof -
  have "sview (cleanup_all_fragments now sv) = sview sv" by (simp add: cleanup_all_fragments_def)
  moreover have "ids_ok (cleanup_all_fragments now sv)"
    using assms by (auto simp: serving_ok_def ids_ok_def cleanup_all_fragments_def map_of_map)
  ultimately show ?thesis
    using assms cleanup_fragments_ok [of sv now] routes_ok_view [of "cleanup_all_fragments now sv" sv cfg]
    by (simp add: serving_ok_def)
qed

lemma tick_serving:
  fixes E :: "('c, 'k, 's, 'p) env"
  shows "keeps (serving_ok cfg) (tick E now)"
proof -
  have ka: "keeps (serving_ok cfg) (send_keepalives E now :: (('c, 's, 'p) vpn_server, unit) meth)"
  proof (rule keepsI)
    fix sv :: "('c, 's, 'p) vpn_server" assume "serving_ok cfg sv"
    then show "serving_ok cfg (snd (send_keepalives E now sv))"
      unfolding send_keepalives_def by (rule keepsD [OF keeps_for [OF keepalive_one_serving]])
  qed
  show ?thesis unfolding tick_def
    by (intro keeps_intro ka cleanup_stale_serving fragments_serving)
qed

lemma tcp_next_serving:
  "serving_ok cfg sv \<Longrightarrow> programs_start (e_world E) \<Longrightarrow> serving_ok cfg (tcp_next E a sv)"
  by (simp add: tcp_next_def tcp_closed_def remove_client_serving)

lemma tcp_frame_serving:
  assumes ok: "serving_ok cfg sv" and W: "programs_start (e_world E)" and sid: "length sid = 8"
    and f: "tcp_frame E now sid sk frame a sv = (r, t)"
  shows "serving_ok cfg t"
proof -
  have "serving_ok cfg u" if "handle_udp_data E now sid sk data a sv = (q, u)" for data q u
    using datagram_serving [OF ok W sid, of now sk data a] that by simp
  then show ?thesis
    using f ok
    by (auto simp: tcp_frame_def tcp_closed_def intro: remove_client_serving tcp_next_serving W
        split: option.splits prod.splits sum.splits)
qed

section \<open>Startup\<close>

text \<open>The view of a server without clients, whose device may not be open yet.\<close>

definition bare ::
  "('c, 's, 'p) vpn_server \<Rightarrow> string list list \<times> (string \<times> addr) list \<times> settings \<times>
     (addr \<times> ('c, 's, 'p) client_session) list" where
  "bare sv = (route_log sv, ip_to_addr sv, sv_config sv, sv_clients sv)"

lemma tun_run_log [simp]:
  "\<not> changes_route cmd \<Longrightarrow> filter changes_route (commands (tun_os (snd (tun_run W chk cmd t)))) =
     filter changes_route (commands (tun_os t))"
  by simp

lemma tun_methods_log [simp]:
  "filter changes_route (commands (tun_os (snd (tun_open W K t)))) = filter changes_route (commands (tun_os t))"
  "filter changes_route (commands (tun_os (snd (set_ip W x t)))) = filter changes_route (commands (tun_os t))"
  "filter changes_route (commands (tun_os (snd (set_mtu W n t)))) = filter changes_route (commands (tun_os t))"
  "filter changes_route (commands (tun_os (tun_close W t))) = filter changes_route (commands (tun_os t))"
proof -
  have k: "keeps (\<lambda>u. filter changes_route (commands (tun_os u)) = v)
      (m_seq (tun_run W True [''ip'', ''addr'', ''add'', x, ''dev'', n]) (tun_run W True [''ip'', ''link'', ''set'', n, ''up'']))"
    for v n
    by (intro keeps_seq keepsI) simp_all
  show "filter changes_route (commands (tun_os (snd (set_ip W x t)))) = filter changes_route (commands (tun_os t))"
    by (auto simp: set_ip_def split: list.split intro!: keepsD [OF k])
qed (auto simp: tun_open_def tun_close_def set_mtu_def Let_def split: option.split sum.split exn.split)

lemma on_tun_bare:
  assumes "on_tun m sv = (r, t)" and "\<And>u. filter changes_route (commands (tun_os (snd (m u)))) =
      filter changes_route (commands (tun_os u))"
  shows "bare t = bare sv"
  using assms(1) assms(2) [of "sv_tun sv"]
  by (auto simp: on_tun_def bare_def route_log_def split: prod.splits)

lemma on_os_bare:
  assumes "on_os m sv = (r, t)" and "\<And>u. filter changes_route (commands (snd (m u))) =
      filter changes_route (commands u)"
  shows "bare t = bare sv"
  using assms(1) assms(2) [of "tun_os (sv_tun sv)"]
  by (auto simp: on_os_def bare_def route_log_def split: prod.splits)

lemma os_methods_log [simp]:
  "filter changes_route (commands (snd (enable_ip_forward W u))) = filter changes_route (commands u)"
  "filter changes_route (commands (snd (get_default_interface W u))) = filter changes_route (commands u)"
  "filter changes_route (commands (snd (setup_nat W i n u))) = filter changes_route (commands u)"
  "filter changes_route (commands (snd (teardown_nat W i n u))) = filter changes_route (commands u)"
  by (auto simp: enable_ip_forward_def get_default_interface_def setup_nat_def teardown_nat_def nat_rule_def
      meth_defs ignoring_def write_file_def subprocess_run_def run_proc_def
      split: sum.split prod.split proc.split)

lemma nat_bare: "try_setup_nat E i sv = (r, t) \<Longrightarrow> bare t = bare sv"
proof -
  assume n: "try_setup_nat E i sv = (r, t)"
  obtain q u where u: "on_os (setup_nat (e_world E) i (server_network (sv_config sv))) sv = (q, u)" by fastforce
  from on_os_bare [OF u] have "bare u = bare sv" by simp
  with n u show ?thesis by (auto simp: try_setup_nat_def bare_def route_log_def split: sum.splits)
qed

lemma add_route_bare:
  assumes "on_os (add_route W x None (Some (s_dev (sv_config sv)))) sv = (r, t)"
  shows "route_log t = route_log sv @ [added (route_words (s_dev (sv_config sv)) x)]"
    and "ip_to_addr t = ip_to_addr sv" and "sv_config t = sv_config sv" and "sv_clients t = sv_clients sv"
proof -
  have t: "t = snd (on_os (add_route W x None (Some (s_dev (sv_config sv)))) sv)" using assms by simp
  show "route_log t = route_log sv @ [added (route_words (s_dev (sv_config sv)) x)]"
    "ip_to_addr t = ip_to_addr sv" "sv_config t = sv_config sv" "sv_clients t = sv_clients sv"
    unfolding t by (simp_all add: route_log_def route_cmds)
qed

text \<open>A startup that succeeds, taken apart.\<close>

lemma startup_chain:
  assumes "startup E bound sv = (Inr (), t)"
  obtains ip u1 u2 u3 u4 u5 iface u6 u7 u8 fd u9 where
    "server_ip (sv_config sv) = Inr ip"
    "on_tun (tun_open (e_world E) (e_kernel E)) sv = (Inr (), u1)"
    "on_tun (set_ip (e_world E) ip) u1 = (Inr (), u2)"
    "on_tun (set_mtu (e_world E) 1500) u2 = (Inr (), u3)"
    "on_os (enable_ip_forward (e_world E)) u3 = (Inr (), u4)"
    "on_os (add_route (e_world E) (server_network (sv_config sv)) None (Some (s_dev (sv_config sv)))) u4 = (Inr (), u5)"
    "on_os (get_default_interface (e_world E)) u5 = (Inr iface, u6)"
    "(if truthy iface then try_setup_nat E (or_empty iface) else m_return ()) u6 = (Inr (), u7)"
    "drop_step E u7 = (Inr (), u8)"
    "on_tun (\<lambda>t. (tun_fileno t, t)) (u8\<lparr>sv_transport := \<not> is_tcp (sv_config sv)\<rparr>) = (Inr fd, u9)"
    "t = u9\<lparr>sv_running := True\<rparr>"
  using assms unfolding startup_def Let_def by (auto simp: meth_Inr_iff m_upd_Inr_iff)

lemma startup_bare:
  assumes "startup E bound sv = (Inr (), t)"
  shows "route_log t = route_log sv @
      [added (route_words (s_dev (sv_config sv)) (server_network (sv_config sv)))] \<and>
    ip_to_addr t = ip_to_addr sv \<and> sv_config t = sv_config sv \<and> sv_clients t = sv_clients sv \<and>
    tun_fd (sv_tun t) \<noteq> None"
proof -
  obtain ip u1 u2 u3 u4 u5 iface u6 u7 u8 fd u9 where
    u: "server_ip (sv_config sv) = Inr ip" "on_tun (tun_open (e_world E) (e_kernel E)) sv = (Inr (), u1)"
      "on_tun (set_ip (e_world E) ip) u1 = (Inr (), u2)" "on_tun (set_mtu (e_world E) 1500) u2 = (Inr (), u3)"
      "on_os (enable_ip_forward (e_world E)) u3 = (Inr (), u4)"
      "on_os (add_route (e_world E) (server_network (sv_config sv)) None (Some (s_dev (sv_config sv)))) u4 = (Inr (), u5)"
      "on_os (get_default_interface (e_world E)) u5 = (Inr iface, u6)"
      "(if truthy iface then try_setup_nat E (or_empty iface) else m_return ()) u6 = (Inr (), u7)"
      "drop_step E u7 = (Inr (), u8)"
      "on_tun (\<lambda>t. (tun_fileno t, t)) (u8\<lparr>sv_transport := \<not> is_tcp (sv_config sv)\<rparr>) = (Inr fd, u9)"
      "t = u9\<lparr>sv_running := True\<rparr>"
    by (rule startup_chain [OF assms])
  have b4: "bare u4 = bare sv"
    using on_tun_bare [OF u(2)] on_tun_bare [OF u(3)] on_tun_bare [OF u(4)] on_os_bare [OF u(5)] by simp
  then have c: "sv_config u4 = sv_config sv" by (simp add: bare_def)
  from add_route_bare [OF u(6) [folded c]] have b5: "bare u5 = (route_log sv @
      [added (route_words (s_dev (sv_config sv)) (server_network (sv_config sv)))],
      ip_to_addr sv, sv_config sv, sv_clients sv)"
    using b4 c by (simp add: bare_def)
  have "bare u7 = bare u6"
    using u(8) by (auto simp: m_return_def split: if_splits dest: nat_bare)
  moreover have "bare u6 = bare u5" using on_os_bare [OF u(7)] by simp
  moreover have "bare u8 = bare u7"
    using u(9) by (auto simp: drop_step_def bare_def route_log_def split: prod.splits)
  moreover have "bare t = bare u8 \<and> tun_fd (sv_tun t) \<noteq> None"
    using u(10,11) by (auto simp: on_tun_def tun_fileno_def of_opt_def bare_def route_log_def split: option.splits)
  ultimately show ?thesis using b5 by (simp add: bare_def)
qed

lemma startup_serving:
  assumes new: "new_server cfg s who = Inr sv" "commands s = []" and st: "startup E bound sv = (Inr (), t)"
  shows "serving_ok cfg t"
proof -
  from new have sv: "route_log sv = []" "ip_to_addr sv = []" "sv_config sv = cfg" "sv_clients sv = []"
    by (auto simp: new_server_def res_bind_Inr_iff route_log_def new_tun_def)
  note b = startup_bare [OF st, unfolded sv]
  have "server_ok t" by (rule keeps_step [OF startup_keeps new_server_ok [OF new(1)] st])
  then show ?thesis using b by (simp add: serving_ok_def routes_ok_def ids_ok_def routed_def)
qed

section \<open>Shutdown\<close>

lemma serving_reaches_ok:
  assumes "serving E sv" and "programs_start (e_world E)"
  shows "serving_ok (sv_config sv) sv"
proof -
  have "\<exists>cfg. serving_ok cfg sv"
    using assms
  proof (induction rule: serving.induct)
    case (se_start cfg s who sv0 bound sv)
    then show ?case using startup_serving by blast
  next
    case (se_datagram sv sid now sk data a r t)
    then obtain cfg where "serving_ok cfg sv" by blast
    from datagram_serving [OF this se_datagram.prems se_datagram.hyps(2), of now sk data a] se_datagram.hyps(3)
    show ?case by auto
  next
    case (se_tcp_connected sv sid now sk a w r t)
    then obtain cfg where ok: "serving_ok cfg sv" by blast
    obtain q u where g: "get_or_create_session E now sid sk a (Some w) sv = (q, u)" by fastforce
    from get_or_create_serving(1) [OF ok se_tcp_connected.hyps(2) g] g se_tcp_connected.hyps(3) show ?case
      by (auto simp: tcp_connected_def m_bind_def m_upd_def split: sum.splits
          intro: tcp_next_serving [OF _ se_tcp_connected.prems])
  next
    case (se_tcp_frame sv sid now sk frame a r t)
    then obtain cfg where ok: "serving_ok cfg sv" by blast
    from tcp_frame_serving [OF ok se_tcp_frame.prems se_tcp_frame.hyps(2,3)] show ?case by blast
  next
    case (se_tun sv rnd queued r t)
    then show ?case using keeps_step [OF tun_readable_serving] by blast
  next
    case (se_tick sv now r t)
    then show ?case using keeps_step [OF tick_serving] by blast
  next
    case (se_stale sv now)
    then show ?case using cleanup_stale_serving by blast
  next
    case (se_keepalive sv now x r t)
    then show ?case using keeps_step [OF keepalive_one_serving] by blast
  next
    case (se_fragments sv now)
    then show ?case using fragments_serving by blast
  next
    case (se_stop sv)
    then obtain cfg where ok: "serving_ok cfg sv" by blast
    have "sview (stop sv) = sview sv" "ids_ok (stop sv) = ids_ok sv"
      by (simp_all add: stop_def sview_def route_log_def ids_ok_def)
    moreover have "server_ok (stop sv) = server_ok sv" by (rule server_ok_cong) (simp_all add: stop_def)
    ultimately show ?case using ok routes_ok_view [of "stop sv" sv cfg] by (auto simp: serving_ok_def)
  qed
  then obtain cfg where ok: "serving_ok cfg sv" by blast
  then have "sv_config sv = cfg" by (simp add: serving_ok_def routes_ok_def)
  with ok show ?thesis by simp
qed

lemma cleanup_client_view:
  "ip_to_addr (cleanup_client E cs sv) = ip_to_addr sv" "sv_clients (cleanup_client E cs sv) = sv_clients sv"
  "sv_config (cleanup_client E cs sv) = sv_config sv" "tun_fd (sv_tun (cleanup_client E cs sv)) = tun_fd (sv_tun sv)"
  "nat_interface (cleanup_client E cs sv) = nat_interface sv"
  "route_log (cleanup_client E cs sv) = route_log sv @
     (if truthy (virtual_ip cs) then [deleted (route_words (s_dev (sv_config sv)) (or_empty (virtual_ip cs)))] else [])"
proof -
  have "nat_interface (close_tcp_writer cs t) = nat_interface t" for t :: "('a, 'b, 'c) vpn_server"
    by (simp add: close_tcp_writer_def split: option.split)
  moreover have "nat_interface (snd (on_os m t)) = nat_interface t" for m :: "(os, unit) meth" and t :: "('a, 'b, 'c) vpn_server"
    by (simp add: on_os_def split: prod.split)
  ultimately show
    "ip_to_addr (cleanup_client E cs sv) = ip_to_addr sv" "sv_clients (cleanup_client E cs sv) = sv_clients sv"
    "sv_config (cleanup_client E cs sv) = sv_config sv" "tun_fd (sv_tun (cleanup_client E cs sv)) = tun_fd (sv_tun sv)"
    "nat_interface (cleanup_client E cs sv) = nat_interface sv"
    "route_log (cleanup_client E cs sv) = route_log sv @
     (if truthy (virtual_ip cs) then [deleted (route_words (s_dev (sv_config sv)) (or_empty (virtual_ip cs)))] else [])"
    by (simp_all add: cleanup_client_def route_log_def route_cmds)
qed

text \<open>The addresses of the clients, in the order of the table.\<close>

definition client_ips :: "('c, 's, 'p) client_session list \<Rightarrow> string list" where
  "client_ips cs = map or_empty (filter truthy (map virtual_ip cs))"

lemma cleanup_clients_view:
  "sv_config (fold (cleanup_client E) cs sv) = sv_config sv"
  "tun_fd (sv_tun (fold (cleanup_client E) cs sv)) = tun_fd (sv_tun sv)"
  "route_log (fold (cleanup_client E) cs sv) =
     route_log sv @ map deleted (map (route_words (s_dev (sv_config sv))) (client_ips cs))"
  by (induction cs arbitrary: sv) (simp_all add: cleanup_client_view client_ips_def)

lemma client_ips_pairs:
  "client_ips (map snd al) = map (\<lambda>p. or_empty (virtual_ip (snd p))) (filter (\<lambda>p. truthy (virtual_ip (snd p))) al)"
  by (simp add: client_ips_def filter_map o_def)

lemma client_ips_table:
  assumes ok: "server_ok sv"
  shows "distinct (client_ips (map snd (sv_clients sv)))"
    and "set (client_ips (map snd (sv_clients sv))) = set (map fst (ip_to_addr sv))"
proof -
  from ok have d: "distinct (map fst (sv_clients sv))" by (simp add: server_ok_def clients_ok_def)
  have own: "map_of (ip_to_addr sv) ip = Some a \<longleftrightarrow> (\<exists>cs. (a, cs) \<in> set (sv_clients sv) \<and> virtual_ip cs = Some ip)"
    for ip a
    using ok d by (auto simp: server_ok_def ip_of_def bind_eq_Some_conv)
  have t: "truthy (virtual_ip cs) \<longleftrightarrow> (\<exists>ip. virtual_ip cs = Some ip)" if "(a, cs) \<in> set (sv_clients sv)" for a cs
    using virtual_ip_owner(3) [OF ok, of a cs] d that by (cases "virtual_ip cs") auto
  show "distinct (client_ips (map snd (sv_clients sv)))"
    unfolding client_ips_pairs distinct_map
  proof (intro conjI inj_onI)
    show "distinct (filter (\<lambda>p. truthy (virtual_ip (snd p))) (sv_clients sv))"
      using d distinct_map distinct_filter by blast
    fix p q
    assume p: "p \<in> set (filter (\<lambda>p. truthy (virtual_ip (snd p))) (sv_clients sv))"
      and q: "q \<in> set (filter (\<lambda>p. truthy (virtual_ip (snd p))) (sv_clients sv))"
      and e: "or_empty (virtual_ip (snd p)) = or_empty (virtual_ip (snd q))"
    from p q e t obtain ip where "virtual_ip (snd p) = Some ip" "virtual_ip (snd q) = Some ip"
      by (cases "virtual_ip (snd p)"; cases "virtual_ip (snd q)") auto
    with own [of ip "fst p"] own [of ip "fst q"] p q have "fst p = fst q" by auto
    with d p q show "p = q" by (auto simp: distinct_map inj_on_def)
  qed
  have "ip \<in> set (client_ips (map snd (sv_clients sv))) \<longleftrightarrow> (\<exists>a. map_of (ip_to_addr sv) ip = Some a)" for ip
    unfolding own client_ips_pairs using t by force
  then show "set (client_ips (map snd (sv_clients sv))) = set (map fst (ip_to_addr sv))"
    unfolding set_map dom_map_of_conv_image_fst [symmetric] by blast
qed

lemma count_distinct: "distinct xs \<Longrightarrow> count_list xs x = (if x \<in> set xs then 1 else 0)"
  by (induction xs) auto

lemma count_same:
  assumes "distinct xs" and "distinct ys" and "set xs = set ys"
  shows "count_list (map (route_words d) xs) y = count_list (map (route_words d) ys) y"
proof -
  have "inj_on (route_words d) A" for A by (simp add: inj_on_def)
  with assms show ?thesis by (simp add: count_distinct distinct_map)
qed

lemma cleanup_routes:
  assumes ok: "serving_ok cfg sv" and W: "programs_start (e_world E)"
  shows "\<exists>t. cleanup E sv = (Inr (), t) \<and> sv_clients t = [] \<and> ip_to_addr t = [] \<and>
    tun_fd (sv_tun t) = tun_fd (sv_tun sv) \<and>
    (\<forall>x. count_list (route_log t) (added x) = count_list (route_log t) (deleted x))"
proof -
  from ok have s: "server_ok sv" "routes_ok cfg sv" by (simp_all add: serving_ok_def)
  then have cfg: "sv_config sv = cfg" and d: "distinct (map fst (ip_to_addr sv))" by (simp_all add: routes_ok_def)
  let ?cs = "map snd (sv_clients sv)" and ?rw = "route_words (s_dev cfg)"
  let ?u = "(fold (cleanup_client E) ?cs sv)\<lparr>sv_clients := [], ip_to_addr := []\<rparr>"
  let ?v = "snd (on_os (delete_route (e_world E) (server_network cfg) None (Some (s_dev cfg))) ?u)"
  have u: "route_log ?u = route_log sv @ map deleted (map ?rw (client_ips ?cs))" "sv_config ?u = cfg"
    using cleanup_clients_view [of E ?cs sv] cfg by (simp_all add: route_log_def)
  then have v: "route_log ?v = route_log sv @ map deleted (map ?rw (client_ips ?cs)) @ [deleted (?rw (server_network cfg))]"
    "sv_clients ?v = []" "ip_to_addr ?v = []" "tun_fd (sv_tun ?v) = tun_fd (sv_tun sv)"
    using cleanup_clients_view(2) [of E ?cs sv] by (simp_all add: route_log_def route_cmds)
  have cd: "count_list (map deleted xs) (deleted x) = count_list xs x" "count_list (map deleted xs) (added x) = 0"
    for xs x by (induction xs) auto
  have b: "count_list (route_log ?v) (added x) = count_list (route_log ?v) (deleted x)" for x
    using s(2) count_same [OF client_ips_table(1) [OF s(1)] d client_ips_table(2) [OF s(1)], of "s_dev cfg" x]
    unfolding v(1) routes_ok_def by (simp add: count_list_snoc cd routed_def del: map_map)
  have td: "\<exists>w. (m_seq (on_os (teardown_nat (e_world E) i n)) (m_upd (\<lambda>s. s\<lparr>nat_interface := None\<rparr>))) ?v = (Inr (), w) \<and>
      sv_clients w = [] \<and> ip_to_addr w = [] \<and> tun_fd (sv_tun w) = tun_fd (sv_tun sv) \<and> route_log w = route_log ?v" for i n
  proof -
    obtain w where w: "on_os (teardown_nat (e_world E) i n) ?v = (Inr (), w)"
      using run_not_started [OF W, of "nat_rule ''-D'' i n" "tun_os (sv_tun ?v)"]
      by (auto simp: on_os_def teardown_nat_def meth_defs split: prod.split)
    have "w = snd (on_os (teardown_nat (e_world E) i n) ?v)" using w by simp
    then have "sv_clients w = []" "ip_to_addr w = []" "tun_fd (sv_tun w) = tun_fd (sv_tun sv)" "route_log w = route_log ?v"
      using v(2-4) by (simp_all add: route_log_def)
    with w show ?thesis by (simp add: meth_defs route_log_def)
  qed
  show ?thesis
  proof (cases "truthy (nat_interface ?v)")
    case True
    then obtain i where i: "nat_interface ?v = Some i" "i \<noteq> []" by (cases "nat_interface ?v") auto
    from td [of i "server_network cfg"] i b show ?thesis
      by (auto simp: cleanup_def Let_def u(2) simp del: on_os_frame on_os_os)
  next
    case False
    then have "cleanup E sv = (Inr (), ?v)"
      by (cases "nat_interface ?v") (simp_all add: cleanup_def Let_def u(2) del: on_os_frame on_os_os)
    with v b show ?thesis by simp
  qed
qed

lemma route_log_count:
  "count_list (route_log sv) (added x) = count_list (commands (tun_os (sv_tun sv))) (added x)"
  "count_list (route_log sv) (deleted x) = count_list (commands (tun_os (sv_tun sv))) (deleted x)"
  by (simp_all add: route_log_def count_filter)

lemma shutdown_routes:
  assumes ok: "serving_ok cfg sv" and W: "programs_start (e_world E)"
  shows "\<exists>t. shutdown E sv = (Inr (), t) \<and> sv_clients t = [] \<and> ip_to_addr t = [] \<and> tun_fd (sv_tun t) = None \<and>
    (\<forall>x. count_list (route_log t) (added x) = count_list (route_log t) (deleted x))"
proof -
  from cleanup_routes [OF assms] obtain u where u: "cleanup E sv = (Inr (), u)" "sv_clients u = []" "ip_to_addr u = []"
    "tun_fd (sv_tun u) = tun_fd (sv_tun sv)"
    "\<forall>x. count_list (route_log u) (added x) = count_list (route_log u) (deleted x)" by blast
  from ok obtain fd where "tun_fd (sv_tun u) = Some fd" using u(4) by (auto simp: serving_ok_def routes_ok_def)
  moreover have "tun_fd (tun_close W t) = None" for W t by (simp add: tun_close_def)
  ultimately show ?thesis
    using u by (simp add: shutdown_def meth_defs on_tun_def tun_fileno_def route_log_def)
qed

text \<open>
  Claim C17. The server cleans up after itself: on a machine where programs can be started,
  while it serves, every route it has added and not deleted is the one of its network or that
  of an address assigned to a client, once each; and when the main loop ends, \<^verbatim>\<open>run\<close>'s
  \<^verbatim>\<open>finally\<close> block completes, forgets the clients, closes the device and has deleted every
  route as often as it was added.
\<close>

theorem server_routes_balanced:
  assumes "serving E sv" and "programs_start (e_world E)"
  shows "\<exists>t. shutdown E sv = (Inr (), t) \<and> sv_clients t = [] \<and> tun_fd (sv_tun t) = None \<and>
    (\<forall>x. count_list (commands (tun_os (sv_tun sv))) (added x) =
       count_list (commands (tun_os (sv_tun sv))) (deleted x) +
       count_list (map (route_words (s_dev (sv_config sv)))
         (server_network (sv_config sv) # map fst (ip_to_addr sv))) x) \<and>
    (\<forall>x. count_list (commands (tun_os (sv_tun t))) (added x) = count_list (commands (tun_os (sv_tun t))) (deleted x))"
proof -
  note ok = serving_reaches_ok [OF assms]
  from shutdown_routes [OF ok assms(2)] obtain t where t: "shutdown E sv = (Inr (), t)" "sv_clients t = []"
    "tun_fd (sv_tun t) = None" "\<forall>x. count_list (route_log t) (added x) = count_list (route_log t) (deleted x)" by blast
  have "count_list (route_log sv) (added x) = count_list (route_log sv) (deleted x) +
      count_list (route_words (s_dev (sv_config sv)) (server_network (sv_config sv)) # routed sv) x" for x
    using ok by (simp add: serving_ok_def routes_ok_def)
  then show ?thesis using t by (simp add: route_log_count routed_def del: map_map)
qed

text \<open>
  Claim C38. A startup that fails leaves the machine changed: when the listening socket cannot be
  opened, \<^verbatim>\<open>run\<close> raises before its \<^verbatim>\<open>try\<close> statement, so the device stays open and the route of the
  network and the masquerading rule stay in place.
\<close>

theorem failed_startup_leaks:
  assumes "startup E (Inr ()) sv = (Inr (), t)"
  shows "\<exists>u. startup E (Inl e) sv = (Inl e, u) \<and> sv_tun u = sv_tun t \<and> nat_interface u = nat_interface t \<and>
    tun_fd (sv_tun u) \<noteq> None \<and>
    added (route_words (s_dev (sv_config sv)) (server_network (sv_config sv))) \<in> set (commands (tun_os (sv_tun u)))"
proof -
  obtain ip u1 u2 u3 u4 u5 iface u6 u7 u8 fd u9 where
    u: "server_ip (sv_config sv) = Inr ip" "on_tun (tun_open (e_world E) (e_kernel E)) sv = (Inr (), u1)"
      "on_tun (set_ip (e_world E) ip) u1 = (Inr (), u2)" "on_tun (set_mtu (e_world E) 1500) u2 = (Inr (), u3)"
      "on_os (enable_ip_forward (e_world E)) u3 = (Inr (), u4)"
      "on_os (add_route (e_world E) (server_network (sv_config sv)) None (Some (s_dev (sv_config sv)))) u4 = (Inr (), u5)"
      "on_os (get_default_interface (e_world E)) u5 = (Inr iface, u6)"
      "(if truthy iface then try_setup_nat E (or_empty iface) else m_return ()) u6 = (Inr (), u7)"
      "drop_step E u7 = (Inr (), u8)"
      "on_tun (\<lambda>t. (tun_fileno t, t)) (u8\<lparr>sv_transport := \<not> is_tcp (sv_config sv)\<rparr>) = (Inr fd, u9)"
      "t = u9\<lparr>sv_running := True\<rparr>"
    by (rule startup_chain [OF assms])
  have "startup E (Inl e) sv = (Inl e, u8)"
    unfolding startup_def Let_def m_bind_def [of "m_lift _"] m_seq_def m_bind_def m_lift_def
    by (simp add: u(1-9))
  moreover have "sv_tun u8 = sv_tun t" "nat_interface u8 = nat_interface t"
    using u(10,11) by (auto simp: on_tun_def)
  moreover have "added (route_words (s_dev (sv_config sv)) (server_network (sv_config sv))) \<in> set (route_log t)"
    "tun_fd (sv_tun t) \<noteq> None" using startup_bare [OF assms] by simp_all
  ultimately show ?thesis by (auto simp: route_log_def)
qed

section \<open>A concrete run\<close>

text \<open>On a machine where every command succeeds and the device opens, every step of the startup returns.\<close>

lemma on_tun_returns:
  assumes "\<And>t. \<exists>x u. m t = (Inr x, u) \<and> (tun_fd t = Some fd \<longrightarrow> tun_fd u = Some fd)"
  shows "\<exists>x t. on_tun m sv = (Inr x, t) \<and> sv_pool t = sv_pool sv \<and> sv_config t = sv_config sv \<and>
    (tun_fd (sv_tun sv) = Some fd \<longrightarrow> tun_fd (sv_tun t) = Some fd)"
proof -
  from assms obtain x u where "m (sv_tun sv) = (Inr x, u)" "tun_fd (sv_tun sv) = Some fd \<longrightarrow> tun_fd u = Some fd" by blast
  then show ?thesis by (simp add: on_tun_def)
qed

lemma on_os_returns:
  assumes "\<And>s. \<exists>x t. m s = (Inr x, t)"
  shows "\<exists>x t. on_os m sv = (Inr x, t) \<and> sv_pool t = sv_pool sv \<and> sv_config t = sv_config sv \<and>
    tun_fd (sv_tun t) = tun_fd (sv_tun sv)"
proof -
  from assms obtain x u where "m (tun_os (sv_tun sv)) = (Inr x, u)" by blast
  then show ?thesis by (simp add: on_os_def)
qed

lemma tun_methods_return:
  assumes "all_succeed W"
  shows "split_on (CHR ''/'') cidr = [a, b] \<Longrightarrow> \<exists>x u. set_ip W cidr t = (Inr x, u) \<and> (tun_fd t = Some fd \<longrightarrow> tun_fd u = Some fd)"
    and "\<exists>x u. set_mtu W n t = (Inr x, u) \<and> (tun_fd t = Some fd \<longrightarrow> tun_fd u = Some fd)"
  by (simp_all add: set_ip_def set_mtu_def tun_run_succeeds [OF assms] meth_defs)

lemma enable_returns: "\<exists>x t. enable_ip_forward W s = (Inr x, t)"
  by (simp add: enable_ip_forward_def ignoring_def)

lemma toy_startup:
  "\<exists>t. startup toy_env (Inr ()) toy_vpn = (Inr (), t) \<and> sv_pool t = Some toy_pool \<and> sv_config t = toy_settings"
proof -
  let ?W = "e_world toy_env" and ?K = "e_kernel toy_env"
  have W: "all_succeed ?W" by (simp add: all_succeed_def toy_env_def quiet_world_def)
  have cfg: "sv_config toy_vpn = toy_settings" "sv_pool toy_vpn = Some toy_pool" "s_user toy_settings = None"
    by (simp_all add: toy_vpn_def toy_settings_def)
  have "str_nat 29 = ''29''" by code_simp
  then have ip: "server_ip toy_settings = Inr ''10.8.0.1/29''"
    by (simp add: server_ip_def toy_settings_def toy_network ipv4_of_int_def toy_ip_str)
  have sp: "split_on (CHR ''/'') ''10.8.0.1/29'' = [''10.8.0.1'', ''29'']" by (simp add: split_on_def)
  obtain u1 where 1: "on_tun (tun_open ?W ?K) toy_vpn = (Inr (), u1)" "sv_pool u1 = Some toy_pool"
    "sv_config u1 = toy_settings" "tun_fd (sv_tun u1) = Some 3"
    using cfg by (simp add: on_tun_def tun_open_def toy_env_def Let_def)
  from on_tun_returns [of "set_ip ?W ''10.8.0.1/29''" 3 u1, OF tun_methods_return(1) [OF W sp]] 1 obtain u2 where
    2: "on_tun (set_ip ?W ''10.8.0.1/29'') u1 = (Inr (), u2)" "sv_pool u2 = Some toy_pool"
    "sv_config u2 = toy_settings" "tun_fd (sv_tun u2) = Some 3" by auto
  from on_tun_returns [of "set_mtu ?W 1500" 3 u2, OF tun_methods_return(2) [OF W]] 2 obtain u3 where
    3: "on_tun (set_mtu ?W 1500) u2 = (Inr (), u3)" "sv_pool u3 = Some toy_pool"
    "sv_config u3 = toy_settings" "tun_fd (sv_tun u3) = Some 3" by auto
  from on_os_returns [of "enable_ip_forward ?W" u3, OF enable_returns] 3 obtain u4 where
    4: "on_os (enable_ip_forward ?W) u3 = (Inr (), u4)" "sv_pool u4 = Some toy_pool"
    "sv_config u4 = toy_settings" "tun_fd (sv_tun u4) = Some 3" by auto
  from on_os_returns [of "add_route ?W (server_network toy_settings) None (Some (s_dev toy_settings))" u4]
    add_route_runs [OF W] 4 obtain u5 where
    5: "on_os (add_route ?W (server_network toy_settings) None (Some (s_dev toy_settings))) u4 = (Inr (), u5)"
    "sv_pool u5 = Some toy_pool" "sv_config u5 = toy_settings" "tun_fd (sv_tun u5) = Some 3" by auto
  obtain u6 where 6: "on_os (get_default_interface ?W) u5 = (Inr None, u6)" "sv_pool u6 = Some toy_pool"
    "sv_config u6 = toy_settings" "tun_fd (sv_tun u6) = Some 3"
    using 5 by (simp add: on_os_def get_default_interface_def subprocess_run_def run_proc_def toy_env_def quiet_world_def
        split_ws_def)
  show ?thesis
    using 1 2 3 4 5 6 cfg ip
    by (simp add: startup_def meth_defs Let_def drop_step_def maybe_drop_privileges_def on_tun_def tun_fileno_def)
qed

lemma toy_serving:
  "\<exists>sv cs ip. serving toy_env sv \<and> map_of (sv_clients sv) (''192.0.2.9'', 4000) = Some cs \<and>
     virtual_ip cs = Some ip"
proof -
  from toy_startup obtain v where v: "startup toy_env (Inr ()) toy_vpn = (Inr (), v)" "sv_pool v = Some toy_pool"
    "sv_config v = toy_settings" by blast
  have n: "new_server toy_settings empty_os toy_root = Inr toy_vpn"
    by (simp add: new_server_def toy_settings_def new_toy_pool' toy_vpn_def)
  have sv: "serving toy_env v" by (rule se_start [OF n _ v(1)]) (simp add: empty_os_def)
  have new: "map_of (sv_clients v) (''192.0.2.9'', 4000) = None" using startup_bare [OF v(1)] by (simp add: toy_vpn_def)
  have W: "programs_start (e_world toy_env)"
    by (rule all_succeed_start) (simp add: all_succeed_def toy_env_def quiet_world_def)
  obtain r1 s1 where 1: "handle_udp_data toy_env 0 (replicate 8 1) 5 (reset_datagram 7)
      (''192.0.2.9'', 4000) v = (r1, s1)" by fastforce
  obtain r2 s2 where 2: "handle_udp_data toy_env 1 (replicate 8 1) 5 (empty_finished 7)
      (''192.0.2.9'', 4000) s1 = (r2, s2)" by fastforce
  from reset_creates_client [OF new _ 1] toy_auth(2) v(2,3) obtain cs where
      cs: "map_of (sv_clients s1) (''192.0.2.9'', 4000) = Some cs" "peer_cert (cs_session cs) = None"
        "cs_data cs = None" and pool: "sv_pool s1 = Some toy_pool"
    by (auto simp: toy_vpn_def)
  have s1: "serving toy_env s1" using se_datagram [OF sv _ 1] by simp
  have s2: "serving toy_env s2" using se_datagram [OF s1 _ 2] by simp
  have "server_ok s1" using serving_reaches_ok [OF s1 W] by (simp add: serving_ok_def)
  from empty_finished_joins [OF this cs pool toy_pool_free(2), of 7 toy_env 1 "replicate 8 1" 5] 2 s2
  show ?thesis by auto
qed

theorem server_routes_balanced_witness:
  "\<exists>sv cs ip t. serving toy_env sv \<and> map_of (sv_clients sv) (''192.0.2.9'', 4000) = Some cs \<and>
     virtual_ip cs = Some ip \<and> shutdown toy_env sv = (Inr (), t) \<and> tun_fd (sv_tun t) = None \<and>
     (\<forall>x. count_list (commands (tun_os (sv_tun t))) (added x) = count_list (commands (tun_os (sv_tun t))) (deleted x))"
proof -
  have W: "programs_start (e_world toy_env)"
    by (rule all_succeed_start) (simp add: all_succeed_def toy_env_def quiet_world_def)
  from toy_serving obtain sv cs ip where sv: "serving toy_env sv"
    "map_of (sv_clients sv) (''192.0.2.9'', 4000) = Some cs" "virtual_ip cs = Some ip" by blast
  from server_routes_balanced [OF sv(1) W] sv show ?thesis by blast
qed

theorem failed_startup_leaks_witness:
  "\<exists>u. startup toy_env (Inl OSError) toy_vpn = (Inl OSError, u) \<and> tun_fd (sv_tun u) \<noteq> None"
proof -
  from toy_startup obtain v where "startup toy_env (Inr ()) toy_vpn = (Inr (), v)" by blast
  from failed_startup_leaks [OF this, of OSError] show ?thesis by blast
qed

end
