(* ===== verification/Keepalive.thy ===== *)
theory Keepalive
  imports Server_Routes
begin

text \<open>
  An idle connection: what the server's main loop sends to a client, the client's answer, and
  that rounds of the two keep both ends from timing out.
\<close>

declare split_paired_All [simp del] split_paired_Ex [simp del]

section \<open>One turn of the server\<close>

text \<open>The keepalive packet, and when it is due.\<close>

definition keepalive_packet :: "bytes \<Rightarrow> bytes" where
  "keepalive_packet sid = 3 # sid @ [4]"

definition due :: "settings \<Rightarrow> real \<Rightarrow> ('c, 's, 'p) client_session \<Rightarrow> bool" where
  "due cfg now cs \<longleftrightarrow> is_ready cs \<and> real_of_int (s_interval cfg) \<le> now - cs_keepalive cs"

lemma control_packet_keepalive:
  "length sid = 8 \<Longrightarrow> control_packet sid KEEPALIVE [] = Inr (keepalive_packet sid)"
  using of_be_bound [of sid]
  by (simp add: control_packet_def keepalive_packet_def pack_def res_bind_def be_bytes_of_be_length)

lemma keepalive_one_runs:
  fixes E :: "('c, 'k, 's, 'p) env"
  assumes "length (session_id (cs_session cs)) = 8" and "\<not> is_tcp (sv_config s)" and "sv_transport s"
  shows "keepalive_one E now (b, cs) s =
    (Inr (), if due (sv_config s) now cs
             then upd_client b (\<lambda>c. c\<lparr>cs_keepalive := now\<rparr>)
               (s\<lparr>outbox := outbox s @ [Udp (cs_addr cs) (keepalive_packet (session_id (cs_session cs)))]\<rparr>)
             else s)"
  using assms by (simp add: keepalive_one_def due_def meth_defs control_packet_keepalive send_udp)

lemma m_for_raises:
  assumes "x \<in> set xs" and "\<And>y. keeps Q (f y)" and "\<And>s. Q s \<Longrightarrow> \<exists>e t. f x s = (Inl e, t)" and "Q s"
  shows "\<exists>e t. m_for f xs s = (Inl e, t)"
  using assms(1,4)
proof (induction xs arbitrary: s)
  case (Cons y ys)
  obtain r u where r: "f y s = (r, u)" by fastforce
  show ?case
  proof (cases r)
    case (Inr v)
    have "Q u" by (rule keeps_step [OF assms(2) Cons.prems(2) r])
    moreover have "x \<in> set ys" using Cons.prems r Inr assms(3) [of s] by auto
    ultimately show ?thesis using Cons.IH [of u] r Inr by simp
  qed (simp add: r)
qed simp

text \<open>
  A lost connection stops the server: over TCP, when draining the writer of a client that is
  due raises, the turn raises, and the main loop ends with its \<^verbatim>\<open>finally\<close> clause for all
  clients. The handler of the connection catches \<^verbatim>\<open>ConnectionError\<close>, the main loop does not.
\<close>

theorem lost_connection_stops_server:
  assumes tcp: "is_tcp (sv_config sv)" and c: "(a, cs) \<in> set (sv_clients (cleanup_stale E now sv))"
    and d: "due (sv_config sv) now cs" and w: "cs_writer cs = Some n" and lost: "\<And>os. e_drain E os n = Inl e"
  shows "\<exists>e t. tick E now sv = (Inl e, t)"
proof -
  let ?u = "cleanup_stale E now sv"
  have k: "keeps (\<lambda>s. fixed_view s = fixed_view sv) (keepalive_one E now x)" for x
    unfolding keepalive_one_def by (auto split: prod.split intro!: keeps_intro keeps_async_send)
  have one: "\<exists>e t. keepalive_one E now (a, cs) s = (Inl e, t)" if "fixed_view s = fixed_view sv" for s
    using that tcp d w lost
    by (auto simp: fixed_view_def due_def keepalive_one_def meth_defs send_to_def sync_send_to_def drain_writer_def
        split: sum.split)
  have "fixed_view (remove_client E b s) = fixed_view s" for b s
    by (simp add: remove_client_def close_tcp_writer_def Let_def split: option.split)
  then have "fixed_view (fold (remove_client E) bs s) = fixed_view s" for bs s
    by (induction bs arbitrary: s) simp_all
  then have "fixed_view ?u = fixed_view sv" by (simp add: cleanup_stale_def)
  from m_for_raises [where f = "keepalive_one E now" and Q = "\<lambda>s. fixed_view s = fixed_view sv", OF c k one this]
  show ?thesis
    by (auto simp: tick_def meth_defs send_keepalives_def split: sum.splits)
qed

text \<open>Everything of a server but the table of its clients and what it has sent.\<close>

definition same_server :: "('c, 's, 'p) vpn_server \<Rightarrow> ('c, 's, 'p) vpn_server \<Rightarrow> bool" where
  "same_server s t \<longleftrightarrow> sv_config t = sv_config s \<and> sv_transport t = sv_transport s \<and>
     tun_fd (sv_tun t) = tun_fd (sv_tun s) \<and> tun_written (sv_tun t) = tun_written (sv_tun s)"

lemma same_server_trans: "same_server s t \<Longrightarrow> same_server t u \<Longrightarrow> same_server s u"
  by (simp add: same_server_def)

lemma keepalives_run:
  fixes E :: "('c, 'k, 's, 'p) env"
  shows "\<not> is_tcp (sv_config s) \<Longrightarrow> sv_transport s \<Longrightarrow>
   \<forall>x\<in>set acs. cs_addr (snd x) = fst x \<and> length (session_id (cs_session (snd x))) = 8 \<Longrightarrow> distinct (map fst acs) \<Longrightarrow>
   \<exists>t. m_for (keepalive_one E now) acs s = (Inr (), t) \<and> same_server s t \<and>
     (\<exists>xs. outbox t = outbox s @ xs \<and> sent_to a None xs =
        (case map_of acs a of None \<Rightarrow> []
         | Some cs \<Rightarrow> if due (sv_config s) now cs then [keepalive_packet (session_id (cs_session cs))] else [])) \<and>
     map_of (sv_clients t) a =
       (case map_of acs a of None \<Rightarrow> map_of (sv_clients s) a
        | Some cs \<Rightarrow> if due (sv_config s) now cs then map_option (\<lambda>c. c\<lparr>cs_keepalive := now\<rparr>) (map_of (sv_clients s) a)
                    else map_of (sv_clients s) a)"
proof (induction acs arbitrary: s)
  case Nil
  then show ?case by (simp add: same_server_def)
next
  case (Cons x acs)
  obtain b cs where x: "x = (b, cs)" by (cases x)
  let ?w = "keepalive_packet (session_id (cs_session cs))"
  let ?u = "if due (sv_config s) now cs
    then upd_client b (\<lambda>c. c\<lparr>cs_keepalive := now\<rparr>) (s\<lparr>outbox := outbox s @ [Udp b ?w]\<rparr>) else s"
  from Cons.prems x have one: "keepalive_one E now x s = (Inr (), ?u)"
    using keepalive_one_runs [of cs s E now b] by auto
  have u: "\<not> is_tcp (sv_config ?u)" "sv_transport ?u" "sv_config ?u = sv_config s" "same_server s ?u"
    using Cons.prems(1,2) by (simp_all add: same_server_def)
  have na: "a = b \<Longrightarrow> map_of acs a = None" using Cons.prems(4) x by (auto simp: map_of_eq_None_iff)
  from Cons.IH [OF u(1,2)] Cons.prems(3,4) obtain t xs where
    t: "m_for (keepalive_one E now) acs ?u = (Inr (), t)" "same_server ?u t" "outbox t = outbox ?u @ xs"
    and xs: "sent_to a None xs = (case map_of acs a of None \<Rightarrow> []
         | Some cs \<Rightarrow> if due (sv_config s) now cs then [keepalive_packet (session_id (cs_session cs))] else [])"
    and m: "map_of (sv_clients t) a = (case map_of acs a of None \<Rightarrow> map_of (sv_clients ?u) a
        | Some cs \<Rightarrow> if due (sv_config s) now cs then map_option (\<lambda>c. c\<lparr>cs_keepalive := now\<rparr>) (map_of (sv_clients ?u) a)
                    else map_of (sv_clients ?u) a)"
    unfolding u(3) by auto
  have "m_for (keepalive_one E now) (x # acs) s = (Inr (), t)" using one t(1) by simp
  moreover have "same_server s t" using u(4) t(2) by (rule same_server_trans)
  moreover have "\<exists>ys. outbox t = outbox s @ ys \<and> sent_to a None ys = (case map_of (x # acs) a of None \<Rightarrow> []
         | Some cs \<Rightarrow> if due (sv_config s) now cs then [keepalive_packet (session_id (cs_session cs))] else [])"
    using t(3) xs na by (intro exI [of _ "(if due (sv_config s) now cs then [Udp b ?w] else []) @ xs"])
      (auto simp: x)
  moreover have "map_of (sv_clients t) a = (case map_of (x # acs) a of None \<Rightarrow> map_of (sv_clients s) a
        | Some cs \<Rightarrow> if due (sv_config s) now cs then map_option (\<lambda>c. c\<lparr>cs_keepalive := now\<rparr>) (map_of (sv_clients s) a)
                    else map_of (sv_clients s) a)"
    using m na by (auto simp: x upd_client_clients split: option.split)
  ultimately show ?case by blast
qed

text \<open>A whole turn, seen from one client that is not stale.\<close>

lemma on_os_other [simp]:
  "sv_transport (snd (on_os m sv)) = sv_transport sv"
  "tun_written (sv_tun (snd (on_os m sv))) = tun_written (sv_tun sv)"
  by (simp_all add: on_os_def split: prod.split)

lemma same_server_remove: "same_server sv (remove_client E b sv)"
  by (auto simp: same_server_def remove_client_def close_tcp_writer_def Let_def split: option.split)

lemma outbox_remove: "outbox (remove_client E b sv) = outbox sv"
  by (auto simp: remove_client_def close_tcp_writer_def Let_def split: option.split)

lemma stale_frame:
  "same_server sv (cleanup_stale E now sv) \<and> outbox (cleanup_stale E now sv) = outbox sv"
proof -
  have "same_server sv (fold (remove_client E) bs sv) \<and> outbox (fold (remove_client E) bs sv) = outbox sv" for bs
  proof (induction bs arbitrary: sv)
    case Nil
    then show ?case by (simp add: same_server_def)
  next
    case (Cons b bs)
    show ?case
      using Cons [of "remove_client E b sv"] same_server_trans [OF same_server_remove [of sv E b]]
      by (simp add: outbox_remove)
  qed
  then show ?thesis by (simp add: cleanup_stale_def)
qed

lemma table_tick: "keeps (\<lambda>s :: ('c, 's, 'p) vpn_server. server_ok s \<and> ids_ok s) (tick E now)"
proof -
  have ka: "keeps ids_ok (send_keepalives E now :: (('c, 's, 'p) vpn_server, unit) meth)"
  proof (rule keepsI)
    fix s :: "('c, 's, 'p) vpn_server" assume ok: "ids_ok s"
    have one: "keeps ids_ok (keepalive_one E now x)" for x :: "addr \<times> ('c, 's, 'p) client_session"
    proof (cases x)
      case (Pair b cs)
      have "ids_ok (upd_client b (\<lambda>c. c\<lparr>cs_keepalive := now\<rparr>) v)" if "ids_ok v" for v :: "('c, 's, 'p) vpn_server"
        using that by (rule ids_upd) simp
      then show ?thesis unfolding Pair keepalive_one_def prod.case by (intro keeps_intro keeps_async_send)
    qed
    show "ids_ok (snd (send_keepalives E now s))"
      unfolding send_keepalives_def using ok by (rule keepsD [OF keeps_for [OF one]])
  qed
  have st: "ids_ok (cleanup_stale E now s)" if "server_ok s" "ids_ok s" for s :: "('c, 's, 'p) vpn_server"
    unfolding ids_ok_def
  proof (intro allI impI)
    fix a cs assume "map_of (sv_clients (cleanup_stale E now s)) a = Some cs"
    then have "map_of (sv_clients s) a = Some cs"
      using cleanup_stale_table [OF that(1), of E now a] by (simp split: option.splits if_splits)
    with that(2) show "length (session_id (cs_session cs)) = 8" by (simp add: ids_ok_def)
  qed
  have fr: "ids_ok (cleanup_all_fragments now s)" if "ids_ok s" for s :: "('c, 's, 'p) vpn_server"
    using that by (auto simp: ids_ok_def cleanup_all_fragments_def map_of_map)
  have "keeps (\<lambda>s :: ('c, 's, 'p) vpn_server. server_ok s \<and> ids_ok s) (send_keepalives E now)"
    using keepsD [OF keepalives_keeps] keepsD [OF ka] by (intro keepsI) blast
  then show ?thesis
    unfolding tick_def by (intro keeps_intro conjI) (auto intro: cleanup_stale_ok st cleanup_fragments_ok fr)
qed

lemma tick_step:
  assumes ok: "server_ok sv" "ids_ok sv" and udp: "\<not> is_tcp (sv_config sv)" "sv_transport sv"
    and c: "map_of (sv_clients sv) a = Some cs" and fresh: "\<not> is_stale now (sv_config sv) cs"
  obtains t xs where "tick E now sv = (Inr (), t)" and "same_server sv t" and "outbox t = outbox sv @ xs"
    and "sent_to a None xs = (if due (sv_config sv) now cs then [keepalive_packet (session_id (cs_session cs))] else [])"
    and "map_of (sv_clients t) a =
      Some (cs\<lparr>cs_keepalive := (if due (sv_config sv) now cs then now else cs_keepalive cs),
        cs_data := map_option (cleanup_fragments now) (cs_data cs)\<rparr>)"
proof -
  let ?u = "cleanup_stale E now sv"
  have u: "server_ok ?u" "same_server sv ?u" "outbox ?u = outbox sv"
    using cleanup_stale_ok [OF ok(1)] stale_frame [of sv E now] by simp_all
  have tab: "map_of (sv_clients ?u) b = Some d \<Longrightarrow> map_of (sv_clients sv) b = Some d" for b d
    using cleanup_stale_table [OF ok(1), of E now b] by (simp split: option.splits if_splits)
  have ua: "map_of (sv_clients ?u) a = Some cs"
    using cleanup_stale_table [OF ok(1), of E now a] c fresh by simp
  have dist: "distinct (map fst (sv_clients ?u))" using u(1) by (simp add: server_ok_def clients_ok_def)
  have wf: "\<forall>x\<in>set (sv_clients ?u). cs_addr (snd x) = fst x \<and> length (session_id (cs_session (snd x))) = 8"
  proof
    fix x assume "x \<in> set (sv_clients ?u)"
    with dist have m: "map_of (sv_clients ?u) (fst x) = Some (snd x)" by simp
    with u(1) have "cs_addr (snd x) = fst x" by (simp add: server_ok_def clients_ok_def)
    with tab [OF m] ok(2) show "cs_addr (snd x) = fst x \<and> length (session_id (cs_session (snd x))) = 8"
      by (simp add: ids_ok_def)
  qed
  have cfg: "sv_config ?u = sv_config sv" "sv_transport ?u" using u(2) udp by (simp_all add: same_server_def)
  from keepalives_run [of ?u "sv_clients ?u" E now a] cfg udp wf dist ua obtain v xs where
    v: "m_for (keepalive_one E now) (sv_clients ?u) ?u = (Inr (), v)" "same_server ?u v" "outbox v = outbox ?u @ xs"
    and xs: "sent_to a None xs = (if due (sv_config sv) now cs then [keepalive_packet (session_id (cs_session cs))] else [])"
    and m: "map_of (sv_clients v) a = (if due (sv_config sv) now cs then Some (cs\<lparr>cs_keepalive := now\<rparr>) else Some cs)"
    by auto
  have "tick E now sv = (Inr (), cleanup_all_fragments now v)"
    using v(1) by (simp add: tick_def meth_defs send_keepalives_def)
  moreover have "same_server sv (cleanup_all_fragments now v)"
    using same_server_trans [OF u(2) v(2)] by (simp add: same_server_def cleanup_all_fragments_def)
  moreover have "outbox (cleanup_all_fragments now v) = outbox sv @ xs"
    using u(3) v(3) by (simp add: cleanup_all_fragments_def)
  moreover have "map_of (sv_clients (cleanup_all_fragments now v)) a =
      Some (cs\<lparr>cs_keepalive := (if due (sv_config sv) now cs then now else cs_keepalive cs),
        cs_data := map_option (cleanup_fragments now) (cs_data cs)\<rparr>)"
    using m by (simp add: cleanup_all_fragments_def map_of_map)
  ultimately show ?thesis using that xs by blast
qed

section \<open>The two answers\<close>

lemma keepalive_packet_facts:
  assumes "length sid = 8"
  shows "encode_packet CONTROL (of_be sid) [4] = Inr (keepalive_packet sid)"
    and "decode_packet (keepalive_packet sid) = Inr (CONTROL, of_be sid, [4])"
    and "keepalive_packet sid \<noteq> []" and "unat (keepalive_packet sid ! 0) = 3"
proof -
  show e: "encode_packet CONTROL (of_be sid) [4] = Inr (keepalive_packet sid)"
    using assms of_be_bound [of sid] by (simp add: encode_packet_Inr_iff keepalive_packet_def be_bytes_of_be_length)
  show "decode_packet (keepalive_packet sid) = Inr (CONTROL, of_be sid, [4])"
    using e by (rule decode_encode)
qed (simp_all add: keepalive_packet_def)

lemma udp_to_server:
  "handle_udp_data SE now rid rk m a sv = (Inr (), t) \<Longrightarrow> outbox t = outbox sv \<Longrightarrow>
     net_step CE SE rid rk a None (To_server now)
       \<lparr>net_client = c, net_server = sv, net_up = m # up, net_down = down\<rparr> =
     \<lparr>net_client = c, net_server = t, net_up = up, net_down = down\<rparr>"
  by (simp add: server_receive_def)

lemma udp_to_client:
  "client_datagram CE now m c = (Inr (), d) \<Longrightarrow> cl_outbox d = cl_outbox c @ ws \<Longrightarrow>
     net_step CE SE rid rk a None (To_client now)
       \<lparr>net_client = c, net_server = sv, net_up = up, net_down = m # down\<rparr> =
     \<lparr>net_client = d, net_server = sv, net_up = up @ ws, net_down = down\<rparr>"
  by (simp add: client_receive_def)

lemma msg_of_4: "msg_of 4 = Inr KEEPALIVE"
  using msg_of_val [of KEEPALIVE] by simp

text \<open>The client answers with a keepalive of its own session and notes that it has heard the server.\<close>

lemma client_keepalive:
  assumes c: "client_up c ch" "udp_open c" and len: "length sid = 8" "length (session_id (cl_session c)) = 8"
  obtains d where "client_datagram CE now (keepalive_packet sid) c = (Inr (), d)"
    and "cl_outbox d = cl_outbox c @ [keepalive_packet (session_id (cl_session c))]"
    and "client_up d ch" and "udp_open d" and "cl_last_seen d = now"
    and "cl_running d = cl_running c" and "cl_config d = cl_config c" and "cl_session d = cl_session c"
proof -
  let ?m = "keepalive_packet sid" and ?r = "keepalive_packet (session_id (cl_session c))"
  let ?c = "c\<lparr>cl_last_seen := now, cl_status := map_option (record_in (length ?m)) (cl_status c)\<rparr>"
  have "client_datagram CE now ?m c = (Inr (), ?c\<lparr>cl_outbox := cl_outbox c @ [?r]\<rparr>)"
    using keepalive_packet_facts [OF len(1)] keepalive_packet_facts(1) [OF len(2)] client_send [of None ?c ?r] c(2)
    by (simp add: client_datagram_def client_control_def Let_def msg_of_4 meth_defs client_open_def fits_def udp_open_def)
  then show ?thesis by (rule that) (use c in \<open>simp_all add: client_up_def udp_open_def\<close>)
qed

text \<open>The server notes that it has heard the client.\<close>

lemma server_keepalive:
  assumes "map_of (sv_clients sv) a = Some cs" and "length sid = 8"
  shows "handle_udp_data SE now rid rk (keepalive_packet sid) a sv =
    (Inr (), upd_client a (\<lambda>c. c\<lparr>last_seen := now\<rparr>) sv)"
  using assms keepalive_packet_facts [OF assms(2)]
  by (simp add: handle_udp_data_def handle_control_def Let_def msg_of_4 meth_defs control_handler_def)

lemma quiet_turn:
  assumes c: "client_up c ch" "udp_open c" "cl_running c"
    and soon: "now - cl_last_seen c \<le> real_of_int (s_timeout (cl_config c))"
  obtains d where "turn CE now c = (Looping, d)" and "client_up d (cleanup_fragments now ch)" and "udp_open d"
    and "cl_last_seen d = cl_last_seen c" and "cl_running d" and "cl_config d = cl_config c"
    and "cl_session d = cl_session c"
proof -
  have "\<exists>d. turn CE now c = (Looping, d) \<and> client_up d (cleanup_fragments now ch) \<and> udp_open d \<and>
      cl_last_seen d = cl_last_seen c \<and> cl_running d \<and> cl_config d = cl_config c \<and> cl_session d = cl_session c"
    using assms
    by (auto simp: turn_def connect_turn_def meth_defs open_data_channel_def Let_def timed_out_def client_up_def udp_open_def)
  with that show ?thesis by blast
qed

section \<open>Rounds\<close>

lemma in_step_cleanup:
  assumes "in_step P c1 c2"
  shows "in_step P c1 (cleanup_fragments now c2)" and "in_step P (cleanup_fragments now c1) c2"
proof -
  obtain A where A: "dc_paired P c1 c2" "window_rel A (replay c2)" "\<forall>x\<in>A. x \<le> int (packet_counter c1)"
    "\<forall>g. map_of (fragments c2) g \<noteq> None \<longrightarrow> g \<le> int (packet_counter c1)" "distinct (map fst (fragments c2))"
    by (rule in_stepE [OF assms])
  have "dc_paired P c1 (cleanup_fragments now c2)"
    using A(1) by (auto simp: dc_paired_def cleanup_fragments_def split: option.splits)
  moreover have "map_of (fragments (cleanup_fragments now c2)) g \<noteq> None \<Longrightarrow> map_of (fragments c2) g \<noteq> None" for g
    by (auto simp: cleanup_fragments_def map_of_eq_None_iff)
  ultimately show "in_step P c1 (cleanup_fragments now c2)"
    using A(2-5) by (intro in_stepI [of _ _ _ A]) (simp_all add: cleanup_fragments_def distinct_filter_keys)
  have "dc_paired P (cleanup_fragments now c1) c2" "packet_counter (cleanup_fragments now c1) = packet_counter c1"
    using A(1) by (auto simp: dc_paired_def cleanup_fragments_def split: option.splits)
  then show "in_step P (cleanup_fragments now c1) c2" using A(2-5) by (intro in_stepI [of _ _ _ A]) simp_all
qed

text \<open>
  A connection without traffic: nothing is under way, the client has last heard the server at
  \<open>heard\<close>, the server has last heard the client at \<open>answered\<close> and last asked it at \<open>kept\<close>.
\<close>

definition idle ::
  "prims \<Rightarrow> kernel \<Rightarrow> addr \<Rightarrow> nat \<Rightarrow> settings \<Rightarrow> settings \<Rightarrow> real \<Rightarrow> real \<Rightarrow> real \<Rightarrow> ('c, 's, 'p) net \<Rightarrow> bool" where
  "idle P K a k ccfg scfg heard answered kept n \<longleftrightarrow>
     linked P K a k (net_client n) (net_server n) \<and> udp_open (net_client n) \<and> cl_running (net_client n) \<and>
     cl_config (net_client n) = ccfg \<and> length (session_id (cl_session (net_client n))) = 8 \<and>
     cl_last_seen (net_client n) = heard \<and>
     server_ok (net_server n) \<and> ids_ok (net_server n) \<and> sv_config (net_server n) = scfg \<and> \<not> is_tcp scfg \<and>
     sv_transport (net_server n) \<and>
     (\<exists>cs. map_of (sv_clients (net_server n)) a = Some cs \<and> last_seen cs = answered \<and> cs_keepalive cs = kept) \<and>
     net_up n = [] \<and> net_down n = []"

text \<open>
  A round: turns of both main loops that find nothing to do, then a turn of the server's that
  finds a keepalive due, its arrival at the client, and the arrival of the answer.
\<close>

record round =
  r_quiet :: "event list"
  r_tick :: real
  r_client :: real
  r_server :: real

definition round_events :: "round \<Rightarrow> event list" where
  "round_events r = r_quiet r @ [Server_tick (r_tick r), To_client (r_client r), To_server (r_server r)]"

fun quiet_ok :: "settings \<Rightarrow> settings \<Rightarrow> real \<Rightarrow> real \<Rightarrow> real \<Rightarrow> event \<Rightarrow> bool" where
  "quiet_ok ccfg scfg heard answered kept (Client_turn now) \<longleftrightarrow> now - heard \<le> real_of_int (s_timeout ccfg)"
| "quiet_ok ccfg scfg heard answered kept (Server_tick now) \<longleftrightarrow>
     now - answered \<le> real_of_int (s_timeout scfg) \<and> now - kept < real_of_int (s_interval scfg)"
| "quiet_ok ccfg scfg heard answered kept ev \<longleftrightarrow> False"

fun rounds_ok :: "settings \<Rightarrow> settings \<Rightarrow> real \<Rightarrow> real \<Rightarrow> real \<Rightarrow> round list \<Rightarrow> bool" where
  "rounds_ok ccfg scfg heard answered kept [] \<longleftrightarrow> True"
| "rounds_ok ccfg scfg heard answered kept (r # rs) \<longleftrightarrow>
     (\<forall>ev\<in>set (r_quiet r). quiet_ok ccfg scfg heard answered kept ev) \<and>
     r_tick r - answered \<le> real_of_int (s_timeout scfg) \<and> real_of_int (s_interval scfg) \<le> r_tick r - kept \<and>
     rounds_ok ccfg scfg (r_client r) (r_server r) (r_tick r) rs"

fun last_heard :: "real \<Rightarrow> round list \<Rightarrow> real" where
  "last_heard heard [] = heard"
| "last_heard heard (r # rs) = last_heard (r_client r) rs"

lemma idleE:
  assumes "idle P K a k ccfg scfg heard answered kept n"
  obtains c sv c1 c2 cs where "n = \<lparr>net_client = c, net_server = sv, net_up = [], net_down = []\<rparr>"
    and "client_up c c1" and "udp_open c" and "cl_running c" and "cl_config c = ccfg"
    and "length (session_id (cl_session c)) = 8" and "cl_last_seen c = heard"
    and "in_step P c1 c2" and "packet_counter c1 = k"
    and "server_ok sv" and "ids_ok sv" and "sv_config sv = scfg" and "\<not> is_tcp scfg" and "sv_transport sv"
    and "map_of (sv_clients sv) a = Some cs" and "is_ready cs" and "cs_data cs = Some c2"
    and "last_seen cs = answered" and "cs_keepalive cs = kept"
    and "\<exists>fd. tun_fd (sv_tun sv) = Some fd \<and> (\<forall>p. \<exists>m. os_write K fd p = Inr m)"
proof (cases n)
  case (fields c sv up down)
  with assms that show ?thesis unfolding idle_def linked_def server_up_def by auto
qed

lemma idleI:
  assumes "client_up c c1" and "udp_open c" and "cl_running c" and "cl_config c = ccfg"
    and "length (session_id (cl_session c)) = 8" and "cl_last_seen c = heard"
    and "in_step P c1 c2" and "packet_counter c1 = k"
    and "server_ok sv" and "ids_ok sv" and "sv_config sv = scfg" and "\<not> is_tcp scfg" and "sv_transport sv"
    and "map_of (sv_clients sv) a = Some cs" and "is_ready cs" and "cs_data cs = Some c2"
    and "last_seen cs = answered" and "cs_keepalive cs = kept"
    and "\<exists>fd. tun_fd (sv_tun sv) = Some fd \<and> (\<forall>p. \<exists>m. os_write K fd p = Inr m)"
  shows "idle P K a k ccfg scfg heard answered kept \<lparr>net_client = c, net_server = sv, net_up = [], net_down = []\<rparr>"
  using assms unfolding idle_def linked_def server_up_def by auto

lemma idle_turn:
  assumes i: "idle P K a k ccfg scfg heard answered kept n" and soon: "now - heard \<le> real_of_int (s_timeout ccfg)"
  shows "fst (turn CE now (net_client n)) = Looping"
    and "idle P K a k ccfg scfg heard answered kept (net_step CE SE rid rk a None (Client_turn now) n)"
proof (atomize (full), rule idleE [OF i])
  fix c sv c1 c2 cs
  assume n: "n = \<lparr>net_client = c, net_server = sv, net_up = [], net_down = []\<rparr>"
    and c: "client_up c c1" "udp_open c" "cl_running c" "cl_config c = ccfg"
      "length (session_id (cl_session c)) = 8" "cl_last_seen c = heard"
    and s: "in_step P c1 c2" "packet_counter c1 = k"
    and sv: "server_ok sv" "ids_ok sv" "sv_config sv = scfg" "\<not> is_tcp scfg" "sv_transport sv"
      "map_of (sv_clients sv) a = Some cs" "is_ready cs" "cs_data cs = Some c2" "last_seen cs = answered" "cs_keepalive cs = kept"
      "\<exists>fd. tun_fd (sv_tun sv) = Some fd \<and> (\<forall>p. \<exists>m. os_write K fd p = Inr m)"
  obtain d where d: "turn CE now c = (Looping, d)" "client_up d (cleanup_fragments now c1)" "udp_open d"
    "cl_last_seen d = cl_last_seen c" "cl_running d" "cl_config d = cl_config c" "cl_session d = cl_session c"
    by (rule quiet_turn [OF c(1-3)]) (use c(4,6) soon in simp)
  have "packet_counter (cleanup_fragments now c1) = k" using s(2) by (simp add: cleanup_fragments_def)
  then have "idle P K a k ccfg scfg heard answered kept \<lparr>net_client = d, net_server = sv, net_up = [], net_down = []\<rparr>"
    using d c(4-6) sv in_step_cleanup(2) [OF s(1)] by (intro idleI) simp_all
  with n d(1) show "fst (turn CE now (net_client n)) = Looping \<and>
      idle P K a k ccfg scfg heard answered kept (net_step CE SE rid rk a None (Client_turn now) n)" by simp
qed

text \<open>A turn of the server's loop that comes before the client is stale.\<close>

lemma idle_tick:
  assumes i: "idle P K a k ccfg scfg heard answered kept n" and soon: "now - answered \<le> real_of_int (s_timeout scfg)"
  obtains sid m where "length sid = 8"
    and "net_step CE SE rid rk a None (Server_tick now) n =
      m\<lparr>net_down := (if real_of_int (s_interval scfg) \<le> now - kept then [keepalive_packet sid] else [])\<rparr>"
    and "idle P K a k ccfg scfg heard answered (if real_of_int (s_interval scfg) \<le> now - kept then now else kept) m"
proof (rule idleE [OF i])
  fix c sv c1 c2 cs
  assume n: "n = \<lparr>net_client = c, net_server = sv, net_up = [], net_down = []\<rparr>"
    and c: "client_up c c1" "udp_open c" "cl_running c" "cl_config c = ccfg"
      "length (session_id (cl_session c)) = 8" "cl_last_seen c = heard"
    and s: "in_step P c1 c2" "packet_counter c1 = k"
    and ok: "server_ok sv" "ids_ok sv" and sv: "sv_config sv = scfg" "\<not> is_tcp scfg" "sv_transport sv"
    and cs: "map_of (sv_clients sv) a = Some cs" "is_ready cs" "cs_data cs = Some c2" "last_seen cs = answered" "cs_keepalive cs = kept"
    and fd: "\<exists>fd. tun_fd (sv_tun sv) = Some fd \<and> (\<forall>p. \<exists>m. os_write K fd p = Inr m)"
  have "is_established (cs_session cs)" using cs(2) by (simp add: is_ready_def)
  then have fresh: "\<not> is_stale now (sv_config sv) cs" using soon cs(4) sv(1) by (simp add: is_stale_def)
  have du: "due (sv_config sv) now cs \<longleftrightarrow> real_of_int (s_interval scfg) \<le> now - kept"
    using cs(2,5) sv(1) by (simp add: due_def)
  obtain t xs where t: "tick SE now sv = (Inr (), t)" "same_server sv t" "outbox t = outbox sv @ xs"
    and xs: "sent_to a None xs = (if due (sv_config sv) now cs then [keepalive_packet (session_id (cs_session cs))] else [])"
    and m: "map_of (sv_clients t) a =
      Some (cs\<lparr>cs_keepalive := (if due (sv_config sv) now cs then now else cs_keepalive cs),
        cs_data := map_option (cleanup_fragments now) (cs_data cs)\<rparr>)"
    by (rule tick_step [OF ok _ sv(3) cs(1) fresh]) (use sv in simp_all)
  have ok': "server_ok t" "ids_ok t" using keepsD [OF table_tick, of sv SE now] ok t(1) by simp_all
  let ?m = "\<lparr>net_client = c, net_server = t, net_up = [], net_down = []\<rparr>"
  have st: "net_step CE SE rid rk a None (Server_tick now) n = ?m\<lparr>net_down := sent_to a None xs\<rparr>" using t(1,3) n by simp
  have "idle P K a k ccfg scfg heard answered (if real_of_int (s_interval scfg) \<le> now - kept then now else kept) ?m"
    using c s ok' m cs t(2) sv fd in_step_cleanup(1) [OF s(1), of now] unfolding du
    by (intro idleI [where ?c2.0 = "cleanup_fragments now c2" and cs = "cs\<lparr>cs_keepalive :=
        (if real_of_int (s_interval scfg) \<le> now - kept then now else kept), cs_data := Some (cleanup_fragments now c2)\<rparr>"])
      (simp_all add: is_ready_def same_server_def)
  moreover have "length (session_id (cs_session cs)) = 8" using ok(2) cs(1) by (simp add: ids_ok_def)
  ultimately show ?thesis using that [OF _ st [unfolded xs du]] by blast
qed

text \<open>The keepalive and its answer.\<close>

lemma idle_answer:
  assumes i: "idle P K a k ccfg scfg heard answered kept n" and sid: "length sid = 8"
  shows "idle P K a k ccfg scfg t1 t2 kept
    (net_run CE SE rid rk a None [To_client t1, To_server t2] (n\<lparr>net_down := [keepalive_packet sid]\<rparr>))"
proof (rule idleE [OF i])
  fix c sv c1 c2 cs
  assume n: "n = \<lparr>net_client = c, net_server = sv, net_up = [], net_down = []\<rparr>"
    and c: "client_up c c1" "udp_open c" "cl_running c" "cl_config c = ccfg"
      "length (session_id (cl_session c)) = 8" "cl_last_seen c = heard"
    and s: "in_step P c1 c2" "packet_counter c1 = k"
    and sv: "server_ok sv" "ids_ok sv" "sv_config sv = scfg" "\<not> is_tcp scfg" "sv_transport sv"
    and cs: "map_of (sv_clients sv) a = Some cs" "is_ready cs" "cs_data cs = Some c2" "cs_keepalive cs = kept"
    and fd: "\<exists>fd. tun_fd (sv_tun sv) = Some fd \<and> (\<forall>p. \<exists>m. os_write K fd p = Inr m)"
  let ?r = "keepalive_packet (session_id (cl_session c))"
  let ?sv = "upd_client a (\<lambda>c. c\<lparr>last_seen := t2\<rparr>) sv"
  obtain d where d: "client_datagram CE t1 (keepalive_packet sid) c = (Inr (), d)" "cl_outbox d = cl_outbox c @ [?r]"
    "client_up d c1" "udp_open d" "cl_last_seen d = t1" "cl_running d = cl_running c" "cl_config d = cl_config c"
    "cl_session d = cl_session c" by (rule client_keepalive [OF c(1,2) sid c(5)])
  have "outbox ?sv = outbox sv" by simp
  from udp_to_server [OF server_keepalive [OF cs(1) c(5), of SE t2 rid rk] this]
  have "net_run CE SE rid rk a None [To_client t1, To_server t2] (n\<lparr>net_down := [keepalive_packet sid]\<rparr>) =
      \<lparr>net_client = d, net_server = ?sv, net_up = [], net_down = []\<rparr>"
    using udp_to_client [OF d(1,2)] n by (simp add: net_run_def del: net_step.simps)
  moreover have "server_ok ?sv" "ids_ok ?sv" using sv(1,2) by (auto intro: upd_client_ok)
  ultimately show ?thesis
    using d c s sv(3-5) cs fd
    by (simp only:) (rule idleI [where ?c2.0 = c2 and ?c1.0 = c1 and cs = "cs\<lparr>last_seen := t2\<rparr>"];
        simp add: upd_client_clients is_ready_def)
qed

section \<open>Staying up\<close>

lemma idle_quiet:
  "idle P K a k ccfg scfg heard answered kept n \<Longrightarrow> \<forall>ev\<in>set evs. quiet_ok ccfg scfg heard answered kept ev \<Longrightarrow>
     idle P K a k ccfg scfg heard answered kept (net_run CE SE rid rk a None evs n)"
proof (induction evs arbitrary: n)
  case (Cons ev evs)
  let ?n = "net_step CE SE rid rk a None ev n"
  have "idle P K a k ccfg scfg heard answered kept ?n"
  proof (cases ev)
    case (Client_turn now)
    with Cons.prems(2) have "now - heard \<le> real_of_int (s_timeout ccfg)" by simp
    from idle_turn(2) [OF Cons.prems(1) this, of CE SE rid rk] show ?thesis by (simp only: Client_turn)
  next
    case (Server_tick now)
    with Cons.prems have q: "now - answered \<le> real_of_int (s_timeout scfg)" "\<not> real_of_int (s_interval scfg) \<le> now - kept"
      by simp_all
    from idle_tick [OF Cons.prems(1) q(1), of CE SE rid rk] q(2) obtain m where
      m: "net_step CE SE rid rk a None (Server_tick now) n = m\<lparr>net_down := []\<rparr>" "idle P K a k ccfg scfg heard answered kept m"
      by auto
    from m(2) have "m\<lparr>net_down := []\<rparr> = m" by (simp add: idle_def)
    with m show ?thesis by (simp add: Server_tick del: net_step.simps)
  qed (use Cons.prems in simp_all)
  with Cons.IH [of ?n] Cons.prems(2) show ?case by (simp add: net_run_def del: net_step.simps)
qed (simp add: net_run_def)

lemma idle_round:
  assumes i: "idle P K a k ccfg scfg heard answered kept n" and r: "rounds_ok ccfg scfg heard answered kept (r # rs)"
  shows "idle P K a k ccfg scfg (r_client r) (r_server r) (r_tick r) (net_run CE SE rid rk a None (round_events r) n)"
proof -
  let ?n = "net_run CE SE rid rk a None (r_quiet r) n"
  have q: "idle P K a k ccfg scfg heard answered kept ?n" by (rule idle_quiet [OF i]) (use r in simp)
  have due: "r_tick r - answered \<le> real_of_int (s_timeout scfg)" "real_of_int (s_interval scfg) \<le> r_tick r - kept"
    using r by simp_all
  from idle_tick [OF q due(1), of CE SE rid rk] due(2) obtain sid m where sid: "length sid = 8"
    and m: "net_step CE SE rid rk a None (Server_tick (r_tick r)) ?n = m\<lparr>net_down := [keepalive_packet sid]\<rparr>"
      "idle P K a k ccfg scfg heard answered (r_tick r) m" by auto
  have "net_run CE SE rid rk a None (round_events r) n = net_run CE SE rid rk a None [To_client (r_client r), To_server (r_server r)]
      (m\<lparr>net_down := [keepalive_packet sid]\<rparr>)"
    using m(1) by (simp add: round_events_def net_run_def del: net_step.simps)
  with idle_answer [OF m(2) sid] show ?thesis by simp
qed

lemma idle_rounds:
  "idle P K a k ccfg scfg heard answered kept n \<Longrightarrow> rounds_ok ccfg scfg heard answered kept rs \<Longrightarrow>
     \<exists>answered' kept'. idle P K a k ccfg scfg (last_heard heard rs) answered' kept'
       (net_run CE SE rid rk a None (concat (map round_events rs)) n)"
proof (induction rs arbitrary: heard answered kept n)
  case (Cons r rs)
  from idle_round [OF Cons.prems, of CE SE rid rk] Cons.IH Cons.prems(2) show ?case by (fastforce simp: net_run_def)
qed (auto simp: net_run_def)

text \<open>
  Claim C6. An idle connection stays up: however long it lasts, if the server's main loop turns
  once within its timeout of the client's last sign of life and finds a keepalive due, and the two datagrams of the
  exchange arrive, then neither side ends the connection: the client is still registered and
  ready, both channels are in step with no packet id used, and the client's main loop goes on as
  long as the last keepalive is not older than its timeout.
\<close>

theorem idle_connection_lives:
  assumes "idle P K a k ccfg scfg heard answered kept n" and "rounds_ok ccfg scfg heard answered kept rs"
    and "now - last_heard heard rs \<le> real_of_int (s_timeout ccfg)"
    and "m = net_run CE SE rid rk a None (concat (map round_events rs)) n"
  shows "linked P K a k (net_client m) (net_server m) \<and> fst (turn CE now (net_client m)) = Looping"
proof -
  from idle_rounds [OF assms(1,2)] obtain answered' kept' where
    i: "idle P K a k ccfg scfg (last_heard heard rs) answered' kept' m" unfolding assms(4) by blast
  from i have "linked P K a k (net_client m) (net_server m)" by (simp add: idle_def)
  with idle_turn(1) [OF i assms(3)] show ?thesis by blast
qed

text \<open>The toy client and server, up, over 200 seconds with a keepalive every 100.\<close>

theorem idle_connection_lives_witness:
  "fst (turn toy_client_env 320 (net_client (net_run toy_client_env toy_env [] 5 (''192.0.2.9'', 4000) None
     [Server_tick 1, Client_turn 2, Server_tick 100, To_client 101, To_server 102,
      Client_turn 103, Server_tick 200, To_client 201, To_server 202]
     \<lparr>net_client = toy_client_up\<lparr>cl_running := True\<rparr>, net_server = toy_ready\<lparr>sv_transport := True\<rparr>,
       net_up = [], net_down = []\<rparr>))) = Looping"
proof -
  let ?n = "\<lparr>net_client = toy_client_up\<lparr>cl_running := True\<rparr>, net_server = toy_ready\<lparr>sv_transport := True\<rparr>,
       net_up = [], net_down = []\<rparr>"
  let ?a = "(''192.0.2.9'', 4000)"
  let ?rs = "[\<lparr>r_quiet = [Server_tick 1, Client_turn 2], r_tick = 100, r_client = 101, r_server = 102\<rparr>,
    \<lparr>r_quiet = [Client_turn 103], r_tick = 200, r_client = 201, r_server = 202\<rparr>]"
  have "server_ok toy_vpn" by (rule server_reach_ok [OF toy_reach])
  moreover have "ip_of toy_ready = ip_of toy_vpn"
    by (rule ext) (simp add: ip_of_def toy_ready_def toy_vpn_def new_client_session_def)
  ultimately have ok: "server_ok toy_ready" "ids_ok toy_ready"
    by (simp_all add: server_ok_def clients_ok_def ids_ok_def toy_ready_def toy_vpn_def new_client_session_def
        toy_session_defs)
  have "linked toy_prims (e_kernel toy_env) ?a 0 toy_client_up toy_ready"
    using toy_linked by (simp add: toy_client_env_def)
  with ok have "idle toy_prims (e_kernel toy_env) ?a 0 toy_client_settings toy_settings 0 0 0 ?n"
    by (simp add: idle_def linked_def client_up_def server_up_def ids_ok_def
        server_ok_cong [of "toy_ready\<lparr>sv_transport := True\<rparr>" toy_ready])
      (simp add: toy_client_up_def toy_start_def new_client_def toy_ready_def toy_vpn_def udp_open_def client_is_tcp_def
        toy_client_settings_def toy_settings_def is_tcp_def new_client_session_def toy_session_defs)
  moreover have "rounds_ok toy_client_settings toy_settings 0 0 0 ?rs"
    by (simp add: toy_client_settings_def toy_settings_def)
  ultimately show ?thesis
    using idle_connection_lives [of toy_prims "e_kernel toy_env" ?a 0 toy_client_settings toy_settings 0 0 0 ?n ?rs 320
        _ toy_client_env toy_env "[]" 5, OF _ _ _ refl]
    by (simp add: round_events_def toy_client_settings_def)
qed

end
