(* ===== verification/Genuine.thy ===== *)
theory Genuine
  imports Flow "HOL-Library.Multiset"
begin

text \<open>
  A receiver on a network that loses, repeats and reorders datagrams, but delivers none that
  the sender has not made: the invariant of its data channel, over the set of packets the
  sender has encrypted and the set of those the receiver has returned.
\<close>

section \<open>What the sender has made\<close>

text \<open>A packet is sent in this many datagrams, the \<open>i\<close>-th of them with this payload.\<close>

definition frags_of :: "bytes \<Rightarrow> nat" where
  "frags_of p = (if length p \<le> MAX_PAYLOAD then 1 else num_frags (length p))"

definition payload_of :: "bytes \<Rightarrow> nat \<Rightarrow> bytes" where
  "payload_of p i =
     (if length p \<le> MAX_PAYLOAD then p
      else FRAG_MASK # word_of_nat (num_frags (length p)) # word_of_nat i # chunk p i)"

text \<open>\<open>w\<close> is the \<open>i\<close>-th datagram of the packet \<open>p\<close>, whose first one has the id \<open>s\<close>.\<close>

definition genuine :: "prims \<Rightarrow> data_channel \<Rightarrow> nat \<Rightarrow> bytes \<Rightarrow> nat \<Rightarrow> bytes \<Rightarrow> bool" where
  "genuine P c1 s p i w \<longleftrightarrow>
     i < frags_of p \<and> (\<exists>n. length n = 12 \<and> encrypt_one P n c1 (payload_of p i) (s + i) = Inr w)"

lemma genuine_counter [simp]: "genuine P (c1\<lparr>packet_counter := k\<rparr>) s p i w = genuine P c1 s p i w"
  by (simp add: genuine_def)

lemma frags_of_pos: "0 < frags_of p"
  using num_frags_ge2 [of "length p"] by (auto simp: frags_of_def)

lemma frags_of_read: "ip_packet p \<Longrightarrow> frags_of p \<le> 47"
  using num_frags_read by (simp add: frags_of_def ip_packet_def)

lemma encrypt_genuine:
  assumes rnd: "\<And>i. length (rnd i) = 12" and e: "encrypt P rnd p c1 = (Inr ws, c1')"
  shows "c1' = c1\<lparr>packet_counter := packet_counter c1 + frags_of p\<rparr>"
    and "\<forall>w\<in>set ws. \<exists>i. genuine P c1 (packet_counter c1 + 1) p i w"
proof -
  have "c1' = c1\<lparr>packet_counter := packet_counter c1 + frags_of p\<rparr> \<and>
    (\<forall>w\<in>set ws. \<exists>i. genuine P c1 (packet_counter c1 + 1) p i w)"
  proof (cases "length p \<le> MAX_PAYLOAD")
    case True
    with e rnd [of 0] show ?thesis
      by (auto simp: encrypt_small res_bind_Inr_iff frags_of_def genuine_def payload_of_def)
  next
    case False
    let ?n = "num_frags (length p)" and ?s = "packet_counter c1 + 1"
    from False e have e': "encrypt_frags P rnd c1 p ?s ?n [0..<?n] = Inr ws"
      and c: "c1' = c1\<lparr>packet_counter := packet_counter c1 + ?n\<rparr>"
      using encrypt_large [of p P rnd c1 ws c1'] by simp_all
    from encrypt_frags_Inr [OF e'] have l: "list_all2 (\<lambda>i w. \<exists>q. frag_payload p ?n i = Inr q \<and>
        encrypt_one P (rnd i) c1 q (?s + i) = Inr w) [0..<?n] ws" .
    have "\<exists>i. genuine P c1 ?s p i w" if "w \<in> set ws" for w
    proof -
      from that obtain j where j: "j < length ws" "w = ws ! j" by (auto simp: in_set_conv_nth)
      with l have "j < ?n" by (auto dest: list_all2_lengthD)
      with l j rnd [of j] False show ?thesis
        by (auto simp: list_all2_conv_all_nth frag_payload_Inr_iff genuine_def payload_of_def frags_of_def
            intro!: exI [of _ j])
    qed
    with c False show ?thesis by (simp add: frags_of_def)
  qed
  then show "c1' = c1\<lparr>packet_counter := packet_counter c1 + frags_of p\<rparr>"
    "\<forall>w\<in>set ws. \<exists>i. genuine P c1 (packet_counter c1 + 1) p i w" by simp_all
qed

text \<open>The packets sent, with their first ids: all in \<open>{k0 <.. k}\<close>, in ranges apart from each other.\<close>

definition sent_ok :: "nat \<Rightarrow> nat \<Rightarrow> (nat \<times> bytes) set \<Rightarrow> bool" where
  "sent_ok k0 k L \<longleftrightarrow> finite L \<and>
     (\<forall>x\<in>L. k0 < fst x \<and> fst x + frags_of (snd x) \<le> Suc k \<and> ip_packet (snd x)) \<and>
     (\<forall>x\<in>L. \<forall>y\<in>L. x \<noteq> y \<longrightarrow> fst x + frags_of (snd x) \<le> fst y \<or> fst y + frags_of (snd y) \<le> fst x)"

lemma sent_ok_empty: "sent_ok k k {}"
  by (simp add: sent_ok_def)

lemma sent_ok_insert:
  assumes L: "sent_ok k0 k L" and p: "ip_packet p" and k0: "k0 \<le> k"
  shows "sent_ok k0 (k + frags_of p) (insert (Suc k, p) L)" and "(Suc k, p) \<notin> L"
proof -
  have below: "fst x + frags_of (snd x) \<le> Suc k" if "x \<in> L" for x using L that by (simp add: sent_ok_def)
  have new: "x \<in> L \<Longrightarrow> fst x + frags_of (snd x) \<le> Suc k + frags_of p" for x using below [of x] by simp
  show "(Suc k, p) \<notin> L" using below [of "(Suc k, p)"] frags_of_pos [of p] by auto
  show "sent_ok k0 (k + frags_of p) (insert (Suc k, p) L)"
    using L below new p k0 unfolding sent_ok_def by auto
qed

lemma sent_ids:
  assumes L: "sent_ok k0 k L" "x \<in> L" "y \<in> L" and i: "i < frags_of (snd x)" "j < frags_of (snd y)"
    and eq: "fst x + i = fst y + j"
  shows "x = y"
proof (rule ccontr)
  assume "x \<noteq> y"
  with L have "fst x + frags_of (snd x) \<le> fst y \<or> fst y + frags_of (snd y) \<le> fst x" by (simp add: sent_ok_def)
  with i eq show False by auto
qed

section \<open>What the receiver holds\<close>

text \<open>
  The receiver has returned exactly the packets in \<open>D\<close>, all their ids are used up, and what it
  collects of the others are their own fragments, under ids that are used up as well.
\<close>

definition holds_parts :: "int set \<Rightarrow> data_channel \<Rightarrow> nat \<times> bytes \<Rightarrow> bool" where
  "holds_parts A ch x \<longleftrightarrow>
     (\<exists>I. collecting ch (fst x) (frags_of (snd x)) (chunk (snd x)) I \<and> I \<subseteq> {..<frags_of (snd x)} \<and>
        (\<forall>i\<in>I. int (fst x + i) \<in> A))"

definition receiving :: "nat \<Rightarrow> (nat \<times> bytes) set \<Rightarrow> (nat \<times> bytes) set \<Rightarrow> data_channel \<Rightarrow> bool" where
  "receiving k L D ch \<longleftrightarrow>
     distinct (map fst (fragments ch)) \<and>
     (\<forall>g. map_of (fragments ch) g \<noteq> None \<longrightarrow> g \<le> int k) \<and>
     (\<exists>A. window_rel A (replay ch) \<and> (\<forall>x\<in>D. \<forall>i<frags_of (snd x). int (fst x + i) \<in> A) \<and>
        (\<forall>x\<in>L. MAX_PAYLOAD < length (snd x) \<longrightarrow> holds_parts A ch x))"

lemma receivingI:
  assumes "distinct (map fst (fragments ch))" and "\<forall>g. map_of (fragments ch) g \<noteq> None \<longrightarrow> g \<le> int k"
    and "window_rel A (replay ch)" and "\<And>x i. x \<in> D \<Longrightarrow> i < frags_of (snd x) \<Longrightarrow> int (fst x + i) \<in> A"
    and "\<And>x. x \<in> L \<Longrightarrow> MAX_PAYLOAD < length (snd x) \<Longrightarrow> holds_parts A ch x"
  shows "receiving k L D ch"
  using assms unfolding receiving_def by blast

lemma receivingE:
  assumes "receiving k L D ch"
  obtains A where "distinct (map fst (fragments ch))" and "\<forall>g. map_of (fragments ch) g \<noteq> None \<longrightarrow> g \<le> int k"
    and "window_rel A (replay ch)" and "\<forall>x\<in>D. \<forall>i<frags_of (snd x). int (fst x + i) \<in> A"
    and "\<forall>x\<in>L. MAX_PAYLOAD < length (snd x) \<longrightarrow> holds_parts A ch x"
  using assms unfolding receiving_def by blast

lemma receiving_start:
  assumes "in_step P c1 ch"
  shows "receiving (packet_counter c1) {} {} ch"
  by (rule in_stepE [OF assms], rule receivingI) auto

lemma holds_parts_new:
  assumes "map_of (fragments ch) (int (fst x)) = None"
  shows "holds_parts A ch x"
  unfolding holds_parts_def by (rule exI [of _ "{}"]) (simp add: collecting_def assms)

lemma holds_parts_mono:
  assumes "holds_parts A ch x" and "A \<subseteq> B"
    and "map_of (fragments d) (int (fst x)) \<in> {map_of (fragments ch) (int (fst x)), None}"
  shows "holds_parts B d x"
proof (cases "map_of (fragments d) (int (fst x)) = None")
  case True
  then show ?thesis by (rule holds_parts_new)
next
  case False
  with assms show ?thesis unfolding holds_parts_def collecting_def by auto
qed

lemma receiving_sent:
  assumes "receiving k L D ch"
  shows "receiving (k + n) (insert (Suc k, p) L) D ch"
proof (rule receivingE [OF assms])
  fix A assume r: "distinct (map fst (fragments ch))" "\<forall>g. map_of (fragments ch) g \<noteq> None \<longrightarrow> g \<le> int k"
    "window_rel A (replay ch)" "\<forall>x\<in>D. \<forall>i<frags_of (snd x). int (fst x + i) \<in> A"
    "\<forall>x\<in>L. MAX_PAYLOAD < length (snd x) \<longrightarrow> holds_parts A ch x"
  have "map_of (fragments ch) (int (Suc k)) = None" using r(2) [rule_format, of "int (Suc k)"] by fastforce
  then have "holds_parts A ch (Suc k, p)" by (intro holds_parts_new) simp
  moreover have "\<forall>g. map_of (fragments ch) g \<noteq> None \<longrightarrow> g \<le> int (k + n)" using r(2) by fastforce
  ultimately show ?thesis using r by (intro receivingI [of _ _ A]) auto
qed

lemma receiving_cleanup:
  assumes "receiving k L D ch"
  shows "receiving k L D (cleanup_fragments now ch)"
proof (rule receivingE [OF assms])
  fix A assume r: "distinct (map fst (fragments ch))" "\<forall>g. map_of (fragments ch) g \<noteq> None \<longrightarrow> g \<le> int k"
    "window_rel A (replay ch)" "\<forall>x\<in>D. \<forall>i<frags_of (snd x). int (fst x + i) \<in> A"
    "\<forall>x\<in>L. MAX_PAYLOAD < length (snd x) \<longrightarrow> holds_parts A ch x"
  let ?d = "cleanup_fragments now ch"
  have d: "distinct (map fst (fragments ?d))" using r(1) by (simp add: cleanup_fragments_def distinct_filter_keys)
  have m: "map_of (fragments ?d) g \<in> {map_of (fragments ch) g, None}" for g
  proof (cases "map_of (fragments ?d) g")
    case (Some b)
    then have "(g, b) \<in> set (fragments ch)" by (auto simp: cleanup_fragments_def dest: map_of_SomeD)
    with r(1) Some show ?thesis by simp
  qed simp
  then have "map_of (fragments ?d) g \<noteq> None \<Longrightarrow> g \<le> int k" for g using r(2) by (metis insertE singletonD)
  moreover have "holds_parts A ?d x" if "x \<in> L" "MAX_PAYLOAD < length (snd x)" for x
    using r(5) that by (intro holds_parts_mono [OF _ order.refl m]) blast
  moreover have "replay ?d = replay ch" by (simp add: cleanup_fragments_def)
  ultimately show ?thesis using d r(3,4) by (intro receivingI [of ?d k A D L]) (simp_all del: of_nat_add)
qed

text \<open>
  A genuine datagram, whichever of them and however often it has come before: the receiver
  returns nothing, or its packet, which it has not returned before.
\<close>

lemma small_received:
  assumes "payload_of p i = q" and "length p \<le> MAX_PAYLOAD" and "ip_packet p"
  shows "reassemble now n q ch = (Inr (Some p), ch)"
  using assms by (cases p) (auto simp: payload_of_def reassemble_def ip_packet_def)

lemma receive_accepted:
  assumes P: "aead_ok P" "lz4_ok P" and pr: "dc_paired P c1 ch"
    and L: "sent_ok k0 k L" "D \<subseteq> L" "x \<in> L" and g: "genuine P c1 (fst x) (snd x) i w"
    and r: "distinct (map fst (fragments ch))" "\<forall>g. map_of (fragments ch) g \<noteq> None \<longrightarrow> g \<le> int k"
      "window_rel A (replay ch)" "\<forall>x\<in>D. \<forall>i<frags_of (snd x). int (fst x + i) \<in> A"
      "\<forall>x\<in>L. MAX_PAYLOAD < length (snd x) \<longrightarrow> holds_parts A ch x"
    and rw: "check (int (fst x + i)) (replay ch) = (True, rw)" "window_rel (insert (int (fst x + i)) A) rw"
      "int (fst x + i) \<notin> A"
  obtains res frs where "decrypt P now w ch = (Inr res, ch\<lparr>replay := rw, fragments := frs\<rparr>)"
    and "case res of None \<Rightarrow> receiving k L D (ch\<lparr>replay := rw, fragments := frs\<rparr>)
      | Some p \<Rightarrow> p = snd x \<and> x \<notin> D \<and> receiving k L (insert x D) (ch\<lparr>replay := rw, fragments := frs\<rparr>)"
proof -
  let ?p = "snd x" and ?B = "insert (int (fst x + i)) A"
  from g obtain n where i: "i < frags_of ?p" and n: "length n = 12"
    and w: "encrypt_one P n c1 (payload_of ?p i) (fst x + i) = Inr w" by (auto simp: genuine_def)
  have ip: "ip_packet ?p" using L(1,3) by (simp add: sent_ok_def)
  have new: "x \<notin> D" using r(4) i rw(3) by blast
  show ?thesis
  proof (cases "length ?p \<le> MAX_PAYLOAD")
    case True
    have d: "decrypt P now w ch = (Inr (Some ?p), ch\<lparr>replay := rw\<rparr>)"
      using decrypt_encrypt_one [OF P pr n w rw(1)] small_received [OF refl True ip] by simp
    have one: "i = 0" "frags_of ?p = 1" using i True by (simp_all add: frags_of_def)
    have "holds_parts ?B (ch\<lparr>replay := rw\<rparr>) y" if "y \<in> L" "MAX_PAYLOAD < length (snd y)" for y
      using r(5) that by (intro holds_parts_mono [of A ch y ?B]) auto
    then have "receiving k L (insert x D) (ch\<lparr>replay := rw\<rparr>)"
      using one r(1,2,4) rw(2) by (intro receivingI [of _ k ?B _ L]) (auto simp del: of_nat_add)
    then show ?thesis using that [of "Some ?p" "fragments ch"] d new by simp
  next
    case False
    let ?n = "frags_of ?p"
    have tot: "?n = num_frags (length ?p)" "?n < 256"
      using False frags_of_read [OF ip] by (simp_all add: frags_of_def)
    from r(5) L(3) False obtain I where c: "collecting ch (fst x) ?n (chunk ?p) I" and I: "I \<subseteq> {..<?n}"
      and IA: "\<forall>i\<in>I. int (fst x + i) \<in> A" unfolding holds_parts_def by fastforce
    have iI: "i \<notin> I" using IA rw(3) by blast
    have w': "encrypt_one P n c1 (FRAG_MASK # word_of_nat ?n # word_of_nat i # chunk ?p i) (fst x + i) = Inr w"
      using w False by (simp add: payload_of_def tot(1))
    obtain frs where d: "decrypt P now w ch =
        (Inr (if insert i I = {..<?n} then Some ?p else None), ch\<lparr>replay := rw, fragments := frs\<rparr>)"
      and col: "collecting (ch\<lparr>replay := rw, fragments := frs\<rparr>) (fst x) ?n (chunk ?p)
        (if insert i I = {..<?n} then {} else insert i I)"
      and fr: "\<forall>g. g \<noteq> int (fst x) \<longrightarrow> map_of frs g = map_of (fragments ch) g" "distinct (map fst frs)"
      by (rule fragment_received [OF P pr n w' rw(1) tot i iI I c r(1)])
    let ?d = "ch\<lparr>replay := rw, fragments := frs\<rparr>"
    have parts: "holds_parts ?B ?d y" if y: "y \<in> L" "MAX_PAYLOAD < length (snd y)" for y
    proof (cases "y = x")
      case True
      with col I i IA show ?thesis unfolding holds_parts_def
        by (intro exI [of _ "if insert i I = {..<?n} then {} else insert i I"]) (simp del: of_nat_add)
    next
      case False
      have "fst y \<noteq> fst x" using sent_ids [OF L(1) y(1) L(3), of 0 0] False frags_of_pos by auto
      then have "map_of (fragments ?d) (int (fst y)) = map_of (fragments ch) (int (fst y))" using fr(1) by simp
      with r(5) y show ?thesis by (intro holds_parts_mono [of A ch y ?B]) auto
    qed
    have "int (fst x) \<le> int k" using L(1,3) frags_of_pos [of ?p] by (force simp: sent_ok_def)
    then have groups: "map_of (fragments ?d) g \<noteq> None \<Longrightarrow> g \<le> int k" for g
      using fr(1) r(2) by (cases "g = int (fst x)") simp_all
    have all: "int (fst x + j) \<in> ?B" if "insert i I = {..<?n}" "j < ?n" for j
      using IA that by (cases "j = i") (auto simp del: of_nat_add)
    have rec: "receiving k L E ?d" if E: "E = D \<or> E = insert x D \<and> insert i I = {..<?n}" for E
    proof (rule receivingI [of ?d k ?B E L])
      show "int (fst y + j) \<in> ?B" if "y \<in> E" "j < frags_of (snd y)" for y j
        using E that r(4) all by blast
    qed (use fr(2) groups rw(2) parts in \<open>simp_all del: of_nat_add\<close>)
    show ?thesis
      using that [OF d] rec [of D] rec [of "insert x D"] new by (cases "insert i I = {..<?n}") simp_all
  qed
qed

lemma receive_genuine:
  assumes P: "aead_ok P" "lz4_ok P" and pr: "dc_paired P c1 ch"
    and L: "sent_ok k0 k L" "D \<subseteq> L" "x \<in> L" and g: "genuine P c1 (fst x) (snd x) i w"
    and r: "receiving k L D ch"
  obtains res d where "decrypt P now w ch = (Inr res, d)" and "dc_paired P c1 d"
    and "case res of None \<Rightarrow> receiving k L D d | Some p \<Rightarrow> p = snd x \<and> x \<notin> D \<and> receiving k L (insert x D) d"
proof (rule receivingE [OF r])
  fix A assume A: "distinct (map fst (fragments ch))" "\<forall>g. map_of (fragments ch) g \<noteq> None \<longrightarrow> g \<le> int k"
    "window_rel A (replay ch)" "\<forall>x\<in>D. \<forall>i<frags_of (snd x). int (fst x + i) \<in> A"
    "\<forall>x\<in>L. MAX_PAYLOAD < length (snd x) \<longrightarrow> holds_parts A ch x"
  let ?id = "int (fst x + i)"
  from pr have sid: "length (shared_id c1) \<le> 8" unfolding dc_paired_def by blast
  from g obtain n where "encrypt_one P n c1 (payload_of (snd x) i) (fst x + i) = Inr w"
    by (auto simp: genuine_def)
  from wire_id_encrypt_one [OF this sid] have id: "wire_id w = fst x + i" .
  show ?thesis
  proof (cases "fst (check ?id (replay ch))")
    case False
    with id decrypt_rejected [of w ch P now] have "decrypt P now w ch = (Inr None, ch)" by simp
    with that [of None ch] pr r show ?thesis by simp
  next
    case True
    then obtain rw where rw: "check ?id (replay ch) = (True, rw)" by (cases "check ?id (replay ch)") simp
    from check_refines [OF A(3), of ?id] rw have acc: "spec_accept (window_size (replay ch)) A ?id" by simp
    then have nA: "?id \<notin> A" by (auto simp: spec_accept_def)
    from check_rel [OF A(3), of ?id] acc rw have rel: "window_rel (insert ?id A) rw" by simp
    show ?thesis
      by (rule receive_accepted [OF P pr L g A rw rel nA]) (rule that, assumption, use pr in simp, assumption)
  qed
qed

end
