(* ===== verification/Unreliable.thy ===== *)
theory Unreliable
  imports Tunnel Genuine
begin

text \<open>
  The tunnel over a network that keeps no promise: datagrams are lost, repeated and reordered,
  and the server's main loop turns in between, also long enough for fragment groups and clients
  to time out. What the server's device is given is still only what the client's device has
  delivered, each packet at most once.
\<close>

declare split_paired_All [simp del] split_paired_Ex [simp del]

section \<open>The network\<close>

text \<open>
  \<open>lk_wire\<close> now holds every datagram the client has ever sent; \<open>Arrives now i\<close> hands the \<open>i\<close>-th
  of them to the server, once more or never.
\<close>

datatype lossy_event = Reads "nat \<Rightarrow> bytes" bytes | Arrives real nat | Ticks real

fun lossy_step ::
  "('c, 'k, 's, 'p) client_env \<Rightarrow> ('c, 'k, 's, 'p) env \<Rightarrow> bytes \<Rightarrow> 's \<Rightarrow> addr \<Rightarrow> lossy_event \<Rightarrow>
   ('c, 's, 'p, bytes) link \<Rightarrow> ('c, 's, 'p, bytes) link" where
  "lossy_step CE SE rid rk a (Reads rnd p) l =
     (let c = lk_client l; d = snd (client_tun_readable CE rnd (Inr p) c) in
      l\<lparr>lk_client := d, lk_wire := lk_wire l @ drop (length (cl_outbox c)) (cl_outbox d)\<rparr>)"
| "lossy_step CE SE rid rk a (Arrives now i) l =
     (if i < length (lk_wire l)
      then l\<lparr>lk_server := snd (handle_udp_data SE now rid rk (lk_wire l ! i) a (lk_server l))\<rparr>
      else l)"
| "lossy_step CE SE rid rk a (Ticks now) l = l\<lparr>lk_server := snd (tick SE now (lk_server l))\<rparr>"

definition lossy_run ::
  "('c, 'k, 's, 'p) client_env \<Rightarrow> ('c, 'k, 's, 'p) env \<Rightarrow> bytes \<Rightarrow> 's \<Rightarrow> addr \<Rightarrow> lossy_event list \<Rightarrow>
   ('c, 's, 'p, bytes) link \<Rightarrow> ('c, 's, 'p, bytes) link" where
  "lossy_run CE SE rid rk a = fold (lossy_step CE SE rid rk a)"

fun packets_of :: "lossy_event list \<Rightarrow> bytes list" where
  "packets_of [] = []"
| "packets_of (Reads rnd p # evs) = p # packets_of evs"
| "packets_of (Arrives now i # evs) = packets_of evs"
| "packets_of (Ticks now # evs) = packets_of evs"

fun lossy_ok :: "lossy_event \<Rightarrow> bool" where
  "lossy_ok (Reads rnd p) \<longleftrightarrow> (\<forall>i. length (rnd i) = 12) \<and> ip_packet p"
| "lossy_ok (Arrives now i) \<longleftrightarrow> True"
| "lossy_ok (Ticks now) \<longleftrightarrow> True"

section \<open>The server\<close>

text \<open>
  If the client is still registered, its channel is that of a receiver that has returned the
  packets in \<open>D\<close>; and the device has been given \<open>w0\<close> and then no more than these packets.
\<close>

definition receiver_ok ::
  "prims \<Rightarrow> data_channel \<Rightarrow> nat \<Rightarrow> (nat \<times> bytes) set \<Rightarrow> (nat \<times> bytes) set \<Rightarrow> bytes list \<Rightarrow> addr \<Rightarrow>
   ('c, 's, 'p) vpn_server \<Rightarrow> bool" where
  "receiver_ok P c1 k L D w0 a sv \<longleftrightarrow>
     (\<forall>cs ch. map_of (sv_clients sv) a = Some cs \<longrightarrow> cs_data cs = Some ch \<longrightarrow>
        dc_paired P c1 ch \<and> receiving k L D ch) \<and>
     (\<exists>out. tun_written (sv_tun sv) = w0 @ out \<and> mset out \<subseteq># image_mset snd (mset_set D))"

lemma receiver_ok_cong:
  assumes "receiver_ok P c1 k L D w0 a sv" and "tun_written (sv_tun t) = tun_written (sv_tun sv)"
    and "\<And>cs ch. map_of (sv_clients t) a = Some cs \<Longrightarrow> cs_data cs = Some ch \<Longrightarrow>
      \<exists>cs'. map_of (sv_clients sv) a = Some cs' \<and> cs_data cs' = Some ch"
  shows "receiver_ok P c1 k L D w0 a t"
  using assms unfolding receiver_ok_def by metis

lemma written_os [simp]: "tun_written (sv_tun (snd (on_os m sv))) = tun_written (sv_tun sv)"
  by (simp add: on_os_def split: prod.split)

lemma written_remove [simp]: "tun_written (sv_tun (remove_client E b sv)) = tun_written (sv_tun sv)"
  by (auto simp: remove_client_def close_tcp_writer_def Let_def split: option.split)

lemma receiver_ok_outbox [simp]:
  "receiver_ok P c1 k L D w0 a (sv\<lparr>outbox := x\<rparr>) = receiver_ok P c1 k L D w0 a sv"
  by (simp add: receiver_ok_def)

lemma receiver_remove: "receiver_ok P c1 k L D w0 a sv \<Longrightarrow> receiver_ok P c1 k L D w0 a (remove_client E b sv)"
  by (rule receiver_ok_cong) (auto simp: remove_client_table split: if_splits)

lemma receiver_stale: "receiver_ok P c1 k L D w0 a sv \<Longrightarrow> receiver_ok P c1 k L D w0 a (cleanup_stale E now sv)"
proof -
  have "receiver_ok P c1 k L D w0 a sv \<Longrightarrow> receiver_ok P c1 k L D w0 a (fold (remove_client E) bs sv)" for bs
    by (induction bs arbitrary: sv) (simp_all add: receiver_remove)
  then show "receiver_ok P c1 k L D w0 a sv \<Longrightarrow> receiver_ok P c1 k L D w0 a (cleanup_stale E now sv)"
    by (simp add: cleanup_stale_def)
qed

lemma receiver_keepalives:
  "keeps (receiver_ok P c1 k L D w0 a :: ('c, 's, 'p) vpn_server \<Rightarrow> bool) (send_keepalives E now)"
proof (rule keepsI)
  fix sv :: "('c, 's, 'p) vpn_server"
  assume r: "receiver_ok P c1 k L D w0 a sv"
  have "keeps (receiver_ok P c1 k L D w0 a) (sync_send_to cs d)" for cs :: "('c, 's, 'p) client_session" and d
    by (rule keepsI) (simp add: sync_send_to_def split: sum.split)
  moreover have "receiver_ok P c1 k L D w0 a (upd_client b (\<lambda>c. c\<lparr>cs_keepalive := now\<rparr>) s)"
    if "receiver_ok P c1 k L D w0 a s" for b and s :: "('c, 's, 'p) vpn_server"
    by (rule receiver_ok_cong [OF that]) (auto simp: upd_client_clients split: if_splits)
  ultimately have "keeps (receiver_ok P c1 k L D w0 a) (m_for (keepalive_one E now) acs)"
    for acs :: "(addr \<times> ('c, 's, 'p) client_session) list"
    unfolding keepalive_one_def by (auto split: prod.split intro!: keeps_intro keeps_async_send)
  then show "receiver_ok P c1 k L D w0 a (snd (send_keepalives E now sv))"
    unfolding send_keepalives_def using r by (rule keepsD)
qed

lemma receiver_fragments:
  assumes "receiver_ok P c1 k L D w0 a sv"
  shows "receiver_ok P c1 k L D w0 a (cleanup_all_fragments now sv)"
proof -
  have c: "dc_paired P c1 ch \<and> receiving k L D ch \<Longrightarrow>
      dc_paired P c1 (cleanup_fragments now ch) \<and> receiving k L D (cleanup_fragments now ch)" for ch
    by (intro conjI receiving_cleanup) (auto simp: dc_paired_def cleanup_fragments_def split: option.splits)
  have "dc_paired P c1 ch \<and> receiving k L D ch"
    if m: "map_of (sv_clients (cleanup_all_fragments now sv)) a = Some cs" "cs_data cs = Some ch" for cs ch
  proof -
    from m obtain cs0 ch0 where "map_of (sv_clients sv) a = Some cs0" "cs_data cs0 = Some ch0"
      "ch = cleanup_fragments now ch0" by (auto simp: cleanup_all_fragments_def map_of_map)
    with assms c show ?thesis by (simp add: receiver_ok_def)
  qed
  moreover have "tun_written (sv_tun (cleanup_all_fragments now sv)) = tun_written (sv_tun sv)"
    by (simp add: cleanup_all_fragments_def)
  ultimately show ?thesis using assms unfolding receiver_ok_def by metis
qed

lemma receiver_tick: "keeps (receiver_ok P c1 k L D w0 a) (tick E now)"
  unfolding tick_def by (intro keeps_intro receiver_keepalives receiver_stale receiver_fragments)

lemma receiver_sent:
  assumes "receiver_ok P c1 k L D w0 a sv"
  shows "receiver_ok P (c1\<lparr>packet_counter := m\<rparr>) (k + n) (insert (Suc k, p) L) D w0 a sv"
  using assms by (simp add: receiver_ok_def receiving_sent)

text \<open>A genuine datagram from the client's address.\<close>

lemma genuine_head:
  assumes P: "aead_ok P" and pr: "dc_paired P c1 c2" and g: "genuine P c1 s p i w"
  shows "w \<noteq> [] \<and> unat (hd w) = opcode_val DATA \<and> length w < 65536"
proof -
  from g obtain n where n: "length n = 12" and w: "encrypt_one P n c1 (payload_of p i) (s + i) = Inr w"
    by (auto simp: genuine_def)
  have "length (payload_of p i) \<le> MAX_PAYLOAD + 3" by (simp add: payload_of_def chunk_def length_slice)
  from wire_head [OF P pr n this w] show ?thesis .
qed

lemma tun_write_cases:
  "tun_written (snd (tun_write K p t)) \<in> {tun_written t, tun_written t @ [p]}"
  by (simp add: tun_write_def split: option.split sum.split)

lemma handle_data_cases:
  assumes "decrypt (e_prims E) now w ch = (Inr res, d)" and "cs_data cs = Some ch" and "is_ready cs" and "res \<noteq> Some []"
  obtains t where "snd (handle_data E now w a cs sv) = (upd_client a (\<lambda>c. c\<lparr>cs_data := Some d\<rparr>) sv)\<lparr>sv_tun := t\<rparr>"
    and "tun_written t \<in> {tun_written (sv_tun sv), tun_written (sv_tun sv) @ (case res of None \<Rightarrow> [] | Some p \<Rightarrow> [p])}"
proof (cases res)
  case None
  let ?u = "upd_client a (\<lambda>c. c\<lparr>cs_data := Some d\<rparr>) sv"
  have "snd (handle_data E now w a cs sv) = ?u\<lparr>sv_tun := sv_tun ?u\<rparr>"
    using assms None by (simp add: handle_data_def meth_defs)
  then show ?thesis by (rule that) simp
next
  case (Some p)
  let ?t = "snd (tun_write (e_kernel E) p (sv_tun sv))"
  have "snd (handle_data E now w a cs sv) = (upd_client a (\<lambda>c. c\<lparr>cs_data := Some d\<rparr>) sv)\<lparr>sv_tun := ?t\<rparr>"
    using assms Some by (simp add: handle_data_def meth_defs on_tun_def split: prod.split sum.split)
  moreover have "tun_written ?t \<in> {tun_written (sv_tun sv), tun_written (sv_tun sv) @ [p]}" by (rule tun_write_cases)
  ultimately show ?thesis using that [of ?t] Some by simp
qed

lemma receiver_arrives:
  assumes P: "aead_ok P" "lz4_ok P" "e_prims SE = P" and pr: "dc_paired P c1 c2"
    and L: "sent_ok k0 k L" "D \<subseteq> L" "x \<in> L" and g: "genuine P c1 (fst x) (snd x) i w"
    and r: "receiver_ok P c1 k L D w0 a sv"
  obtains D' where "D' \<subseteq> L" and "receiver_ok P c1 k L D' w0 a (snd (handle_udp_data SE now rid rk w a sv))"
proof -
  from genuine_head [OF P(1) pr g] have w: "w \<noteq> []" "unat (w ! 0) = opcode_val DATA"
    by (simp_all flip: hd_conv_nth)
  let ?u = "upd_client a (\<lambda>c. c\<lparr>last_seen := now\<rparr>) sv"
  show ?thesis
  proof (cases "map_of (sv_clients sv) a")
    case None
    with w r that [of D] L(2) show ?thesis by (simp add: handle_udp_data_def Let_def)
  next
    case (Some cs)
    let ?cs = "cs\<lparr>last_seen := now\<rparr>"
    have h: "handle_udp_data SE now rid rk w a sv = handle_data SE now w a ?cs ?u"
      using Some w by (simp add: handle_udp_data_def Let_def)
    have u: "receiver_ok P c1 k L D w0 a ?u"
      by (rule receiver_ok_cong [OF r]) (auto simp: upd_client_clients split: if_splits)
    show ?thesis
    proof (cases "is_ready cs")
      case False
      then have "\<not> is_ready ?cs" by (simp add: is_ready_def)
      with u that [of D] L(2) h show ?thesis by (simp add: handle_data_def)
    next
      case True
      then obtain ch where ch: "cs_data cs = Some ch" by (auto simp: is_ready_def)
      from True have rd: "is_ready ?cs" by (simp add: is_ready_def)
      from r Some ch have c: "dc_paired P c1 ch" "receiving k L D ch" by (simp_all add: receiver_ok_def)
      obtain res d where dec: "decrypt P now w ch = (Inr res, d)" and d: "dc_paired P c1 d"
        and rv: "case res of None \<Rightarrow> receiving k L D d | Some p \<Rightarrow> p = snd x \<and> x \<notin> D \<and> receiving k L (insert x D) d"
        by (rule receive_genuine [OF P(1,2) c(1) L g c(2)])
      let ?D = "case res of None \<Rightarrow> D | Some p \<Rightarrow> insert x D" and ?p = "case res of None \<Rightarrow> [] | Some p \<Rightarrow> [p]"
      have "ip_packet (snd x)" using L(1,3) by (simp add: sent_ok_def)
      then have ne: "res \<noteq> Some []" using rv by (auto simp: ip_packet_def)
      have chs: "cs_data ?cs = Some ch" using ch by simp
      obtain t where t: "snd (handle_data SE now w a ?cs ?u) = (upd_client a (\<lambda>c. c\<lparr>cs_data := Some d\<rparr>) ?u)\<lparr>sv_tun := t\<rparr>"
        "tun_written t \<in> {tun_written (sv_tun ?u), tun_written (sv_tun ?u) @ ?p}"
        by (rule handle_data_cases [OF dec [folded P(3)] chs rd ne])
      obtain out where out: "tun_written (sv_tun sv) = w0 @ out" "mset out \<subseteq># image_mset snd (mset_set D)"
        using r unfolding receiver_ok_def by blast
      have fin: "finite D" using L(1,2) by (auto simp: sent_ok_def intro: finite_subset)
      have "mset (out @ ?p) \<subseteq># image_mset snd (mset_set ?D)"
        using out(2) rv fin by (cases res) auto
      moreover have "mset out \<subseteq># image_mset snd (mset_set ?D)"
        using out(2) rv fin by (cases res) (auto intro: subset_mset.order_trans)
      ultimately have "\<exists>out. tun_written t = w0 @ out \<and> mset out \<subseteq># image_mset snd (mset_set ?D)"
        using t(2) out(1) by auto
      moreover have "receiving k L ?D d" using rv by (cases res) simp_all
      ultimately have "receiver_ok P c1 k L ?D w0 a (snd (handle_udp_data SE now rid rk w a sv))"
        using d Some unfolding h t(1) by (simp add: receiver_ok_def upd_client_clients)
      moreover have "?D \<subseteq> L" using L(2,3) by (cases res) simp_all
      ultimately show ?thesis using that by blast
    qed
  qed
qed

section \<open>Both ends\<close>

text \<open>
  \<open>L\<close> are the packets sent so far, \<open>D\<close> those the server's channel has returned; every datagram
  on the network is one of a packet in \<open>L\<close>.
\<close>

definition lossy_inv ::
  "prims \<Rightarrow> addr \<Rightarrow> nat \<Rightarrow> nat \<Rightarrow> bytes list \<Rightarrow> (nat \<times> bytes) set \<Rightarrow> (nat \<times> bytes) set \<Rightarrow>
   ('c, 's, 'p, bytes) link \<Rightarrow> bool" where
  "lossy_inv P a k0 k w0 L D l \<longleftrightarrow>
     (\<exists>c1 c2. client_up (lk_client l) c1 \<and> udp_open (lk_client l) \<and> packet_counter c1 = k \<and> dc_paired P c1 c2 \<and>
        (\<forall>w\<in>set (lk_wire l). \<exists>x\<in>L. \<exists>i. genuine P c1 (fst x) (snd x) i w) \<and>
        receiver_ok P c1 k L D w0 a (lk_server l)) \<and>
     sent_ok k0 k L \<and> D \<subseteq> L \<and> k0 \<le> k"

lemma client_reads:
  assumes up: "client_up c c1" "udp_open c" and ip: "ip_packet p"
    and e: "encrypt (e_prims CE) rnd p c1 = (Inr ws, c1')" and len: "\<forall>w\<in>set ws. length w < 65536"
  obtains d where "client_tun_readable CE rnd (Inr p) c = (Inr (), d)" and "cl_outbox d = cl_outbox c @ ws"
    and "client_up d c1'" and "udp_open d"
proof -
  let ?c = "c\<lparr>cl_data := Some c1'\<rparr>"
  have c: "udp_open ?c" "client_up ?c c1'" using up by (simp_all add: udp_open_def client_up_def)
  from udp_tunnel.send_all [OF c(1) len refl c(2), of "[]"] obtain d where
    d: "m_for send_wire ws ?c = (Inr (), d)" "cl_outbox d = cl_outbox c @ ws" "udp_open d" "client_up d c1'"
    by (auto simp: udp_push_def)
  have "client_tun_readable CE rnd (Inr p) c = (Inr (), d)"
    using up(1) ip e d(1)
    by (auto simp: client_up_def client_tun_readable_def tun_read_def tun_fileno_def ip_packet_def meth_defs)
  with that d show ?thesis by blast
qed

lemma lossy_reads:
  assumes P: "aead_ok (e_prims CE)" and l: "lossy_inv (e_prims CE) a k0 k w0 L D l" and ok: "lossy_ok (Reads rnd p)"
    and room: "k + 47 < 256 ^ 4"
  shows "lossy_inv (e_prims CE) a k0 (k + frags_of p) w0 (insert (Suc k, p) L) D (lossy_step CE SE rid rk a (Reads rnd p) l)"
proof -
  let ?P = "e_prims CE" and ?c = "lk_client l"
  from l obtain c1 c2 where up: "client_up ?c c1" "udp_open ?c" and k: "packet_counter c1 = k" and pr: "dc_paired ?P c1 c2"
    and g: "\<forall>w\<in>set (lk_wire l). \<exists>x\<in>L. \<exists>i. genuine ?P c1 (fst x) (snd x) i w"
    and r: "receiver_ok ?P c1 k L D w0 a (lk_server l)" and L: "sent_ok k0 k L" "D \<subseteq> L" "k0 \<le> k"
    unfolding lossy_inv_def by blast
  from ok have rnd: "\<And>i. length (rnd i) = 12" and ip: "ip_packet p" by simp_all
  obtain ws c1' where e: "encrypt ?P rnd p c1 = (Inr ws, c1')"
    by (rule packet_encrypts [OF pr ip]) (use room k in auto)
  note eg = encrypt_genuine [OF rnd e, unfolded k]
  have len: "\<forall>w\<in>set ws. length w < 65536" using eg(2) genuine_head [OF P pr] by blast
  obtain d where d: "client_tun_readable CE rnd (Inr p) ?c = (Inr (), d)" "cl_outbox d = cl_outbox ?c @ ws"
    "client_up d c1'" "udp_open d" by (rule client_reads [OF up ip e len])
  have st: "lossy_step CE SE rid rk a (Reads rnd p) l = l\<lparr>lk_client := d, lk_wire := lk_wire l @ ws\<rparr>"
    using d(1,2) by (simp add: Let_def)
  have "\<forall>w\<in>set (lk_wire l @ ws). \<exists>x\<in>insert (Suc k, p) L. \<exists>i. genuine ?P c1' (fst x) (snd x) i w"
    using g eg by fastforce
  moreover have "receiver_ok ?P c1' (k + frags_of p) (insert (Suc k, p) L) D w0 a (lk_server l)"
    using receiver_sent [OF r] eg(1) by simp
  moreover have "dc_paired ?P c1' c2" "packet_counter c1' = k + frags_of p" using eg(1) pr by simp_all
  ultimately show ?thesis
    unfolding lossy_inv_def st using d(3,4) sent_ok_insert(1) [OF L(1) ip L(3)] L(2,3) by auto
qed

lemma lossy_arrives:
  assumes P: "aead_ok P" "lz4_ok P" "e_prims SE = P" and l: "lossy_inv P a k0 k w0 L D l"
  shows "\<exists>D'. lossy_inv P a k0 k w0 L D' (lossy_step CE SE rid rk a (Arrives now j) l)"
proof (cases "j < length (lk_wire l)")
  case True
  from l obtain c1 c2 where up: "client_up (lk_client l) c1" "udp_open (lk_client l)" and k: "packet_counter c1 = k"
    and pr: "dc_paired P c1 c2" and g: "\<forall>w\<in>set (lk_wire l). \<exists>x\<in>L. \<exists>i. genuine P c1 (fst x) (snd x) i w"
    and r: "receiver_ok P c1 k L D w0 a (lk_server l)" and L: "sent_ok k0 k L" "D \<subseteq> L" "k0 \<le> k"
    unfolding lossy_inv_def by blast
  from g True obtain x i where x: "x \<in> L" "genuine P c1 (fst x) (snd x) i (lk_wire l ! j)" by (meson nth_mem)
  obtain D' where "D' \<subseteq> L" "receiver_ok P c1 k L D' w0 a (snd (handle_udp_data SE now rid rk (lk_wire l ! j) a (lk_server l)))"
    by (rule receiver_arrives [OF P pr L(1,2) x r])
  with True up k pr g L show ?thesis unfolding lossy_inv_def by (intro exI [of _ D']) auto
qed (use l in auto)

lemma lossy_ticks:
  assumes "lossy_inv P a k0 k w0 L D l"
  shows "lossy_inv P a k0 k w0 L D (lossy_step CE SE rid rk a (Ticks now) l)"
proof -
  have "receiver_ok P c1 k L D w0 a (snd (tick SE now sv))" if "receiver_ok P c1 k L D w0 a sv" for c1 sv
    using receiver_tick that by (rule keepsD)
  with assms show ?thesis unfolding lossy_inv_def by auto
qed

lemma lossy_run_inv:
  assumes P: "aead_ok (e_prims CE)" "lz4_ok (e_prims CE)" "e_prims SE = e_prims CE"
  shows "lossy_inv (e_prims CE) a k0 k w0 L D l \<Longrightarrow> \<forall>ev\<in>set evs. lossy_ok ev \<Longrightarrow>
    k + 47 * length (packets_of evs) < 256 ^ 4 \<Longrightarrow>
    \<exists>k' L' D'. lossy_inv (e_prims CE) a k0 k' w0 L' D' (lossy_run CE SE rid rk a evs l) \<and>
      image_mset snd (mset_set L') = image_mset snd (mset_set L) + mset (packets_of evs)"
proof (induction evs arbitrary: k L D l)
  case Nil
  then show ?case by (auto simp: lossy_run_def)
next
  case (Cons ev evs)
  let ?l = "lossy_step CE SE rid rk a ev l"
  have run: "lossy_run CE SE rid rk a (ev # evs) l = lossy_run CE SE rid rk a evs ?l" by (simp add: lossy_run_def)
  show ?case
  proof (cases ev)
    case (Reads rnd p)
    with Cons.prems have ok: "lossy_ok (Reads rnd p)" and room: "k + 47 < 256 ^ 4" by auto
    from lossy_reads [OF P(1) Cons.prems(1) ok room, of SE rid rk, folded Reads]
    have i: "lossy_inv (e_prims CE) a k0 (k + frags_of p) w0 (insert (Suc k, p) L) D ?l" .
    have L: "sent_ok k0 k L" "k0 \<le> k" using Cons.prems(1) by (simp_all add: lossy_inv_def)
    have new: "(Suc k, p) \<notin> L" "finite L" using sent_ok_insert(2) [OF L(1) _ L(2)] ok L(1) by (simp_all add: sent_ok_def)
    have "k + frags_of p + 47 * length (packets_of evs) < 256 ^ 4"
      using Cons.prems(3) frags_of_read [of p] ok by (simp add: Reads)
    from Cons.IH [OF i _ this] Cons.prems(2) new show ?thesis unfolding run by (simp add: Reads)
  next
    case (Arrives now j)
    from lossy_arrives [OF P(1-3) Cons.prems(1), of CE rid rk now j, folded Arrives] obtain D' where
      "lossy_inv (e_prims CE) a k0 k w0 L D' ?l" by blast
    from Cons.IH [OF this] Cons.prems(2,3) show ?thesis unfolding run by (simp add: Arrives)
  next
    case (Ticks now)
    from lossy_ticks [OF Cons.prems(1), of CE SE rid rk now, folded Ticks]
    have "lossy_inv (e_prims CE) a k0 k w0 L D ?l" .
    from Cons.IH [OF this] Cons.prems(2,3) show ?thesis unfolding run by (simp add: Ticks)
  qed
qed

text \<open>
  Claim C2. The tunnel invents nothing: client and server are connected and their channels in step, and
  the network loses, repeats and reorders the client's datagrams at will, while the server's
  main loop turns at any times. The packets the server's device has been given are then, as a multiset, among those the
  client's device has delivered: none is altered, none is made up of the fragments of several, and
  none comes out twice.
\<close>

theorem tunnel_at_most_once:
  assumes "aead_ok (e_prims CE)" and "lz4_ok (e_prims CE)" and "e_prims SE = e_prims CE"
    and "linked (e_prims CE) (e_kernel SE) a k c sv" and "udp_open c"
    and "k + 47 * length (packets_of evs) < 256 ^ 4" and "\<forall>ev\<in>set evs. lossy_ok ev"
  shows "\<exists>out. delivered (lossy_run CE SE rid rk a evs (idle_link c sv)) = tun_written (sv_tun sv) @ out \<and>
    mset out \<subseteq># mset (packets_of evs)"
proof -
  from assms(4) obtain c1 c2 where up: "client_up c c1" "server_up (e_kernel SE) a sv c2" and s: "in_step (e_prims CE) c1 c2"
    and k: "packet_counter c1 = k" unfolding linked_def by blast
  from up(2) have "receiver_ok (e_prims CE) c1 k {} {} (tun_written (sv_tun sv)) a sv"
    using receiving_start [OF s] s k by (auto simp: receiver_ok_def server_up_def in_step_def)
  moreover have "dc_paired (e_prims CE) c1 c2" using s by (simp add: in_step_def)
  ultimately have "lossy_inv (e_prims CE) a k k (tun_written (sv_tun sv)) {} {} (idle_link c sv)"
    using up(1) assms(5) k sent_ok_empty unfolding lossy_inv_def idle_link_def by fastforce
  from lossy_run_inv [OF assms(1-3) this assms(7,6), of rid rk] obtain k' L D where
    i: "lossy_inv (e_prims CE) a k k' (tun_written (sv_tun sv)) L D (lossy_run CE SE rid rk a evs (idle_link c sv))"
    and m: "image_mset snd (mset_set L) = mset (packets_of evs)" by auto
  from i obtain out where out: "delivered (lossy_run CE SE rid rk a evs (idle_link c sv)) = tun_written (sv_tun sv) @ out"
      "mset out \<subseteq># image_mset snd (mset_set D)" and L: "finite L" "D \<subseteq> L"
    unfolding lossy_inv_def receiver_ok_def delivered_def sent_ok_def by blast
  have "image_mset snd (mset_set D) \<subseteq># image_mset snd (mset_set L)"
    using L by (intro image_mset_subseteq_mono subset_imp_msubset_mset_set)
  with out m show ?thesis by (auto intro: subset_mset.order_trans)
qed

text \<open>A fragmented packet whose last fragment comes first and twice, and a packet that overtakes it.\<close>

theorem tunnel_at_most_once_witness:
  "\<exists>out. delivered (lossy_run toy_client_env toy_env [] 5 (''192.0.2.9'', 4000)
       [Reads toy_nonce (0x45 # replicate 4000 0), Reads toy_nonce [0x45], Arrives 1 2, Arrives 1 2, Arrives 2 3,
        Ticks 3, Arrives 4 0, Arrives 5 1] (idle_link toy_client_up toy_ready)) = out \<and>
     mset out \<subseteq># {# 0x45 # replicate 4000 0, [0x45] #}"
proof -
  let ?evs = "[Reads toy_nonce (0x45 # replicate 4000 0), Reads toy_nonce [0x45], Arrives 1 2, Arrives 1 2, Arrives 2 3,
        Ticks 3, Arrives 4 0, Arrives 5 1]"
  have "\<forall>ev\<in>set ?evs. lossy_ok ev" using toy_sizes [of 4000] toy_sizes [of 0] by simp
  moreover have "tun_written (sv_tun toy_ready) = []" by (simp add: toy_ready_def new_tun_def)
  moreover have "udp_open toy_client_up"
    by (simp add: udp_open_def toy_client_up_def toy_start_def new_client_def client_is_tcp_def toy_client_settings_def)
  ultimately show ?thesis
    using tunnel_at_most_once [of toy_client_env toy_env _ 0 toy_client_up toy_ready ?evs "[]" 5, OF _ _ _ toy_linked]
      toy_aead_ok toy_lz4_ok
    by (simp add: toy_client_env_def toy_env_def)
qed

end
