(* ===== verification/Tls_Endpoints.thy ===== *)
theory Tls_Endpoints
  imports Tls_Channel Settings
begin

text \<open>
  The two ends of the TLS control channel, \<^verbatim>\<open>src/protocol/tls_channel.py\<close>: the contexts, the
  channel object, the listening server and the connecting client. The \<^verbatim>\<open>ssl\<close> and \<^verbatim>\<open>socket\<close>
  modules and the certificate parser are the parameter record \<open>tls_lib\<close>; \<open>tls_lib_ok\<close> states
  what their documentation promises of a handshake that requires a certificate.
\<close>

section \<open>Contexts\<close>

datatype tls_version = TLSv1_2 | TLSv1_3

definition TLS_VERSION :: tls_version where
  "TLS_VERSION = TLSv1_3"

record ssl_context =
  server_side :: bool
  minimum_version :: tls_version
  maximum_version :: tls_version
  cert_chain :: "(string \<times> string) option"
  verify_locations :: "string option"
  cert_required :: bool
  check_hostname :: bool

text \<open>\<^verbatim>\<open>SSLContext(PROTOCOL_TLS_SERVER)\<close> and \<^verbatim>\<open>SSLContext(PROTOCOL_TLS_CLIENT)\<close>, with their defaults.\<close>

definition protocol_tls_server :: ssl_context where
  "protocol_tls_server =
     \<lparr>server_side = True, minimum_version = TLSv1_2, maximum_version = TLSv1_3, cert_chain = None,
      verify_locations = None, cert_required = False, check_hostname = False\<rparr>"

definition protocol_tls_client :: ssl_context where
  "protocol_tls_client =
     \<lparr>server_side = False, minimum_version = TLSv1_2, maximum_version = TLSv1_3, cert_chain = None,
      verify_locations = None, cert_required = True, check_hostname = True\<rparr>"

record tls_conn =
  conn_version :: string
  conn_cert :: "bytes option"

record tls_lib =
  chain_loads :: "string \<Rightarrow> string \<Rightarrow> bool"
  ca_loads :: "string \<Rightarrow> bool"
  may_bind :: "addr \<Rightarrow> bool"
  may_connect :: "addr \<Rightarrow> bool"
  tls_handshake :: "ssl_context \<Rightarrow> string option \<Rightarrow> nat \<Rightarrow> tls_conn res"
  der_names :: "bytes \<Rightarrow> string list option"

definition load_cert_chain :: "tls_lib \<Rightarrow> string \<Rightarrow> string \<Rightarrow> (ssl_context, unit) meth" where
  "load_cert_chain L cert key ctx =
     (if chain_loads L cert key then (Inr (), ctx\<lparr>cert_chain := Some (cert, key)\<rparr>) else (Inl OSError, ctx))"

definition load_verify_locations :: "tls_lib \<Rightarrow> string \<Rightarrow> (ssl_context, unit) meth" where
  "load_verify_locations L ca ctx =
     (if ca_loads L ca then (Inr (), ctx\<lparr>verify_locations := Some ca\<rparr>) else (Inl OSError, ctx))"

definition make_server_context :: "tls_lib \<Rightarrow> string \<Rightarrow> string \<Rightarrow> string \<Rightarrow> ssl_context res" where
  "make_server_context L ca cert key =
     (case (m_seq (m_upd (\<lambda>c. c\<lparr>minimum_version := TLS_VERSION, maximum_version := TLS_VERSION\<rparr>))
           (m_seq (load_cert_chain L cert key)
           (m_seq (load_verify_locations L ca)
            (m_upd (\<lambda>c. c\<lparr>cert_required := True\<rparr>))))) protocol_tls_server of
        (Inl e, _) \<Rightarrow> Inl e
      | (Inr _, ctx) \<Rightarrow> Inr ctx)"

definition make_client_context ::
  "tls_lib \<Rightarrow> string \<Rightarrow> string \<Rightarrow> string \<Rightarrow> string option \<Rightarrow> ssl_context res" where
  "make_client_context L ca cert key server_hostname =
     (case (m_seq (m_upd (\<lambda>c. c\<lparr>minimum_version := TLS_VERSION, maximum_version := TLS_VERSION\<rparr>))
           (m_seq (load_verify_locations L ca)
           (m_seq (load_cert_chain L cert key)
            (m_upd (\<lambda>c. c\<lparr>check_hostname := False\<rparr>))))) protocol_tls_client of
        (Inl e, _) \<Rightarrow> Inl e
      | (Inr _, ctx) \<Rightarrow> Inr ctx)"

section \<open>The channel object\<close>

record tls_channel =
  ch_conn :: tls_conn
  peer_cert_der :: "bytes option"
  peer_common_name :: "string option"
  ch_closed :: bool

definition common_name_from_der :: "tls_lib \<Rightarrow> bytes \<Rightarrow> string option" where
  "common_name_from_der L der =
     (case der_names L der of
        None \<Rightarrow> None
      | Some [] \<Rightarrow> None
      | Some (n # _) \<Rightarrow> Some n)"

definition new_tls_channel :: "tls_lib \<Rightarrow> tls_conn \<Rightarrow> tls_channel" where
  "new_tls_channel L sock =
     (let der = conn_cert sock in
      \<lparr>ch_conn = sock, peer_cert_der = der,
       peer_common_name = (if truthy der then common_name_from_der L (or_empty der) else None),
       ch_closed = False\<rparr>)"

definition tls_version_of :: "tls_channel \<Rightarrow> string" where
  "tls_version_of ch = conn_version (ch_conn ch)"

text \<open>\<^verbatim>\<open>close\<close> swallows what \<^verbatim>\<open>unwrap\<close> and \<^verbatim>\<open>close\<close> of the socket raise; \<open>closes\<close> is whether the latter succeeds.\<close>

definition tls_close :: "bool \<Rightarrow> tls_channel \<Rightarrow> tls_channel" where
  "tls_close closes ch = (if closes then ch\<lparr>ch_closed := True\<rparr> else ch)"

section \<open>Server and client\<close>

record tls_server =
  ts_ctx :: ssl_context
  ts_address :: addr
  ts_closed :: bool

definition new_tls_server ::
  "tls_lib \<Rightarrow> string \<Rightarrow> nat \<Rightarrow> string \<Rightarrow> string \<Rightarrow> string \<Rightarrow> tls_server res" where
  "new_tls_server L host port ca cert key =
     res_bind (make_server_context L ca cert key) (\<lambda>ctx.
     if may_bind L (host, port)
     then Inr \<lparr>ts_ctx = ctx, ts_address = (host, port), ts_closed = False\<rparr>
     else Inl OSError)"

text \<open>\<^verbatim>\<open>accept\<close> of a connection, here its number, that is waiting in the backlog.\<close>

definition tls_accept :: "tls_lib \<Rightarrow> nat res \<Rightarrow> tls_server \<Rightarrow> tls_channel res" where
  "tls_accept L pending sv =
     (if ts_closed sv then Inl OSError
      else
        res_bind pending (\<lambda>conn.
        res_bind (tls_handshake L (ts_ctx sv) None conn) (\<lambda>sock.
        Inr (new_tls_channel L sock))))"

definition tls_server_close :: "bool \<Rightarrow> tls_server \<Rightarrow> tls_server" where
  "tls_server_close closes sv = (if closes then sv\<lparr>ts_closed := True\<rparr> else sv)"

definition connect_client ::
  "tls_lib \<Rightarrow> string \<Rightarrow> nat \<Rightarrow> string \<Rightarrow> string \<Rightarrow> string \<Rightarrow> string option \<Rightarrow> nat \<Rightarrow> tls_channel res" where
  "connect_client L host port ca cert key server_hostname conn =
     res_bind (make_client_context L ca cert key server_hostname) (\<lambda>ctx.
     if \<not> may_connect L (host, port) then Inl OSError
     else
       res_bind (tls_handshake L ctx server_hostname conn) (\<lambda>sock.
       Inr (new_tls_channel L sock)))"

section \<open>Who is at the other end\<close>

text \<open>
  Documented behaviour of a handshake: it uses a version between the context's bounds, and
  with a required certificate it only succeeds with a peer certificate, issued under the loaded
  authority (\<open>issued ca der\<close>).
\<close>

definition version_name :: "tls_version \<Rightarrow> string" where
  "version_name v = (case v of TLSv1_2 \<Rightarrow> ''TLSv1.2'' | TLSv1_3 \<Rightarrow> ''TLSv1.3'')"

definition tls_lib_ok :: "tls_lib \<Rightarrow> (string \<Rightarrow> bytes \<Rightarrow> bool) \<Rightarrow> bool" where
  "tls_lib_ok L issued \<longleftrightarrow>
     (\<forall>ctx name conn sock. tls_handshake L ctx name conn = Inr sock \<longrightarrow>
        conn_version sock \<in> version_name ` {minimum_version ctx, maximum_version ctx} \<and>
        (cert_required ctx \<longrightarrow>
           (\<exists>ca der. verify_locations ctx = Some ca \<and> conn_cert sock = Some der \<and> issued ca der)))"

lemma server_context:
  "make_server_context L ca cert key = Inr ctx \<Longrightarrow>
     cert_required ctx \<and> verify_locations ctx = Some ca \<and> cert_chain ctx = Some (cert, key) \<and>
     minimum_version ctx = TLSv1_3 \<and> maximum_version ctx = TLSv1_3 \<and> server_side ctx"
  by (auto simp: make_server_context_def meth_defs load_cert_chain_def load_verify_locations_def
      TLS_VERSION_def protocol_tls_server_def split: if_splits)

lemma client_context:
  "make_client_context L ca cert key name = Inr ctx \<Longrightarrow>
     cert_required ctx \<and> verify_locations ctx = Some ca \<and> cert_chain ctx = Some (cert, key) \<and>
     minimum_version ctx = TLSv1_3 \<and> maximum_version ctx = TLSv1_3 \<and> \<not> server_side ctx \<and>
     \<not> check_hostname ctx"
  by (auto simp: make_client_context_def meth_defs load_cert_chain_def load_verify_locations_def
      TLS_VERSION_def protocol_tls_client_def split: if_splits)

lemma handshake_authenticates:
  assumes "tls_lib_ok L issued" and "tls_handshake L ctx name conn = Inr sock"
    and "cert_required ctx" and "verify_locations ctx = Some ca"
    and "minimum_version ctx = TLSv1_3" and "maximum_version ctx = TLSv1_3"
  shows "tls_version_of (new_tls_channel L sock) = ''TLSv1.3'' \<and>
    (\<exists>der. peer_cert_der (new_tls_channel L sock) = Some der \<and> issued ca der)"
proof -
  from assms(1,2) have "conn_version sock \<in> version_name ` {minimum_version ctx, maximum_version ctx} \<and>
      (cert_required ctx \<longrightarrow>
         (\<exists>ca der. verify_locations ctx = Some ca \<and> conn_cert sock = Some der \<and> issued ca der))"
    unfolding tls_lib_ok_def by blast
  with assms(3-6) show ?thesis
    by (auto simp: tls_version_of_def new_tls_channel_def Let_def version_name_def)
qed

text \<open>
  Both ends of the control channel authenticate: whatever channel \<^verbatim>\<open>accept\<close> or
  \<^verbatim>\<open>connect_client\<close> returns speaks TLS 1.3 and carries a peer certificate issued under the
  authority given. The host name is not part of it: the client's result does not depend on it
  beyond what the library does with a name it is told not to check.
\<close>

theorem tls_peers_authenticated:
  assumes "tls_lib_ok L issued"
  shows "(\<forall>host port cert key sv pending ch.
      new_tls_server L host port ca cert key = Inr sv \<longrightarrow> tls_accept L pending sv = Inr ch \<longrightarrow>
      tls_version_of ch = ''TLSv1.3'' \<and> (\<exists>der. peer_cert_der ch = Some der \<and> issued ca der)) \<and>
    (\<forall>host port cert key name conn ch.
      connect_client L host port ca cert key name conn = Inr ch \<longrightarrow>
      tls_version_of ch = ''TLSv1.3'' \<and> (\<exists>der. peer_cert_der ch = Some der \<and> issued ca der))"
proof (intro conjI allI impI)
  fix host port cert key sv pending ch
  assume "new_tls_server L host port ca cert key = Inr sv" "tls_accept L pending sv = Inr ch"
  then obtain ctx sock conn where "make_server_context L ca cert key = Inr ctx" "ts_ctx sv = ctx"
    "tls_handshake L ctx None conn = Inr sock" "ch = new_tls_channel L sock"
    by (auto simp: new_tls_server_def tls_accept_def res_bind_Inr_iff split: if_splits)
  with handshake_authenticates [OF assms] server_context
  show "tls_version_of ch = ''TLSv1.3''" and "\<exists>der. peer_cert_der ch = Some der \<and> issued ca der"
    by metis+
next
  fix host port cert key name conn ch
  assume "connect_client L host port ca cert key name conn = Inr ch"
  then obtain ctx sock where "make_client_context L ca cert key name = Inr ctx"
    "tls_handshake L ctx name conn = Inr sock" "ch = new_tls_channel L sock"
    by (auto simp: connect_client_def res_bind_Inr_iff split: if_splits)
  with handshake_authenticates [OF assms] client_context
  show "tls_version_of ch = ''TLSv1.3''" and "\<exists>der. peer_cert_der ch = Some der \<and> issued ca der"
    by metis+
qed

end
