(* ===== verification/Tun_Windows.thy ===== *)
theory Tun_Windows
  imports Tun
begin

text \<open>
  The Windows TUN interface, \<^verbatim>\<open>src/tun_windows.py\<close>: finding and loading the Wintun library, the
  adapter's and the session's life cycle, the waiting read, the send buffer and the \<^verbatim>\<open>netsh\<close>
  commands. The library itself (reached through \<^verbatim>\<open>ctypes\<close>) is the parameter \<open>wintun\<close>, whose
  answers may depend on the calls made so far; a null pointer is \<open>None\<close>. Handles and packets
  given out and returned are recorded in \<open>wt_calls\<close>.
\<close>

unbundle bit_operations_syntax

declare split_paired_All [simp del] split_paired_Ex [simp del]

section \<open>Loading the library\<close>

datatype win_call =
    Created string bytes nat
  | Deleted nat
  | Started nat nat
  | Ended nat
  | Event_of nat
  | Released nat nat
  | Sent nat bytes

record wintun =
  w_exists :: "string \<Rightarrow> bool"
  w_loads :: "string \<Rightarrow> bool"
  w_symbol :: "string \<Rightarrow> bool"
  w_create :: "win_call list \<Rightarrow> string \<Rightarrow> bytes \<Rightarrow> nat option"
  w_start :: "win_call list \<Rightarrow> nat \<Rightarrow> nat \<Rightarrow> nat option"
  w_event :: "nat \<Rightarrow> nat"
  w_alloc :: "win_call list \<Rightarrow> nat \<Rightarrow> nat \<Rightarrow> nat option"
  w_md5 :: "bytes \<Rightarrow> bytes"

text \<open>\<^verbatim>\<open>os.path.join\<close> of a directory and a relative path on Windows.\<close>

definition nt_join :: "string \<Rightarrow> string \<Rightarrow> string" where
  "nt_join a b =
     (if a = [] \<or> last a \<in> {CHR ''/'', CHR 0x5C, CHR '':''} then a @ b else a @ [CHR 0x5C] @ b)"

definition dll_paths :: "string \<Rightarrow> string option \<Rightarrow> string list" where
  "dll_paths here sysroot =
     (let root = (case sysroot of None \<Rightarrow> ''C:'' @ [CHR 0x5C] @ ''Windows'' | Some r \<Rightarrow> r) in
      [''wintun.dll'',
       nt_join (nt_join here ''..'') ''wintun.dll'',
       nt_join root ''wintun.dll'',
       nt_join (nt_join root ''System32'') ''wintun.dll''])"

definition wintun_functions :: "string list" where
  "wintun_functions =
     [''WintunCreateAdapter'', ''WintunDeleteAdapter'', ''WintunStartSession'', ''WintunEndSession'',
      ''WintunGetReadWaitEvent'', ''WintunReceivePacket'', ''WintunReleaseReceivePacket'',
      ''WintunAllocateSendPacket'', ''WintunSendPacket'']"

text \<open>The module's global \<^verbatim>\<open>_wintun\<close> is the path of the loaded library.\<close>

definition load_wintun ::
  "wintun \<Rightarrow> string \<Rightarrow> string option \<Rightarrow> string option \<Rightarrow> bool res \<times> string option" where
  "load_wintun W here sysroot lib =
     (if lib \<noteq> None then (Inr True, lib)
      else
        case find (w_exists W) (dll_paths here sysroot) of
          None \<Rightarrow> (Inr False, None)
        | Some p \<Rightarrow>
            if \<not> w_loads W p then (Inl OSError, None)
            else if list_all (w_symbol W) wintun_functions then (Inr True, Some p)
            else (Inr False, None))"

definition guid_from_name :: "wintun \<Rightarrow> string \<Rightarrow> bytes" where
  "guid_from_name W name =
     (let h = take 16 (w_md5 W (utf8_encode name));
          h1 = h[7 := (h ! 7 AND 0x0f) OR 0x40] in
      h1[8 := (h1 ! 8 AND 0x3f) OR 0x80])"

section \<open>The interface\<close>

record win_tun =
  wt_name :: string
  wt_adapter :: "nat option"
  wt_session :: "nat option"
  wt_read_event :: "nat option"
  wt_closed :: bool
  wt_lib :: "string option"
  wt_calls :: "win_call list"
  wt_os :: os

definition new_win_tun :: "string \<Rightarrow> string option \<Rightarrow> os \<Rightarrow> win_tun" where
  "new_win_tun name lib s =
     \<lparr>wt_name = name, wt_adapter = None, wt_session = None, wt_read_event = None, wt_closed = False,
      wt_lib = lib, wt_calls = [], wt_os = s\<rparr>"

definition adapter_name :: "win_tun \<Rightarrow> string" where
  "adapter_name t = ''pyvpn-'' @ wt_name t"

definition record_call :: "win_call \<Rightarrow> win_tun \<Rightarrow> win_tun" where
  "record_call c t = t\<lparr>wt_calls := wt_calls t @ [c]\<rparr>"

definition win_open :: "wintun \<Rightarrow> string \<Rightarrow> string option \<Rightarrow> (win_tun, unit) meth" where
  "win_open W here sysroot t =
     (case load_wintun W here sysroot (wt_lib t) of
        (Inl e, lib) \<Rightarrow> (Inl e, t\<lparr>wt_lib := lib\<rparr>)
      | (Inr False, lib) \<Rightarrow> (Inl RuntimeError, t\<lparr>wt_lib := lib\<rparr>)
      | (Inr True, lib) \<Rightarrow>
          let t0 = t\<lparr>wt_lib := lib\<rparr>; guid = guid_from_name W (wt_name t) in
          (case w_create W (wt_calls t0) (adapter_name t0) guid of
             None \<Rightarrow> (Inl RuntimeError, t0\<lparr>wt_adapter := None\<rparr>)
           | Some a \<Rightarrow>
               let t1 = record_call (Created (adapter_name t0) guid a) (t0\<lparr>wt_adapter := Some a\<rparr>) in
               (case w_start W (wt_calls t1) a 0x400000 of
                  None \<Rightarrow>
                    (Inl RuntimeError, (record_call (Deleted a) (t1\<lparr>wt_session := None\<rparr>))\<lparr>wt_adapter := None\<rparr>)
                | Some s \<Rightarrow>
                    (Inr (), record_call (Event_of s)
                       ((record_call (Started a s) (t1\<lparr>wt_session := Some s\<rparr>))
                          \<lparr>wt_read_event := Some (w_event W s)\<rparr>)))))"

definition win_close :: "win_tun \<Rightarrow> win_tun" where
  "win_close t =
     (let t0 = t\<lparr>wt_closed := True\<rparr>;
          t1 = (case wt_session t0 of
                  None \<Rightarrow> t0
                | Some s \<Rightarrow> (record_call (Ended s) t0)\<lparr>wt_session := None\<rparr>) in
      case wt_adapter t1 of
        None \<Rightarrow> t1
      | Some a \<Rightarrow> (record_call (Deleted a) t1)\<lparr>wt_adapter := None\<rparr>)"

text \<open>
  \<^verbatim>\<open>read\<close>: \<open>recv\<close> are the results of the successive calls of \<^verbatim>\<open>receive_packet\<close>, a pointer and
  the bytes behind it, or a null pointer, after which the call waits 100 ms. \<open>None\<close>: still
  waiting when the list ends.
\<close>

fun read_wait :: "nat \<Rightarrow> (nat \<times> bytes) option list \<Rightarrow> win_tun \<Rightarrow> bytes option \<times> win_tun" where
  "read_wait s [] t = (None, t)"
| "read_wait s (None # recv) t = read_wait s recv t"
| "read_wait s (Some (p, data) # recv) t =
     (if data \<noteq> [] then (Some data, record_call (Released s p) t) else read_wait s recv t)"

definition win_read :: "(nat \<times> bytes) option list \<Rightarrow> win_tun \<Rightarrow> bytes res option \<times> win_tun" where
  "win_read recv t =
     (case wt_session t of
        None \<Rightarrow> (Some (Inl RuntimeError), t)
      | Some s \<Rightarrow>
          if wt_closed t then (Some (Inl OSError), t)
          else (case read_wait s recv t of (d, u) \<Rightarrow> (map_option Inr d, u)))"

definition win_write :: "wintun \<Rightarrow> bytes \<Rightarrow> (win_tun, nat) meth" where
  "win_write W packet t =
     (case wt_session t of
        None \<Rightarrow> (Inl RuntimeError, t)
      | Some s \<Rightarrow>
          (case w_alloc W (wt_calls t) s (length packet) of
             None \<Rightarrow> (Inr 0, t)
           | Some p \<Rightarrow> (Inr (length packet), record_call (Sent s packet) t)))"

definition win_run :: "world \<Rightarrow> string list \<Rightarrow> (win_tun, unit) meth" where
  "win_run V cmd t =
     (case subprocess_run V True cmd (wt_os t) of
        (Inl e, s) \<Rightarrow> (Inl e, t\<lparr>wt_os := s\<rparr>)
      | (Inr _, s) \<Rightarrow> (Inr (), t\<lparr>wt_os := s\<rparr>))"

definition win_set_ip :: "world \<Rightarrow> string \<Rightarrow> (win_tun, unit) meth" where
  "win_set_ip V cidr t =
     (case split_on (CHR ''/'') cidr of
        [ip, prefix] \<Rightarrow>
          (m_bind (m_lift (res_bind (py_int prefix) prefixlen_to_netmask)) (\<lambda>mk.
           m_seq (win_run V [''netsh'', ''interface'', ''ip'', ''set'', ''address'',
                    ''name='' @ adapter_name t, ''source=static addr='' @ ip @ '' mask='' @ mk])
                 (win_run V [''netsh'', ''interface'', ''ip'', ''set'', ''interface'',
                    ''name='' @ adapter_name t, ''admin=enabled'']))) t
      | _ \<Rightarrow> (Inl ValueError, t))"

definition win_set_mtu :: "world \<Rightarrow> nat \<Rightarrow> (win_tun, unit) meth" where
  "win_set_mtu V mtu t =
     win_run V [''netsh'', ''interface'', ''ip'', ''set'', ''subinterface'',
       ''name='' @ adapter_name t, ''mtu='' @ str_nat mtu] t"

definition win_fileno :: "win_tun \<Rightarrow> nat res" where
  "win_fileno t = Inl NotImplementedError"

definition with_win_tun ::
  "wintun \<Rightarrow> string \<Rightarrow> string option \<Rightarrow> (win_tun, 'a) meth \<Rightarrow> (win_tun, 'a) meth" where
  "with_win_tun W here sysroot body t =
     (case win_open W here sysroot t of
        (Inl e, u) \<Rightarrow> (Inl e, u)
      | (Inr _, u) \<Rightarrow> (case body u of (r, v) \<Rightarrow> (r, win_close v)))"

section \<open>Handles\<close>

text \<open>
  Runs of an interface. \<^verbatim>\<open>open\<close> is called on an interface that holds nothing, as the program
  does (on a new object, or after \<^verbatim>\<open>close\<close>).
\<close>

inductive win_reach :: "wintun \<Rightarrow> win_tun \<Rightarrow> bool" for W where
  win_new: "win_reach W (new_win_tun name lib s)"
| win_opened: "win_reach W t \<Longrightarrow> wt_adapter t = None \<Longrightarrow> wt_session t = None \<Longrightarrow>
    win_open W here sysroot t = (r, u) \<Longrightarrow> win_reach W u"
| win_closed: "win_reach W t \<Longrightarrow> win_reach W (win_close t)"
| win_has_read: "win_reach W t \<Longrightarrow> win_read recv t = (r, u) \<Longrightarrow> win_reach W u"
| win_has_written: "win_reach W t \<Longrightarrow> win_write W packet t = (r, u) \<Longrightarrow> win_reach W u"
| win_ip: "win_reach W t \<Longrightarrow> win_set_ip V cidr t = (r, u) \<Longrightarrow> win_reach W u"
| win_mtu: "win_reach W t \<Longrightarrow> win_set_mtu V n t = (r, u) \<Longrightarrow> win_reach W u"

fun adapter_delta :: "nat \<Rightarrow> win_call \<Rightarrow> int" where
  "adapter_delta a (Created n g b) = of_bool (b = a)"
| "adapter_delta a (Deleted b) = - of_bool (b = a)"
| "adapter_delta a c = 0"

fun session_delta :: "nat \<Rightarrow> win_call \<Rightarrow> int" where
  "session_delta s (Started a b) = of_bool (b = s)"
| "session_delta s (Ended b) = - of_bool (b = s)"
| "session_delta s c = 0"

text \<open>Adapters created and not deleted; sessions started and not ended.\<close>

definition open_adapters :: "win_call list \<Rightarrow> nat \<Rightarrow> int" where
  "open_adapters cs a = sum_list (map (adapter_delta a) cs)"

definition open_sessions :: "win_call list \<Rightarrow> nat \<Rightarrow> int" where
  "open_sessions cs s = sum_list (map (session_delta s) cs)"

definition handles_ok :: "win_tun \<Rightarrow> bool" where
  "handles_ok t \<longleftrightarrow>
     (\<forall>a. open_adapters (wt_calls t) a = of_bool (wt_adapter t = Some a)) \<and>
     (\<forall>s. open_sessions (wt_calls t) s = of_bool (wt_session t = Some s)) \<and>
     (wt_adapter t = None \<longrightarrow> wt_session t = None)"

lemma open_simps [simp]:
  "open_adapters [] a = 0" "open_sessions [] s = 0"
  "open_adapters (c # cs) a = adapter_delta a c + open_adapters cs a"
  "open_sessions (c # cs) s = session_delta s c + open_sessions cs s"
  "open_adapters (cs @ ds) a = open_adapters cs a + open_adapters ds a"
  "open_sessions (cs @ ds) s = open_sessions cs s + open_sessions ds s"
  by (simp_all add: open_adapters_def open_sessions_def)

lemma open_ok:
  assumes "handles_ok t" and "wt_adapter t = None" and "wt_session t = None"
    and "win_open W here sysroot t = (r, u)"
  shows "handles_ok u"
  using assms
  by (auto simp: win_open_def Let_def handles_ok_def record_call_def split: prod.splits sum.splits bool.splits
      option.splits)

lemma close_ok: "handles_ok t \<Longrightarrow> handles_ok (win_close t)"
  by (auto simp: win_close_def Let_def handles_ok_def record_call_def split: option.splits)

lemma read_wait_ok: "handles_ok t \<Longrightarrow> read_wait s recv t = (d, u) \<Longrightarrow> handles_ok u"
  by (induction s recv t rule: read_wait.induct)
    (auto simp: handles_ok_def record_call_def split: if_splits)

lemma win_run_frame: "win_run V cmd t = (r, u) \<Longrightarrow> handles_ok t \<Longrightarrow> handles_ok u"
  by (auto simp: win_run_def handles_ok_def split: prod.splits sum.splits)

lemma set_ip_ok: "win_set_ip V cidr t = (r, u) \<Longrightarrow> handles_ok t \<Longrightarrow> handles_ok u"
  by (auto simp: win_set_ip_def meth_defs split: list.splits prod.splits sum.splits
      dest!: win_run_frame)

lemma win_reach_ok: "win_reach W t \<Longrightarrow> handles_ok t"
proof (induction rule: win_reach.induct)
  case (win_new name lib s)
  then show ?case by (simp add: handles_ok_def new_win_tun_def open_adapters_def open_sessions_def)
next
  case (win_opened t here sysroot r u)
  then show ?case using open_ok by blast
next
  case (win_closed t)
  then show ?case by (simp add: close_ok)
next
  case (win_has_read t recv r u)
  then show ?case
    by (auto simp: win_read_def split: option.splits if_splits prod.splits dest: read_wait_ok)
next
  case (win_has_written t packet r u)
  then show ?case
    by (auto simp: win_write_def handles_ok_def record_call_def split: option.splits)
next
  case (win_ip t V cidr r u)
  then show ?case using set_ip_ok by blast
next
  case (win_mtu t V n r u)
  then show ?case using win_run_frame by (auto simp: win_set_mtu_def)
qed

text \<open>
  Claim C37. Driver handles are not leaked: in every run, whatever the driver answers and
  whatever fails, the adapters created and not deleted are exactly the one the interface
  holds, the same for sessions, and once \<^verbatim>\<open>close\<close> has been called none is left.
\<close>

theorem windows_handles_released:
  assumes "win_reach W t"
  shows "(\<forall>a. open_adapters (wt_calls t) a = of_bool (wt_adapter t = Some a)) \<and>
    (\<forall>s. open_sessions (wt_calls t) s = of_bool (wt_session t = Some s)) \<and>
    (\<forall>h. open_adapters (wt_calls (win_close t)) h = 0 \<and> open_sessions (wt_calls (win_close t)) h = 0)"
proof -
  from win_reach_ok [OF assms] have ok: "handles_ok t" .
  have "wt_adapter (win_close t) = None" "wt_session (win_close t) = None"
    by (auto simp: win_close_def Let_def record_call_def split: option.split)
  with close_ok [OF ok] ok show ?thesis by (simp add: handles_ok_def)
qed

definition toy_wintun :: wintun where
  "toy_wintun =
     \<lparr>w_exists = (\<lambda>p. p = ''wintun.dll''), w_loads = (\<lambda>_. True), w_symbol = (\<lambda>_. True), w_create = (\<lambda>_ _ _. Some 7),
      w_start = (\<lambda>_ _ _. Some 8), w_event = (\<lambda>_. 9), w_alloc = (\<lambda>_ _ _. Some 10),
      w_md5 = (\<lambda>_. replicate 16 0xff)\<rparr>"

theorem windows_handles_released_witness:
  "\<exists>t. win_open toy_wintun [] None (new_win_tun ''tun'' None empty_os) = (Inr (), t) \<and>
     open_adapters (wt_calls t) 7 = 1 \<and> open_sessions (wt_calls t) 8 = 1 \<and>
     open_adapters (wt_calls (win_close t)) 7 = 0"
proof -
  obtain t where t: "win_open toy_wintun [] None (new_win_tun ''tun'' None empty_os) = (Inr (), t)"
    "wt_adapter t = Some 7" "wt_session t = Some 8"
    by (auto simp: win_open_def load_wintun_def dll_paths_def toy_wintun_def new_win_tun_def Let_def
        record_call_def list_all_iff)
  have "win_reach toy_wintun t"
    by (rule win_opened [OF win_new _ _ t(1)]) (simp_all add: new_win_tun_def)
  from windows_handles_released [OF this] t show ?thesis by auto
qed

text \<open>Opening again after \<^verbatim>\<open>close\<close> gives an interface that cannot be read: \<^verbatim>\<open>_closed\<close> is never reset.\<close>

theorem reopened_interface_unreadable:
  assumes "win_open W here sysroot (win_close t) = (Inr (), u)"
  shows "fst (win_read recv u) = Some (Inl OSError)"
proof -
  have "wt_closed (win_close t)" by (auto simp: win_close_def Let_def record_call_def split: option.split)
  with assms have "wt_closed u \<and> wt_session u \<noteq> None"
    by (auto simp: win_open_def Let_def record_call_def split: prod.splits sum.splits bool.splits option.splits)
  then show ?thesis by (auto simp: win_read_def)
qed

end
