(* ===== verification/Spec2Isabelle.thy ===== *)
theory Spec2Isabelle
  imports Wire_Props Handshake_Props Handshake_Security Channel_Props System_Props Server_Props Status_File
    Server_Routes Keepalive Unreliable Tls_Endpoints Tun_Windows
begin

text \<open>
  A verification development for the Python VPN: a client and a server that carry IP packets
  between their TUN devices inside encrypted datagrams (or length-prefixed frames over TCP),
  after a handshake that agrees a key. This theory imports all others; it holds no definitions.

  \<^bold>\<open>The program and its theories.\<close> Paths are relative to \<^verbatim>\<open>src/\<close> of the repository's \<^verbatim>\<open>src\<close>
  directory; definitions have the names of the functions and methods they model, without
  leading underscores.

  \<^item> \<open>Py_Prelude\<close>: exceptions as values (\<open>exn\<close>, \<open>res\<close>), methods that mutate an object and may
    raise (\<open>meth\<close>: the new state is returned in both cases), coroutine objects, whose body runs
    when they are awaited and not when they are dropped (\<open>coroutine\<close>, \<open>await\<close>), \<open>keeps\<close> (a method preserves a
    condition) with its rules in the collection \<open>keeps_intro\<close>, the big-endian \<^verbatim>\<open>struct\<close> codec,
    dictionaries as association lists in insertion order, decimal printing.
  \<^item> \<open>Py_Text\<close>: the parts of \<^verbatim>\<open>str\<close>, UTF-8 and \<^verbatim>\<open>ipaddress\<close> the program uses, with the round
    trip of dotted addresses. A Python string is the list of the bytes of its UTF-8 encoding.
  \<^item> \<open>Os_Effects\<close>: \<^verbatim>\<open>subprocess.run\<close> and file writes, recorded in order; what a command does is
    the parameter \<open>world\<close>.
  \<^item> \<open>Packet\<close>: \<^verbatim>\<open>protocol/messages.py\<close> and \<^verbatim>\<open>protocol/packet.py\<close>. \<open>Framing\<close>: the locale
    \<open>framed_stream\<close> of both stream transports and \<^verbatim>\<open>protocol/framing.py\<close>, its interpretation
    \<open>tcp\<close>. \<open>Tls_Channel\<close> and \<open>Tls_Endpoints\<close>: \<^verbatim>\<open>protocol/tls_channel.py\<close>, with the
    interpretation \<open>tls\<close>. \<open>Wire_Props\<close>: their properties.
  \<^item> \<open>Replay\<close>: \<^verbatim>\<open>protocol/replay.py\<close>, the abstract receiver that remembers every accepted id, and
    the refinement. \<open>Crypto\<close>: \<^verbatim>\<open>crypto/*.py\<close> over the parameter records \<open>prims\<close> and \<open>pki\<close>.
    \<open>Data_Channel\<close>: \<^verbatim>\<open>protocol/data.py\<close>. \<open>Reassembly\<close>: delivery of fragments in any order.
    \<open>Channel_Props\<close>: the properties of window and channel. \<open>Toy_Env\<close>: concrete parameters for
    the witnesses.
  \<^item> \<open>Control\<close>: \<^verbatim>\<open>protocol/control.py\<close>. \<open>Handshake_Props\<close>: the handshake completes, and what
    \<open>ESTABLISHED\<close> means to a client. \<open>Handshake_Security\<close>: what it means to a server, and the
    ways around the certificate.
  \<^item> \<open>Routing\<close>: \<^verbatim>\<open>routing.py\<close>, the locale \<open>ip_allocator\<close> and its interpretation \<open>pool\<close>.
    \<open>Config\<close>: \<^verbatim>\<open>config.py\<close>, \<^verbatim>\<open>cli.py\<close> from the namespace \<^verbatim>\<open>argparse\<close> returns, \<^verbatim>\<open>app.py\<close>.
    \<open>Settings\<close>: a configuration whose string fields hold strings, and the parameters of the
    two processes. \<open>Tun\<close> and \<open>Tun_Windows\<close>: \<^verbatim>\<open>tun.py\<close> and \<^verbatim>\<open>tun_windows.py\<close>. \<open>Privileges\<close>:
    \<^verbatim>\<open>privileges.py\<close>. \<open>Status_File\<close>: \<^verbatim>\<open>status.py\<close>. \<open>System_Props\<close>: properties of configuration
    and device.
  \<^item> \<open>Server\<close>: \<^verbatim>\<open>server.py\<close>. \<open>Server_Inv\<close>: the states a server can reach (\<open>server_reach\<close>) and
    the invariant of its tables. \<open>Server_Props\<close>: its properties. \<open>Server_Routes\<close>: the routes it
    adds and deletes, from startup (\<open>serving\<close>) to \<open>shutdown\<close>.
  \<^item> \<open>Client\<close>: \<^verbatim>\<open>client.py\<close>, with the phases of \<^verbatim>\<open>run\<close>. \<open>Client_Props\<close>: the states a client can
    reach (\<open>client_reach\<close>) and its properties.
  \<^item> \<open>Flow\<close>: two channels with datagrams in flight between them. \<open>Tunnel\<close>: a connected client and
    server together, over the locale \<open>transport\<close> with its interpretations for UDP and TCP.
    \<open>Connection\<close>: how the two become connected, message by message, in either mode. \<open>Keepalive\<close>:
    how the connection outlives silence. \<open>Genuine\<close> and
    \<open>Unreliable\<close>: the channel and the tunnel over a network that loses, repeats and reorders.

  \<^bold>\<open>How the parts interact.\<close> The client's attempt creates a session and sends a reset; each
  datagram is dispatched on its opcode to the message functions of \<open>Control\<close>, whose replies are
  sent back. When a session is established, each side creates a data channel from the session's
  ids and key; the server takes an address from the pool, enters it into its routing table and
  announces it; the client configures its device and routes. Packets from the client's device
  are encrypted and sent, the server decrypts them and writes them to its device. Once a second
  each side looks at its timeouts and drops incomplete fragment groups; the server also sends
  keepalives. The state of a process is one record (\<open>vpn_server\<close>, \<open>vpn_client\<close>); a step is one
  call of a method, which is what the event loop runs without interruption; interleavings are
  sequences of steps, as the rules of \<open>server_reach\<close> and \<open>client_reach\<close>, where the parts of a
  turn of the server's main loop are steps of their own because it awaits between them. Awaiting
  the \<^verbatim>\<open>drain\<close> of a TCP writer may raise (\<open>e_drain\<close> at the server, the argument \<open>drained\<close> of the
  client's attempt); the handler of a connection tests \<^verbatim>\<open>_running\<close> before it waits for the next
  frame, so after each frame it has handled. The clock and random
  draws are arguments of the step that reads them, and the clock is read once per step.

  \<^bold>\<open>What the lemmas show.\<close> Codecs and framings are inverse to their parsers and their readers
  end on every stream. The bitmap window refines the set of accepted ids. A channel returns
  what its peer encrypted, also fragmented and reordered, and rejects replays at any later moment; its packet ids
  are never reused. An honest handshake completes with one key on both sides, the channels
  opened from it are in step; between the two processes, from the first datagram, it takes six
  datagrams (or frames, over TCP) and one turn of the client's loop (\<open>Connection\<close>), while keepalives are exchanged in
  time neither end gives up (\<open>Keepalive\<close>), and then every stream of IP packets the client reads comes out of
  the server's device unchanged and in order, over UDP and TCP, large packets included
  (\<open>Tunnel\<close>); and if the network keeps no order and loses or repeats datagrams, still no packet
  comes out that was not read, and none twice (\<open>Unreliable\<close>). An established client with a CA
  configured has an authenticated key. In every reachable server state addresses are exclusive
  and routed to their client, the pool conserves them, and cleanup removes exactly the stale
  clients. The routes of both sides are undone, and a silent connection is retried. Configuration
  values have their types and bounds, with the exceptions the theorems name. Devices, driver
  handles and privileges are released or dropped.

  The theorems also show what the code does against its intention: packets from the server's
  device are never sent, and their destination is read from the payload; a server with a CA can be joined
  without a certificate or with a stolen one; an address assignment, a reset or a forged packet
  id is believed from anybody; a client whose handshake stalls waits for
  ever; over TCP one lost connection ends the server's main loop; a server that cannot open its socket leaves its routes and its device behind.

  \<^bold>\<open>Parameters.\<close> Code that is not in the repository is a field of a record the definitions take:
  the \<^verbatim>\<open>cryptography\<close> package (\<open>prims\<close>, \<open>pki\<close>), \<^verbatim>\<open>lz4\<close>, the kernel's TUN device, the commands of the
  machine, its accounts and file system (a kernel may refuse the change of ids, a disk may be
  full), the draining of a connection, the \<^verbatim>\<open>ssl\<close> module, the Wintun library. The named
  hypotheses on them state documented behaviour: \<open>aead_ok\<close> (decryption inverts encryption,
  ciphertexts have a 16-byte tag), \<open>lz4_ok\<close> (decompression inverts compression), \<open>dh_ok\<close> (both
  sides of an exchange agree), \<open>tls_lib_ok\<close>, \<open>programs_start\<close> and \<open>all_succeed\<close> (the machine's
  commands exist, or succeed). Each is satisfied by the concrete parameters of the witnesses.

  \<^bold>\<open>Bounds and fuel.\<close> A read of the device returns at most 65536 bytes, which are 47
  fragments: hence the 47 packet ids, and the 47 arrivals, per packet in the theorems on the tunnel. Packet counters are natural numbers whose 32-bit bound appears where
  \<^verbatim>\<open>struct.pack\<close> raises; bytes are 8-bit words; the window bitmap is an unbounded integer, as in
  Python. Only \<open>drain\<close>, the reading loop of a stream, has fuel: one more turn than the stream has
  bytes is enough (\<open>drain_enough\<close>), and one more than it has frames for a given list of frames.
  The exact-read loop of \<open>Tls_Channel\<close> is total, with its termination proved.

  \<^bold>\<open>Not modelled.\<close> Logging; \<^verbatim>\<open>argparse\<close> and signal handling of the standard library; the asyncio
  protocol classes, which only forward their calls; the \<^verbatim>\<open>sleep\<close> calls and the event loop's
  scheduling (any order of steps is allowed instead); closing of sockets beyond the list of
  writers the server has closed; the \<^verbatim>\<open>ctypes\<close> declarations of the Windows driver; the text of
  exceptions and log messages; threads (the program has one; its locks are taken by no second
  one); \<^verbatim>\<open>Config.from_dict\<close>, which only the tests call. A configuration that holds a list where a string is expected is modelled by the parser
  but not by the two processes.
\<close>

end
